theory Spec2Isabelle
  imports Main
begin

section \<open>JavaScript strings and numbers\<close>

text \<open>
  A string is the list of its code units. The type \<open>char\<close> has 256 values, so the model
  covers strings whose code units lie below 256 (ASCII and Latin-1); on them the functions
  below agree with the JavaScript built-ins they are named after. Numbers are integers
  (\<open>int\<close>): every number the modelled code handles is a chapter, a verse, a status or a
  millisecond count. A JavaScript number is a double: it holds every integer of magnitude
  up to \<open>2^53\<close>, adds and subtracts such integers without rounding as long as the result
  stays in that range, prints them digit by digit in a template literal, and \<open>parseInt\<close>
  reads them back from their digits. Within that range \<open>numberToString\<close> is the
  template-literal conversion and \<open>parseInt10\<close> is \<open>parseInt(s, 10)\<close> on a string of
  decimal digits. Beyond it JavaScript rounds to the nearest double (and prints the
  shortest digits that denote it, in exponent form from \<open>10^21\<close> on), which the two
  functions do not do: the statements that depend on the value or on the digits of a number
  carry the bound \<open>exactInteger\<close> defined below.
\<close>

text \<open>
  The character classes of the pattern and of \<open>trim\<close>, by code unit: \<open>\s\<close> is tab, line
  feed, vertical tab, form feed, carriage return, space and the no-break space; \<open>\d\<close> is
  \<open>0\<close> to \<open>9\<close>; \<open>[a-zA-Z]\<close> is \<open>A\<close> to \<open>Z\<close> and \<open>a\<close> to \<open>z\<close>.
\<close>

definition isSpace :: "char \<Rightarrow> bool" where
  "isSpace c = (let n = (of_char c :: nat) in (9 \<le> n \<and> n \<le> 13) \<or> n = 32 \<or> n = 160)"

definition isDigit :: "char \<Rightarrow> bool" where
  "isDigit c = (let n = (of_char c :: nat) in 48 \<le> n \<and> n \<le> 57)"

definition isLetter :: "char \<Rightarrow> bool" where
  "isLetter c = (let n = (of_char c :: nat) in (65 \<le> n \<and> n \<le> 90) \<or> (97 \<le> n \<and> n \<le> 122))"

definition trim :: "string \<Rightarrow> string" where
  "trim s = rev (dropWhile isSpace (rev (dropWhile isSpace s)))"

text \<open>\<open>s.replace(/\n/g, ' ')\<close>\<close>

definition replaceNewlines :: "string \<Rightarrow> string" where
  "replaceNewlines s = map (\<lambda>c. if c = CHR 0x0A then CHR '' '' else c) s"

text \<open>\<open>s.replace(/\s/g, '')\<close>\<close>

definition removeWhitespace :: "string \<Rightarrow> string" where
  "removeWhitespace s = filter (\<lambda>c. \<not> isSpace c) s"

definition toLowerChar :: "char \<Rightarrow> char" where
  "toLowerChar c =
     (let n = (of_char c :: nat)
      in if (65 \<le> n \<and> n \<le> 90) \<or> (192 \<le> n \<and> n \<le> 222 \<and> n \<noteq> 215)
         then char_of (n + 32) else c)"

definition toLowerCase :: "string \<Rightarrow> string" where
  "toLowerCase s = map toLowerChar s"

fun startsWith :: "string \<Rightarrow> string \<Rightarrow> bool" where
  "startsWith s [] = True"
| "startsWith [] (p # ps) = False"
| "startsWith (c # cs) (p # ps) = (c = p \<and> startsWith cs ps)"

fun includes' :: "string \<Rightarrow> string \<Rightarrow> bool" where
  "includes' [] t = (t = [])"
| "includes' (c # cs) t = (startsWith (c # cs) t \<or> includes' cs t)"

fun decimal :: "nat \<Rightarrow> string" where
  "decimal n =
     (if n < 10 then [char_of (48 + n)] else decimal (n div 10) @ [char_of (48 + n mod 10)])"

definition numberToString :: "int \<Rightarrow> string" where
  "numberToString i = (if i < 0 then CHR ''-'' # decimal (nat (- i)) else decimal (nat i))"

definition digitValue :: "char \<Rightarrow> nat" where
  "digitValue c = of_char c - 48"

definition parseInt10 :: "string \<Rightarrow> int" where
  "parseInt10 s = int (foldl (\<lambda>a c. 10 * a + digitValue c) 0 s)"

definition exactInteger :: "int \<Rightarrow> bool" where
  "exactInteger n \<longleftrightarrow> - 9007199254740992 \<le> n \<and> n \<le> 9007199254740992"

text \<open>\<open>xs[i]\<close> on an array: \<open>undefined\<close> outside the array.\<close>

definition jsIndex :: "'a list \<Rightarrow> int \<Rightarrow> 'a option" where
  "jsIndex xs i = (if 0 \<le> i \<and> i < int (length xs) then Some (xs ! nat i) else None)"


section \<open>The scripture service: data\<close>

text \<open>
  \<open>BIBLE_META_WITH_VERSE_COUNTS\<close> and \<open>teluguBibleData\<close> are imported from data modules
  that are not part of the sources at hand; every function that reads them takes them as
  the parameters \<open>table\<close> and \<open>telugu\<close>. The module \<open>types\<close> is not at hand either: the
  records \<open>Verse\<close>, \<open>FullVerse\<close>, \<open>ParsedReference\<close> and \<open>VerseReference\<close> have the fields
  that the code writes and reads. The field names \<open>text\<close> and \<open>chapter\<close> of the source are
  written \<open>text'\<close> and \<open>chapter'\<close>.
\<close>

record BookVerseCounts =
  name :: string
  chapters :: "nat list"

record BookMeta =
  name :: string
  chapters :: nat

record TeluguVerse =
  Verseid :: string
  Verse :: string

record TeluguChapter =
  Verse :: "TeluguVerse list"

record TeluguBook =
  Chapter :: "TeluguChapter list"

record TeluguBible =
  Book :: "TeluguBook list"

record BibleApiResponseVerse =
  book_id :: string
  book_name :: string
  chapter' :: int
  verse :: int
  text' :: string

text \<open>
  The field \<open>verses\<close> is optional in the model because both fetch functions test
  \<open>!kjvData.verses\<close> before reading it.
\<close>

record BibleApiResponse =
  reference :: string
  verses :: "BibleApiResponseVerse list option"
  translation_id :: string
  translation_name :: string
  translation_note :: string

record VerseText =
  KJV :: string
  ESV :: string
  NIV :: string
  BSI_TELUGU :: "string option"

record Verse =
  verse :: int
  text' :: VerseText

record FullVerse = Verse +
  book :: string
  chapter' :: int

record ParsedReference =
  book :: string
  chapter' :: int
  startVerse :: int
  endVerse :: "int option"

text \<open>
  What \<open>fetch(url)\<close> settles to: a rejection, or a response with its status and the
  result of \<open>res.json()\<close> (\<open>None\<close> when the body is not JSON).
\<close>

datatype http = NetworkFailure string | Response nat "BibleApiResponse option"

datatype error = TransportError string | SyntaxError | Error string | TypeError

definition API_BASE_URL :: string where
  "API_BASE_URL = ''https://bible-api.com/''"


section \<open>The scripture service: the Telugu corpus\<close>

text \<open>
  \<open>bookNameToIndexMap\<close> is filled by \<open>forEach\<close> with \<open>set(book.name, index)\<close>, so a name
  that occurs twice keeps its last index.
\<close>

definition bookNameToIndexMap :: "BookVerseCounts list \<Rightarrow> string \<Rightarrow> nat option" where
  "bookNameToIndexMap table b =
     (case filter (\<lambda>i. BookVerseCounts.name (table ! i) = b) [0..<length table] of
        [] \<Rightarrow> None
      | i # is \<Rightarrow> Some (last (i # is)))"

text \<open>
  \<open>typedTeluguBibleData.Book[bookIndex]?.Chapter[chapterIndex]?.Verse[verseIndex]\<close> and then
  \<open>verseData?.Verse\<close>: each missing index yields \<open>undefined\<close>.
\<close>

definition getTeluguVerse ::
  "BookVerseCounts list \<Rightarrow> TeluguBible \<Rightarrow> string \<Rightarrow> int \<Rightarrow> int \<Rightarrow> string option" where
  "getTeluguVerse table telugu b c v =
     (case bookNameToIndexMap table b of
        None \<Rightarrow> None
      | Some bookIndex \<Rightarrow>
          (let chapterIndex = c - 1; verseIndex = v - 1
           in case jsIndex (Book telugu) (int bookIndex) of
                None \<Rightarrow> None
              | Some bk \<Rightarrow>
                  (case jsIndex (Chapter bk) chapterIndex of
                     None \<Rightarrow> None
                   | Some ch \<Rightarrow>
                       (case jsIndex (TeluguChapter.Verse ch) verseIndex of
                          None \<Rightarrow> None
                        | Some verseData \<Rightarrow> Some (TeluguVerse.Verse verseData)))))"


section \<open>The scripture service: fetching and merging\<close>

text \<open>
  \<open>fetch(url).then(res => { if (!res.ok) throw new Error(msg); return res.json() })\<close>.
  \<open>res.ok\<close> holds for the statuses 200 to 299.
\<close>

definition fetchJson :: "(string \<Rightarrow> http) \<Rightarrow> string \<Rightarrow> (nat \<Rightarrow> string) \<Rightarrow> error + BibleApiResponse" where
  "fetchJson net url msg =
     (case net url of
        NetworkFailure m \<Rightarrow> Inl (TransportError m)
      | Response status body \<Rightarrow>
          (if \<not> (200 \<le> status \<and> status \<le> 299) then Inl (Error (msg status))
           else case body of None \<Rightarrow> Inl SyntaxError | Some r \<Rightarrow> Inr r))"

text \<open>
  \<open>Promise.all\<close> of two requests that were both issued. When both reject, JavaScript
  reports the rejection that happens first in time; the model reports the one that stands
  first in the array. No statement below depends on which of two errors is reported.
\<close>

definition promiseAll2 :: "error + 'a \<Rightarrow> error + 'b \<Rightarrow> error + ('a \<times> 'b)" where
  "promiseAll2 a b =
     (case a of
        Inl e \<Rightarrow> Inl e
      | Inr x \<Rightarrow> (case b of Inl e \<Rightarrow> Inl e | Inr y \<Rightarrow> Inr (x, y)))"

text \<open>\<open>Promise.all(fetchPromises)\<close> on a list, with the same convention.\<close>

fun promiseAll :: "(error + 'a) list \<Rightarrow> error + 'a list" where
  "promiseAll [] = Inr []"
| "promiseAll (p # ps) =
     (case p of
        Inl e \<Rightarrow> Inl e
      | Inr x \<Rightarrow> (case promiseAll ps of Inl e \<Rightarrow> Inl e | Inr xs \<Rightarrow> Inr (x # xs)))"

text \<open>
  The record literal \<open>{ KJV, ESV, NIV, ...(teluguVerse && { BSI_TELUGU: teluguVerse }) }\<close>:
  the Telugu key is present when \<open>teluguVerse\<close> is truthy, that is, defined and not empty.
\<close>

definition mergedText :: "string \<Rightarrow> string \<Rightarrow> string option \<Rightarrow> VerseText" where
  "mergedText kjvText webText teluguVerse =
     \<lparr>KJV = kjvText, ESV = webText, NIV = webText,
      BSI_TELUGU = (case teluguVerse of
                      None \<Rightarrow> None
                    | Some t \<Rightarrow> if t = [] then None else Some t)\<rparr>"

text \<open>
  The two texts computed by the callback of \<open>kjvData.verses.map\<close>, the same in both fetch
  functions: \<open>webVerse\<close> is the first verse of the web response with the number of the KJV
  verse.
\<close>

definition kjvText :: "BibleApiResponseVerse \<Rightarrow> string" where
  "kjvText kjvVerse = trim (replaceNewlines (BibleApiResponseVerse.text' kjvVerse))"

definition webText :: "BibleApiResponseVerse list \<Rightarrow> BibleApiResponseVerse \<Rightarrow> string" where
  "webText webVerses kjvVerse =
     (case find (\<lambda>v. BibleApiResponseVerse.verse v = BibleApiResponseVerse.verse kjvVerse) webVerses of
        Some webVerse \<Rightarrow> trim (replaceNewlines (BibleApiResponseVerse.text' webVerse))
      | None \<Rightarrow> kjvText kjvVerse)"

text \<open>
  The callbacks of \<open>kjvData.verses.map\<close> in \<open>fetchChapter\<close> and in
  \<open>fetchVersesByReferences\<close>, applied to one verse of the KJV response.
\<close>

definition mergeChapterVerse ::
  "BookVerseCounts list \<Rightarrow> TeluguBible \<Rightarrow> string \<Rightarrow> int \<Rightarrow> BibleApiResponseVerse list
     \<Rightarrow> BibleApiResponseVerse \<Rightarrow> Verse" where
  "mergeChapterVerse table telugu b c webVerses kjvVerse =
     \<lparr>Verse.verse = BibleApiResponseVerse.verse kjvVerse,
      Verse.text' = mergedText (kjvText kjvVerse) (webText webVerses kjvVerse)
        (getTeluguVerse table telugu b c (BibleApiResponseVerse.verse kjvVerse))\<rparr>"

definition mergeReferenceVerse ::
  "BookVerseCounts list \<Rightarrow> TeluguBible \<Rightarrow> ParsedReference \<Rightarrow> BibleApiResponseVerse list
     \<Rightarrow> BibleApiResponseVerse \<Rightarrow> FullVerse" where
  "mergeReferenceVerse table telugu r webVerses kjvVerse =
     \<lparr>Verse.verse = BibleApiResponseVerse.verse kjvVerse,
      Verse.text' = mergedText (kjvText kjvVerse) (webText webVerses kjvVerse)
        (getTeluguVerse table telugu (ParsedReference.book r) (ParsedReference.chapter' r)
           (BibleApiResponseVerse.verse kjvVerse)),
      FullVerse.book = ParsedReference.book r,
      FullVerse.chapter' = ParsedReference.chapter' r\<rparr>"

text \<open>
  \<open>fetchChapter\<close>. Reading \<open>webData.verses.find\<close> when the web response has no \<open>verses\<close>
  raises a \<open>TypeError\<close> in the first call of the callback; the \<open>catch\<close> block logs and
  rethrows.
\<close>

definition chapterUrl :: "string \<Rightarrow> int \<Rightarrow> string \<Rightarrow> string" where
  "chapterUrl b c version = API_BASE_URL @ b @ '' '' @ numberToString c @ ''?translation='' @ version"

definition fetchChapter ::
  "(string \<Rightarrow> http) \<Rightarrow> BookVerseCounts list \<Rightarrow> TeluguBible \<Rightarrow> string \<Rightarrow> int \<Rightarrow> error + Verse list" where
  "fetchChapter net table telugu b c =
     (let fetchTranslation = (\<lambda>version.
            fetchJson net (chapterUrl b c version)
              (\<lambda>status. ''HTTP error! status: '' @ decimal status @ '' for '' @ version))
      in case promiseAll2 (fetchTranslation ''web'') (fetchTranslation ''kjv'') of
           Inl e \<Rightarrow> Inl e
         | Inr (webData, kjvData) \<Rightarrow>
             (case verses kjvData of
                None \<Rightarrow> Inl (Error (''No KJV verses found for '' @ b @ '' '' @ numberToString c))
              | Some [] \<Rightarrow> Inl (Error (''No KJV verses found for '' @ b @ '' '' @ numberToString c))
              | Some (k # ks) \<Rightarrow>
                  (case verses webData of
                     None \<Rightarrow> Inl TypeError
                   | Some webVerses \<Rightarrow>
                       Inr (map (mergeChapterVerse table telugu b c webVerses) (k # ks)))))"

text \<open>
  \<open>fetchVersesByReferences\<close>: one asynchronous callback per reference, then
  \<open>Promise.all\<close> and \<open>flat()\<close>. \<open>ref.endVerse ? ... : ...\<close> takes the second branch when
  \<open>endVerse\<close> is absent or 0.
\<close>

definition referenceString :: "ParsedReference \<Rightarrow> string" where
  "referenceString r =
     (case endVerse r of
        None \<Rightarrow> ParsedReference.book r @ '' '' @ numberToString (ParsedReference.chapter' r) @ '':''
                 @ numberToString (startVerse r)
      | Some e \<Rightarrow>
          if e = 0
          then ParsedReference.book r @ '' '' @ numberToString (ParsedReference.chapter' r) @ '':''
                 @ numberToString (startVerse r)
          else ParsedReference.book r @ '' '' @ numberToString (ParsedReference.chapter' r) @ '':''
                 @ numberToString (startVerse r) @ ''-'' @ numberToString e)"

definition referenceUrl :: "ParsedReference \<Rightarrow> string \<Rightarrow> string" where
  "referenceUrl r version = API_BASE_URL @ referenceString r @ ''?translation='' @ version"

definition fetchReference ::
  "(string \<Rightarrow> http) \<Rightarrow> BookVerseCounts list \<Rightarrow> TeluguBible \<Rightarrow> ParsedReference \<Rightarrow> error + FullVerse list" where
  "fetchReference net table telugu r =
     (let fetchEnglish = (\<lambda>version.
            fetchJson net (referenceUrl r version)
              (\<lambda>status. ''HTTP error! status: '' @ decimal status @ '' for '' @ version
                          @ '' at '' @ referenceString r))
      in case promiseAll2 (fetchEnglish ''web'') (fetchEnglish ''kjv'') of
           Inl e \<Rightarrow> Inl e
         | Inr (webData, kjvData) \<Rightarrow>
             (case verses kjvData of
                None \<Rightarrow> Inr []
              | Some [] \<Rightarrow> Inr []
              | Some (k # ks) \<Rightarrow>
                  (case verses webData of
                     None \<Rightarrow> Inl TypeError
                   | Some webVerses \<Rightarrow>
                       Inr (map (mergeReferenceVerse table telugu r webVerses) (k # ks)))))"

definition fetchVersesByReferences ::
  "(string \<Rightarrow> http) \<Rightarrow> BookVerseCounts list \<Rightarrow> TeluguBible \<Rightarrow> ParsedReference list \<Rightarrow> error + FullVerse list" where
  "fetchVersesByReferences net table telugu references =
     (case promiseAll (map (fetchReference net table telugu) references) of
        Inl e \<Rightarrow> Inl e
      | Inr results \<Rightarrow> Inr (concat results))"


section \<open>Book names and abbreviations\<close>

definition bookNameToAbbreviation :: "(string \<times> string) list" where
  "bookNameToAbbreviation =
    [(''Genesis'', ''Gen''), (''Exodus'', ''Exod''), (''Leviticus'', ''Lev''),
     (''Numbers'', ''Num''), (''Deuteronomy'', ''Deut''), (''Joshua'', ''Josh''),
     (''Judges'', ''Judg''), (''Ruth'', ''Ruth''), (''1 Samuel'', ''1 Sam''),
     (''2 Samuel'', ''2 Sam''), (''1 Kings'', ''1 Kgs''), (''2 Kings'', ''2 Kgs''),
     (''1 Chronicles'', ''1 Chr''), (''2 Chronicles'', ''2 Chr''), (''Ezra'', ''Ezra''),
     (''Nehemiah'', ''Neh''), (''Esther'', ''Esth''), (''Job'', ''Job''),
     (''Psalms'', ''Ps''), (''Proverbs'', ''Prov''), (''Ecclesiastes'', ''Eccl''),
     (''Song of Solomon'', ''Song''), (''Isaiah'', ''Isa''), (''Jeremiah'', ''Jer''),
     (''Lamentations'', ''Lam''), (''Ezekiel'', ''Ezek''), (''Daniel'', ''Dan''),
     (''Hosea'', ''Hos''), (''Joel'', ''Joel''), (''Amos'', ''Amos''),
     (''Obadiah'', ''Obad''), (''Jonah'', ''Jonah''), (''Micah'', ''Mic''),
     (''Nahum'', ''Nah''), (''Habakkuk'', ''Hab''), (''Zephaniah'', ''Zeph''),
     (''Haggai'', ''Hag''), (''Zechariah'', ''Zech''), (''Malachi'', ''Mal''),
     (''Matthew'', ''Matt''), (''Mark'', ''Mark''), (''Luke'', ''Luke''),
     (''John'', ''John''), (''Acts'', ''Acts''), (''Romans'', ''Rom''),
     (''1 Corinthians'', ''1 Cor''), (''2 Corinthians'', ''2 Cor''),
     (''Galatians'', ''Gal''), (''Ephesians'', ''Eph''), (''Philippians'', ''Phil''),
     (''Colossians'', ''Col''), (''1 Thessalonians'', ''1 Thess''),
     (''2 Thessalonians'', ''2 Thess''), (''1 Timothy'', ''1 Tim''),
     (''2 Timothy'', ''2 Tim''), (''Titus'', ''Titus''), (''Philemon'', ''Phlm''),
     (''Hebrews'', ''Heb''), (''James'', ''Jas''), (''1 Peter'', ''1 Pet''),
     (''2 Peter'', ''2 Pet''), (''1 John'', ''1 John''), (''2 John'', ''2 John''),
     (''3 John'', ''3 John''), (''Jude'', ''Jude''), (''Revelation'', ''Rev'')]"

text \<open>
  \<open>abbreviationToBookName\<close> is built by \<open>reduce\<close> over the entries in order, each entry
  writing two keys, a later write replacing an earlier one. The object starts as \<open>{}\<close>, so
  a lookup of \<open>constructor\<close> or \<open>__proto__\<close> finds an inherited value that is no string;
  \<open>BIBLE_META.find(b => b.name === ...)\<close> then finds nothing and resolution goes on as
  after a failed lookup, which is what the model does for every key that was not written.
\<close>

definition abbreviationToBookName :: "string \<Rightarrow> string option" where
  "abbreviationToBookName =
     foldl (\<lambda>acc (name, abbr).
              (acc(removeWhitespace (toLowerCase abbr) \<mapsto> name))(toLowerCase abbr \<mapsto> name))
           Map.empty bookNameToAbbreviation"

definition BIBLE_META :: "BookVerseCounts list \<Rightarrow> BookMeta list" where
  "BIBLE_META table =
     map (\<lambda>b. \<lparr>BookMeta.name = BookVerseCounts.name b,
                BookMeta.chapters = length (BookVerseCounts.chapters b)\<rparr>) table"

text \<open>
  \<open>findBookMetadata\<close>. In \<open>abbreviationToBookName[a] || abbreviationToBookName[b]\<close> the
  first lookup wins when it finds a name (every name in the table is a non-empty string).
\<close>

definition findBookMetadata :: "BookVerseCounts list \<Rightarrow> string \<Rightarrow> BookMeta option" where
  "findBookMetadata table query =
     (let cleanedQuery = toLowerCase (trim query);
          cleanedQueryNoSpace = removeWhitespace cleanedQuery
      in case find (\<lambda>b. toLowerCase (BookMeta.name b) = cleanedQuery) (BIBLE_META table) of
           Some fullNameMatch \<Rightarrow> Some fullNameMatch
         | None \<Rightarrow>
             (let bookNameFromAbbr =
                    (case abbreviationToBookName cleanedQueryNoSpace of
                       Some n \<Rightarrow> Some n
                     | None \<Rightarrow> abbreviationToBookName cleanedQuery)
              in case (case bookNameFromAbbr of
                         None \<Rightarrow> None
                       | Some n \<Rightarrow> find (\<lambda>b. BookMeta.name b = n) (BIBLE_META table)) of
                   Some bookMeta \<Rightarrow> Some bookMeta
                 | None \<Rightarrow>
                     if cleanedQuery = ''song of songs''
                     then find (\<lambda>b. BookMeta.name b = ''Song of Solomon'') (BIBLE_META table)
                     else find (\<lambda>b. startsWith (toLowerCase (BookMeta.name b)) cleanedQuery)
                            (BIBLE_META table)))"

text \<open>
  The string-distance routine of the service. After the swap of the first line the body
  runs with \<open>length s2 \<le> length s1\<close>; \<open>levenshteinRows\<close> is that body. Every index it reads
  is inside its row.
\<close>

definition levenshteinRows :: "string \<Rightarrow> string \<Rightarrow> nat" where
  "levenshteinRows s1 s2 =
     (if length s2 = 0 then length s1
      else
        (let previousRow =
               foldl (\<lambda>previousRow i.
                        foldl (\<lambda>currentRow j.
                                 (let insertions = previousRow ! (j + 1) + 1;
                                      deletions = currentRow ! j + 1;
                                      substitutions =
                                        previousRow ! j + (if s1 ! i \<noteq> s2 ! j then 1 else 0)
                                  in currentRow @ [min insertions (min deletions substitutions)]))
                              [i + 1] [0..<length s2])
                     [0..<length s2 + 1] [0..<length s1]
         in previousRow ! length s2))"

definition levenshtein :: "string \<Rightarrow> string \<Rightarrow> nat" where
  "levenshtein s1 s2 =
     (if length s1 < length s2 then levenshteinRows s2 s1 else levenshteinRows s1 s2)"


section \<open>The reference parser\<close>

text \<open>
  The pattern \<open>/((\d\s*)?[a-zA-Z\s]+)\s+(\d+):(\d+)(?:-(\d+))?/i\<close>, matched as the
  backtracking matcher of JavaScript does. \<open>greedy P acc s k\<close> is \<open>P*\<close> in front of the
  rest of the pattern \<open>k\<close>: it takes the longest run first and gives characters back one
  at a time until \<open>k\<close> succeeds; \<open>acc\<close> is the text the repetition has consumed. \<open>greedy1\<close> is
  \<open>P+\<close>. With the flag \<open>i\<close> the class \<open>[a-zA-Z]\<close> is still the set of the 52 ASCII
  letters, \<open>\d\<close> is \<open>[0-9]\<close> and \<open>\s\<close> is the white space that \<open>trim\<close> removes.
\<close>

fun greedy :: "(char \<Rightarrow> bool) \<Rightarrow> string \<Rightarrow> string \<Rightarrow> (string \<Rightarrow> string \<Rightarrow> 'a option) \<Rightarrow> 'a option" where
  "greedy P acc [] k = k acc []"
| "greedy P acc (c # cs) k =
     (if P c
      then (case greedy P (acc @ [c]) cs k of Some r \<Rightarrow> Some r | None \<Rightarrow> k acc (c # cs))
      else k acc (c # cs))"

definition greedy1 :: "(char \<Rightarrow> bool) \<Rightarrow> string \<Rightarrow> (string \<Rightarrow> string \<Rightarrow> 'a option) \<Rightarrow> 'a option" where
  "greedy1 P s k = (case s of [] \<Rightarrow> None | c # cs \<Rightarrow> if P c then greedy P [c] cs k else None)"

text \<open>
  The groups the parser reads from a match: \<open>match[1]\<close>, \<open>match[3]\<close>, \<open>match[4]\<close> and
  \<open>match[5]\<close> (\<open>None\<close> when the optional range did not take part).
\<close>

record RegExpMatch =
  group1 :: string
  group3 :: string
  group4 :: string
  group5 :: "string option"

text \<open>
  The optional tail \<open>(?:-(\d+))?\<close>, which ends the pattern: the group takes part when a
  hyphen and a digit follow, and the match succeeds without it otherwise.
\<close>

definition rangeTail :: "string \<Rightarrow> string option" where
  "rangeTail s =
     (case s of
        [] \<Rightarrow> None
      | x # s' \<Rightarrow> if x = CHR ''-'' then greedy1 isDigit s' (\<lambda>w rest. Some w) else None)"

text \<open>
  The pattern from \<open>[a-zA-Z\s]+\<close> on; \<open>g2\<close> is what the optional group \<open>(\d\s*)\<close> has
  consumed.
\<close>

definition afterGroup2 :: "string \<Rightarrow> string \<Rightarrow> RegExpMatch option" where
  "afterGroup2 g2 s =
     greedy1 (\<lambda>c. isLetter c \<or> isSpace c) s (\<lambda>letters s2.
       greedy1 isSpace s2 (\<lambda>spaces s3.
         greedy1 isDigit s3 (\<lambda>c3 s4.
           (case s4 of
              [] \<Rightarrow> None
            | x # s5 \<Rightarrow>
                if x = CHR '':''
                then greedy1 isDigit s5 (\<lambda>c4 s6.
                       Some \<lparr>group1 = g2 @ letters, group3 = c3, group4 = c4,
                             group5 = rangeTail s6\<rparr>)
                else None))))"

text \<open>A match that starts at the first character: with the optional group, then without.\<close>

definition referenceRegexAt :: "string \<Rightarrow> RegExpMatch option" where
  "referenceRegexAt s =
     (case (case s of
              [] \<Rightarrow> None
            | d # r \<Rightarrow> if isDigit d then greedy isSpace [d] r afterGroup2 else None) of
        Some m \<Rightarrow> Some m
      | None \<Rightarrow> afterGroup2 [] s)"

text \<open>\<open>s.match(referenceRegex)\<close>: the match at the leftmost position that has one.\<close>

fun referenceRegex :: "string \<Rightarrow> RegExpMatch option" where
  "referenceRegex [] = referenceRegexAt []"
| "referenceRegex (c # cs) =
     (case referenceRegexAt (c # cs) of Some m \<Rightarrow> Some m | None \<Rightarrow> referenceRegex cs)"

text \<open>\<open>s.split(/[,;]/g)\<close>\<close>

fun splitSeparators :: "string \<Rightarrow> string list" where
  "splitSeparators [] = [[]]"
| "splitSeparators (c # cs) =
     (if c = CHR '','' \<or> c = CHR '';'' then [] # splitSeparators cs
      else (case splitSeparators cs of [] \<Rightarrow> [[c]] | p # ps \<Rightarrow> (c # p) # ps))"

text \<open>One round of the \<open>for\<close> loop of \<open>parseReferencesFromString\<close>.\<close>

definition parsePart :: "BookVerseCounts list \<Rightarrow> ParsedReference list \<Rightarrow> string \<Rightarrow> ParsedReference list" where
  "parsePart table parsedReferences part =
     (let trimmedPart = trim part
      in if trimmedPart = [] then parsedReferences
         else case referenceRegex trimmedPart of
                None \<Rightarrow> parsedReferences
              | Some m \<Rightarrow>
                  (let bookQuery = trim (group1 m)
                   in case findBookMetadata table bookQuery of
                        None \<Rightarrow> parsedReferences
                      | Some bookMeta \<Rightarrow>
                          parsedReferences @
                            [\<lparr>ParsedReference.book = BookMeta.name bookMeta,
                              ParsedReference.chapter' = parseInt10 (group3 m),
                              startVerse = parseInt10 (group4 m),
                              endVerse = (case group5 m of
                                            None \<Rightarrow> None
                                          | Some w \<Rightarrow> Some (parseInt10 w))\<rparr>]))"

definition parseReferencesFromString :: "BookVerseCounts list \<Rightarrow> string \<Rightarrow> ParsedReference list" where
  "parseReferencesFromString table refString = foldl (parsePart table) [] (splitSeparators refString)"


section \<open>The AI service\<close>

text \<open>
  The module state of the AI service: whether the client handle \<open>ai\<close> has been created,
  the chat sessions by mode, the analysis cache and the cooldown timestamp. A chat session
  is the object that \<open>chats.create\<close> returns; the model keeps the parameters it was created
  with (the \<open>config\<close> entries other than the system instruction as a list), and the turns
  it accumulates stay inside the library object. A \<open>ChatMode\<close> is the model identifier it
  stands for, a string: the enumeration is declared in the module \<open>types\<close>, the chat
  window offers three modes, and \<open>sendMessageToBot\<close> compares the mode with the string
  \<open>gemini-2.5-flash\<close>.
\<close>

record Chat =
  model :: string
  systemInstruction :: string
  config :: "(string \<times> string) list"

record gateway =
  ai :: bool
  chatInstances :: "string \<Rightarrow> Chat option"
  verseCache :: "string \<Rightarrow> string option"
  globalCooldownUntil :: int

text \<open>
  The two requests that reach the remote service, and what the service does with one:
  it answers with a text, or the call throws an error whose \<open>message\<close> may be missing.
\<close>

datatype request =
    GenerateContent string string string
  | SendMessage Chat string

datatype reply = Text string | Failure "string option"

text \<open>
  What one call of the service sees of the outside: the three readings of \<open>Date.now()\<close>
  that a call of \<open>safeGenerate\<close> can take, the credential \<open>VITE_API_KEY\<close>, and the remote
  service. \<open>now\<close> is the reading of the cooldown test, \<open>nowAgain\<close> the second reading, from
  which the remaining seconds are computed when the test has succeeded, and \<open>failedAt\<close>
  the reading in the \<open>catch\<close> block when a request has failed. Nothing relates the three
  readings: the clock may advance, or be set back, between them.
\<close>

record env =
  now :: int
  nowAgain :: int
  failedAt :: int
  apiKey :: "string option"
  remote :: "request \<Rightarrow> reply"

datatype aiError = ApiKeyError string | AiError string | Upstream "string option"

text \<open>\<open>err.message\<close>; \<open>AiError m\<close> is \<open>new Error(m)\<close>.\<close>

fun message :: "aiError \<Rightarrow> string option" where
  "message (ApiKeyError m) = Some m"
| "message (AiError m) = Some m"
| "message (Upstream m) = m"

text \<open>
  Every operation returns its outcome, the module state after it and the requests it has
  sent to the remote service, in order.
\<close>

definition getAiInstance :: "gateway \<Rightarrow> env \<Rightarrow> aiError + gateway" where
  "getAiInstance st e =
     (if \<not> ai st
      then (case apiKey e of
              None \<Rightarrow> Inl (ApiKeyError ''API key missing.'')
            | Some k \<Rightarrow>
                if k = [] then Inl (ApiKeyError ''API key missing.'')
                else Inr (st\<lparr>ai := True\<rparr>))
      else Inr st)"

text \<open>
  \<open>Math.ceil(ms / 1000)\<close> on an integer number of milliseconds, positive or not. (For
  \<open>exactInteger ms\<close> the rounding of the quotient to a double does not reach the next
  integer, and \<open>-0\<close> prints as \<open>0\<close>.)
\<close>

definition ceilSeconds :: "int \<Rightarrow> int" where
  "ceilSeconds ms = - ((- ms) div 1000)"

definition cooldownMessage :: "int \<Rightarrow> string" where
  "cooldownMessage secs = ''AI cooling down. Try again in '' @ numberToString secs @ ''s.''"

text \<open>\<open>err.message?.includes("429") || err.message?.includes("RESOURCE_EXHAUSTED")\<close>\<close>

definition isQuotaError :: "aiError \<Rightarrow> bool" where
  "isQuotaError err =
     (case message err of
        None \<Rightarrow> False
      | Some m \<Rightarrow> includes' m ''429'' \<or> includes' m ''RESOURCE_EXHAUSTED'')"

text \<open>The \<open>catch\<close> block of \<open>safeGenerate\<close>.\<close>

definition handleQuota ::
  "gateway \<Rightarrow> env \<Rightarrow> aiError \<Rightarrow> request list \<Rightarrow> (aiError + string) \<times> gateway \<times> request list" where
  "handleQuota st e err sent =
     (if isQuotaError err
      then (Inl (AiError ''AI is busy. Please wait 60 seconds and try again.''),
            st\<lparr>globalCooldownUntil := failedAt e + 60000\<rparr>, sent)
      else (Inl err, st, sent))"

definition safeGenerate ::
  "gateway \<Rightarrow> env \<Rightarrow> string \<Rightarrow> string \<Rightarrow> (aiError + string) \<times> gateway \<times> request list" where
  "safeGenerate st e mdl prompt =
     (if now e < globalCooldownUntil st
      then (let secs = ceilSeconds (globalCooldownUntil st - nowAgain e)
            in (Inl (AiError (cooldownMessage secs)), st, []))
      else case getAiInstance st e of
             Inl err \<Rightarrow> handleQuota st e err []
           | Inr st1 \<Rightarrow>
               (let req = GenerateContent mdl prompt
                            ''You are a concise biblical expert. Provide direct answers without filler.''
                in case remote e req of
                     Text t \<Rightarrow> (Inr t, st1, [req])
                   | Failure m \<Rightarrow> handleQuota st1 e (Upstream m) [req]))"

definition getChat :: "gateway \<Rightarrow> env \<Rightarrow> string \<Rightarrow> aiError + (Chat \<times> gateway)" where
  "getChat st e mode =
     (case chatInstances st mode of
        None \<Rightarrow>
          (case getAiInstance st e of
             Inl err \<Rightarrow> Inl err
           | Inr st1 \<Rightarrow>
               (let newChat = \<lparr>model = mode,
                               systemInstruction =
                                 ''You are an expert Bible scholar. Be precise, deep, and context-rich.'',
                               config = []\<rparr>
                in Inr (newChat, st1\<lparr>chatInstances := (chatInstances st1)(mode \<mapsto> newChat)\<rparr>)))
      | Some chat \<Rightarrow> Inr (chat, st))"

record BotReply =
  text' :: string
  sources :: "string list"

text \<open>\<open>{ text: err.message || "AI error", sources: [] }\<close>\<close>

definition errorReply :: "aiError \<Rightarrow> BotReply" where
  "errorReply err =
     \<lparr>BotReply.text' = (case message err of
                           None \<Rightarrow> ''AI error''
                         | Some m \<Rightarrow> if m = [] then ''AI error'' else m),
      sources = []\<rparr>"

text \<open>\<open>sendMessageToBot\<close>; the parameter \<open>history\<close> is never read.\<close>

definition sendMessageToBot ::
  "gateway \<Rightarrow> env \<Rightarrow> string \<Rightarrow> string \<Rightarrow> BotReply \<times> gateway \<times> request list" where
  "sendMessageToBot st e msg mode =
     (if mode = ''gemini-2.5-flash''
      then (case safeGenerate st e ''gemini-2.5-flash'' msg of
              (Inr t, st1, sent) \<Rightarrow> (\<lparr>BotReply.text' = t, sources = []\<rparr>, st1, sent)
            | (Inl err, st1, sent) \<Rightarrow> (errorReply err, st1, sent))
      else (case getChat st e mode of
              Inl err \<Rightarrow> (errorReply err, st, [])
            | Inr (chat, st1) \<Rightarrow>
                (case remote e (SendMessage chat msg) of
                   Text t \<Rightarrow> (\<lparr>BotReply.text' = t, sources = []\<rparr>, st1, [SendMessage chat msg])
                 | Failure m \<Rightarrow> (errorReply (Upstream m), st1, [SendMessage chat msg]))))"

record VerseReference =
  book :: string
  chapter' :: int
  verse :: int

datatype analysisType = CrossReferences | HistoricalContext | Interlinear

fun analysisTypeString :: "analysisType \<Rightarrow> string" where
  "analysisTypeString CrossReferences = ''Cross-references''"
| "analysisTypeString HistoricalContext = ''Historical Context''"
| "analysisTypeString Interlinear = ''Interlinear''"

definition cacheKey :: "VerseReference \<Rightarrow> analysisType \<Rightarrow> string" where
  "cacheKey verseRef t =
     VerseReference.book verseRef @ ''-'' @ numberToString (VerseReference.chapter' verseRef) @ ''-''
       @ numberToString (VerseReference.verse verseRef) @ ''-'' @ analysisTypeString t"

definition verseLabel :: "VerseReference \<Rightarrow> string" where
  "verseLabel verseRef =
     VerseReference.book verseRef @ '' '' @ numberToString (VerseReference.chapter' verseRef) @ '':''
       @ numberToString (VerseReference.verse verseRef)"

fun analysisPrompt :: "VerseReference \<Rightarrow> analysisType \<Rightarrow> string" where
  "analysisPrompt verseRef CrossReferences =
     ''Provide key cross-references for '' @ verseLabel verseRef @ ''. Group by theme.''"
| "analysisPrompt verseRef HistoricalContext =
     ''Explain the historical and cultural context of '' @ verseLabel verseRef @ ''.''"
| "analysisPrompt verseRef Interlinear =
     ''Provide a detailed interlinear breakdown for '' @ verseLabel verseRef @ ''.'' @ [CHR 0x0A]
       @ ''      '' @ [CHR 0x0A]
       @ ''Original Text (Greek/Hebrew):'' @ [CHR 0x0A]
       @ ''Include full verse text in original language.'' @ [CHR 0x0A, CHR 0x0A]
       @ ''English Transliteration:'' @ [CHR 0x0A]
       @ ''Clear transliteration.'' @ [CHR 0x0A, CHR 0x0A]
       @ ''Word-by-Word Analysis:'' @ [CHR 0x0A]
       @ ''List each key word with transliteration and a simple definition.''"

definition getVerseAnalysis ::
  "gateway \<Rightarrow> env \<Rightarrow> VerseReference \<Rightarrow> analysisType \<Rightarrow> (aiError + string) \<times> gateway \<times> request list" where
  "getVerseAnalysis st e verseRef t =
     (case verseCache st (cacheKey verseRef t) of
        Some cached \<Rightarrow> (Inr cached, st, [])
      | None \<Rightarrow>
          (case safeGenerate st e ''gemini-2.5-flash-lite'' (analysisPrompt verseRef t) of
             (Inl err, st1, sent) \<Rightarrow> (Inl err, st1, sent)
           | (Inr txt, st1, sent) \<Rightarrow>
               (Inr txt, st1\<lparr>verseCache := (verseCache st1)(cacheKey verseRef t \<mapsto> txt)\<rparr>, sent)))"

definition searchBibleByKeyword :: "gateway \<Rightarrow> env \<Rightarrow> string \<Rightarrow> string \<times> gateway \<times> request list" where
  "searchBibleByKeyword st e keyword =
     (let prompt = ''Search the Bible for verses related to '' @ [CHR 0x22] @ keyword @ [CHR 0x22]
                     @ ''. '' @ [CHR 0x0A] @ ''Return ONLY a list like: John 3:16, Romans 8:28.''
      in case safeGenerate st e ''gemini-2.5-flash-lite'' prompt of
           (Inr t, st1, sent) \<Rightarrow> (t, st1, sent)
         | (Inl err, st1, sent) \<Rightarrow> ([], st1, sent))"


section \<open>Notions used in the statements and proofs\<close>

text \<open>
  The book names of the table of abbreviations, and what it means for the imported table
  \<open>BIBLE_META_WITH_VERSE_COUNTS\<close> to list exactly these names, in this order.
\<close>

definition bookNames :: "string list" where
  "bookNames = map fst bookNameToAbbreviation"

definition canonicalNames :: "BookVerseCounts list \<Rightarrow> bool" where
  "canonicalNames table = (map BookVerseCounts.name table = bookNames)"

text \<open>
  The keys that \<open>abbreviationToBookName\<close> is written at, in the order of the writes, each
  with the name written.
\<close>

definition abbreviationKeys :: "(string \<times> string) list" where
  "abbreviationKeys =
     concat (map (\<lambda>(name, abbr). [(removeWhitespace (toLowerCase abbr), name),
                                    (toLowerCase abbr, name)]) bookNameToAbbreviation)"

text \<open>
  The shape of a query that can resolve: a digit, a letter or a white-space character, and
  then letters and white space only.
\<close>

definition bookShape :: "string \<Rightarrow> bool" where
  "bookShape s =
     (case s of
        [] \<Rightarrow> True
      | c # cs \<Rightarrow> (isDigit c \<or> isLetter c \<or> isSpace c)
                   \<and> list_all (\<lambda>x. isLetter x \<or> isSpace x) cs)"

text \<open>
  The numbers of a reference are integers that a JavaScript number holds exactly, so that
  the reference string and the address of the request are the ones the code builds.
\<close>

definition exactReference :: "ParsedReference \<Rightarrow> bool" where
  "exactReference r \<longleftrightarrow>
     exactInteger (ParsedReference.chapter' r) \<and> exactInteger (startVerse r) \<and>
     (case endVerse r of None \<Rightarrow> True | Some w \<Rightarrow> exactInteger w)"

text \<open>
  A request that is answered with a success status and a body that parses; every other
  request rejects.
\<close>

definition answered :: "http \<Rightarrow> bool" where
  "answered h =
     (case h of
        NetworkFailure m \<Rightarrow> False
      | Response status body \<Rightarrow> 200 \<le> status \<and> status \<le> 299 \<and> body \<noteq> None)"

text \<open>
  The clock readings of a call and the cooldown timestamp are integers that the code
  computes with exactly: each of them, the difference from which the remaining seconds are
  computed, and the timestamp that a failure writes. \<open>Date.now()\<close> returns an integer of
  magnitude at most \<open>8640000000000000\<close>, and \<open>globalCooldownUntil\<close> is 0 or a reading plus
  60000: the condition holds for all readings that are not negative.
\<close>

definition exactClock :: "gateway \<Rightarrow> env \<Rightarrow> bool" where
  "exactClock st e \<longleftrightarrow>
     exactInteger (globalCooldownUntil st) \<and> exactInteger (now e) \<and>
     exactInteger (nowAgain e) \<and> exactInteger (failedAt e) \<and>
     exactInteger (globalCooldownUntil st - nowAgain e) \<and>
     exactInteger (failedAt e + 60000)"

definition dateReading :: "int \<Rightarrow> bool" where
  "dateReading t \<longleftrightarrow> 0 \<le> t \<and> t \<le> 8640000000000000"


section \<open>Sample data\<close>

text \<open>
  Concrete inputs on which the theorems below are instantiated: a chapter whose KJV
  response has five verses and whose web response lacks verse 3, a Telugu corpus with one
  verse, and a table with the book names of \<open>bookNameToAbbreviation\<close> (its verse counts
  are placeholders, no statement reads them).
\<close>

definition sampleVerse :: "int \<Rightarrow> string \<Rightarrow> BibleApiResponseVerse" where
  "sampleVerse n t =
     \<lparr>book_id = ''JHN'', book_name = ''John'', BibleApiResponseVerse.chapter' = 3,
      BibleApiResponseVerse.verse = n, BibleApiResponseVerse.text' = t\<rparr>"

definition sampleResponse :: "BibleApiResponseVerse list \<Rightarrow> BibleApiResponse" where
  "sampleResponse vs =
     \<lparr>reference = ''John 3'', verses = Some vs, translation_id = ''id'',
      translation_name = ''name'', translation_note = ''note''\<rparr>"

definition sampleKjv :: "BibleApiResponseVerse list" where
  "sampleKjv =
     [sampleVerse 1 ''k one'', sampleVerse 2 ''k two'',
      sampleVerse 3 ([CHR 0x0A] @ ''k'' @ [CHR 0x0A] @ ''three ''),
      sampleVerse 4 ''k four'', sampleVerse 5 ''k five'']"

definition sampleWeb :: "BibleApiResponseVerse list" where
  "sampleWeb =
     [sampleVerse 1 ''w one'', sampleVerse 2 ''w two'', sampleVerse 4 ''w four'',
      sampleVerse 5 ''w five'']"

definition sampleReference :: ParsedReference where
  "sampleReference =
     \<lparr>ParsedReference.book = ''John'', ParsedReference.chapter' = 3, startVerse = 1,
      endVerse = Some 5\<rparr>"

definition emptyReference :: ParsedReference where
  "emptyReference =
     \<lparr>ParsedReference.book = ''John'', ParsedReference.chapter' = 99, startVerse = 1,
      endVerse = None\<rparr>"

definition sampleNet :: "string \<Rightarrow> http" where
  "sampleNet url =
     (if url = chapterUrl ''John'' 3 ''web'' \<or> url = referenceUrl sampleReference ''web''
      then Response 200 (Some (sampleResponse sampleWeb))
      else if url = chapterUrl ''John'' 3 ''kjv'' \<or> url = referenceUrl sampleReference ''kjv''
      then Response 200 (Some (sampleResponse sampleKjv))
      else Response 200 (Some (sampleResponse [])))"

text \<open>The same service when the web request of the reference \<open>John 99:1\<close> is answered 404.\<close>

definition webDownNet :: "string \<Rightarrow> http" where
  "webDownNet url =
     (if url = referenceUrl emptyReference ''web'' then Response 404 None else sampleNet url)"

definition sampleText :: "string \<Rightarrow> string \<Rightarrow> string option \<Rightarrow> VerseText" where
  "sampleText k w t = \<lparr>KJV = k, ESV = w, NIV = w, BSI_TELUGU = t\<rparr>"

definition sampleTexts :: "(int \<times> VerseText) list" where
  "sampleTexts =
     [(1, sampleText ''k one'' ''w one'' (Some ('' t'' @ [CHR 0x0A] @ ''one ''))),
      (2, sampleText ''k two'' ''w two'' None),
      (3, sampleText ''k three'' ''k three'' None),
      (4, sampleText ''k four'' ''w four'' None),
      (5, sampleText ''k five'' ''w five'' None)]"

definition sampleMerged :: "Verse list" where
  "sampleMerged = map (\<lambda>(n, t). \<lparr>Verse.verse = n, Verse.text' = t\<rparr>) sampleTexts"

definition sampleMergedFull :: "FullVerse list" where
  "sampleMergedFull =
     map (\<lambda>(n, t). \<lparr>Verse.verse = n, Verse.text' = t, FullVerse.book = ''John'',
                     FullVerse.chapter' = 3\<rparr>) sampleTexts"

definition sampleTelugu :: TeluguBible where
  "sampleTelugu =
     \<lparr>Book = [\<lparr>Chapter = [\<lparr>TeluguChapter.Verse = []\<rparr>, \<lparr>TeluguChapter.Verse = []\<rparr>,
                            \<lparr>TeluguChapter.Verse =
                               [\<lparr>Verseid = ''1'',
                                 TeluguVerse.Verse = '' t'' @ [CHR 0x0A] @ ''one ''\<rparr>]\<rparr>]\<rparr>]\<rparr>"

definition johnTable :: "BookVerseCounts list" where
  "johnTable = [\<lparr>BookVerseCounts.name = ''John'', BookVerseCounts.chapters = [51, 25, 36]\<rparr>]"

definition sampleTable :: "BookVerseCounts list" where
  "sampleTable =
     map (\<lambda>(n, a). \<lparr>BookVerseCounts.name = n, BookVerseCounts.chapters = [1]\<rparr>)
       bookNameToAbbreviation"

definition sampleGateway :: gateway where
  "sampleGateway =
     \<lparr>ai = False, chatInstances = Map.empty, verseCache = Map.empty, globalCooldownUntil = 0\<rparr>"

definition coolingGateway :: gateway where
  "coolingGateway =
     \<lparr>ai = True, chatInstances = Map.empty, verseCache = Map.empty,
      globalCooldownUntil = 61000\<rparr>"

definition cachedGateway :: gateway where
  "cachedGateway =
     \<lparr>ai = True, chatInstances = Map.empty,
      verseCache = [''John-3-16-Historical Context'' \<mapsto> ''context''],
      globalCooldownUntil = 61000\<rparr>"

definition proChat :: Chat where
  "proChat =
     \<lparr>model = ''gemini-2.5-pro'',
      systemInstruction = ''You are an expert Bible scholar. Be precise, deep, and context-rich.'',
      config = []\<rparr>"

definition sampleEnv :: "int \<Rightarrow> reply \<Rightarrow> env" where
  "sampleEnv t r =
     \<lparr>now = t, nowAgain = t, failedAt = t + 1000, apiKey = Some ''key'', remote = (\<lambda>req. r)\<rparr>"

text \<open>A call during which the clock passes the end of the cooldown between the two readings.\<close>

definition tickingEnv :: env where
  "tickingEnv =
     \<lparr>now = 60999, nowAgain = 61000, failedAt = 62000, apiKey = Some ''key'',
      remote = (\<lambda>req. Text ''hello'')\<rparr>"

definition sampleVerseRef :: VerseReference where
  "sampleVerseRef =
     \<lparr>VerseReference.book = ''John'', VerseReference.chapter' = 3, VerseReference.verse = 16\<rparr>"


section \<open>Fetching and merging: what a successful fetch returns\<close>

lemma fetchJson_Inr:
  "fetchJson net url msg = Inr r \<longleftrightarrow> (\<exists>s. net url = Response s (Some r) \<and> 200 \<le> s \<and> s \<le> 299)"
  by (auto simp: fetchJson_def split: http.splits option.splits if_splits)

lemma promiseAll2_Inr:
  "promiseAll2 a b = Inr (x, y) \<longleftrightarrow> a = Inr x \<and> b = Inr y"
  by (auto simp: promiseAll2_def split: sum.splits)

lemma promiseAll_Inr:
  "promiseAll ps = Inr xs \<Longrightarrow> ps = map Inr xs"
  by (induction ps arbitrary: xs) (auto split: sum.splits)

lemma fetchChapter_ok:
  assumes "net (chapterUrl b c ''web'') = Response sw (Some webData)" "200 \<le> sw" "sw \<le> 299"
      and "net (chapterUrl b c ''kjv'') = Response sk (Some kjvData)" "200 \<le> sk" "sk \<le> 299"
      and "verses webData = Some ws" "verses kjvData = Some ks" "ks \<noteq> []"
  shows "fetchChapter net table telugu b c = Inr (map (mergeChapterVerse table telugu b c ws) ks)"
  using assms by (cases ks) (simp_all add: fetchChapter_def fetchJson_def promiseAll2_def)

lemma fetchChapter_Inr:
  assumes "fetchChapter net table telugu b c = Inr vs"
  shows "\<exists>sw webData sk kjvData ws ks.
     net (chapterUrl b c ''web'') = Response sw (Some webData) \<and> 
     net (chapterUrl b c ''kjv'') = Response sk (Some kjvData) \<and>
     verses webData = Some ws \<and> verses kjvData = Some ks \<and> ks \<noteq> [] \<and>
     vs = map (mergeChapterVerse table telugu b c ws) ks"
  using assms unfolding fetchChapter_def Let_def
  by (auto simp: fetchJson_Inr promiseAll2_Inr split: sum.splits option.splits list.splits prod.splits)

lemma fetchReference_ok:
  assumes "net (referenceUrl r ''web'') = Response sw (Some webData)" "200 \<le> sw" "sw \<le> 299"
      and "net (referenceUrl r ''kjv'') = Response sk (Some kjvData)" "200 \<le> sk" "sk \<le> 299"
      and "verses webData = Some ws" "verses kjvData = Some ks"
  shows "fetchReference net table telugu r = Inr (map (mergeReferenceVerse table telugu r ws) ks)"
  using assms by (cases ks) (simp_all add: fetchReference_def fetchJson_def promiseAll2_def)

lemma fetchReference_Inr:
  assumes "fetchReference net table telugu r = Inr vs"
  shows "vs = [] \<or> (\<exists>sw webData sk kjvData ws ks.
     net (referenceUrl r ''web'') = Response sw (Some webData) \<and> 
     net (referenceUrl r ''kjv'') = Response sk (Some kjvData) \<and>
     verses webData = Some ws \<and> verses kjvData = Some ks \<and>
     vs = map (mergeReferenceVerse table telugu r ws) ks)"
  using assms unfolding fetchReference_def Let_def
  by (auto simp: fetchJson_Inr promiseAll2_Inr split: sum.splits option.splits list.splits prod.splits)

lemma fetchVersesByReferences_Inr:
  assumes "fetchVersesByReferences net table telugu refs = Inr fvs"
  shows "\<exists>results. map (fetchReference net table telugu) refs = map Inr results \<and> fvs = concat results"
  using assms unfolding fetchVersesByReferences_def
  by (auto split: sum.splits dest: promiseAll_Inr)

lemma fetchVersesByReferences_mem:
  assumes "fetchVersesByReferences net table telugu refs = Inr fvs" "v \<in> set fvs"
  shows "\<exists>r\<in>set refs. \<exists>vs. fetchReference net table telugu r = Inr vs \<and> v \<in> set vs"
proof -
  from fetchVersesByReferences_Inr[OF assms(1)] obtain results where
    m: "map (fetchReference net table telugu) refs = map Inr results" and c: "fvs = concat results"
    by blast
  from assms(2) c obtain vs where vs: "vs \<in> set results" "v \<in> set vs" by auto
  then obtain i where i: "i < length results" "results ! i = vs" by (auto simp: in_set_conv_nth)
  from m have len: "length refs = length results" by (metis length_map)
  from m i len have "fetchReference net table telugu (refs ! i) = Inr vs"
    by (metis nth_map)
  with i len vs show ?thesis by (metis nth_mem)
qed

lemma mergeChapterVerse_fields:
  "Verse.verse (mergeChapterVerse table telugu b c ws k) = BibleApiResponseVerse.verse k"
  "KJV (Verse.text' (mergeChapterVerse table telugu b c ws k)) = kjvText k"
  "ESV (Verse.text' (mergeChapterVerse table telugu b c ws k)) = webText ws k"
  "NIV (Verse.text' (mergeChapterVerse table telugu b c ws k)) = webText ws k"
  "BSI_TELUGU (Verse.text' (mergeChapterVerse table telugu b c ws k)) =
     (case getTeluguVerse table telugu b c (BibleApiResponseVerse.verse k) of
        None \<Rightarrow> None | Some t \<Rightarrow> if t = [] then None else Some t)"
  by (simp_all add: mergeChapterVerse_def mergedText_def)

lemma mergeReferenceVerse_fields:
  "Verse.verse (mergeReferenceVerse table telugu r ws k) = BibleApiResponseVerse.verse k"
  "KJV (Verse.text' (mergeReferenceVerse table telugu r ws k)) = kjvText k"
  "ESV (Verse.text' (mergeReferenceVerse table telugu r ws k)) = webText ws k"
  "NIV (Verse.text' (mergeReferenceVerse table telugu r ws k)) = webText ws k"
  "BSI_TELUGU (Verse.text' (mergeReferenceVerse table telugu r ws k)) =
     (case getTeluguVerse table telugu (ParsedReference.book r) (ParsedReference.chapter' r)
             (BibleApiResponseVerse.verse k) of
        None \<Rightarrow> None | Some t \<Rightarrow> if t = [] then None else Some t)"
  "FullVerse.book (mergeReferenceVerse table telugu r ws k) = ParsedReference.book r"
  "FullVerse.chapter' (mergeReferenceVerse table telugu r ws k) = ParsedReference.chapter' r"
  by (simp_all add: mergeReferenceVerse_def mergedText_def)

lemma webText_find:
  "webText ws k = (case find (\<lambda>w. BibleApiResponseVerse.verse w = BibleApiResponseVerse.verse k) ws of
       Some w \<Rightarrow> trim (replaceNewlines (BibleApiResponseVerse.text' w)) | None \<Rightarrow> kjvText k)"
  by (simp add: webText_def)


subsection \<open>The sample chapter\<close>

lemma sample_web_chapter:
  "sampleNet (chapterUrl ''John'' 3 ''web'') = Response 200 (Some (sampleResponse sampleWeb))"
  by (simp add: sampleNet_def)

lemma sample_kjv_chapter:
  "sampleNet (chapterUrl ''John'' 3 ''kjv'') = Response 200 (Some (sampleResponse sampleKjv))"
  by (simp add: sampleNet_def chapterUrl_def referenceUrl_def)

lemma sample_web_reference:
  "sampleNet (referenceUrl sampleReference ''web'') = Response 200 (Some (sampleResponse sampleWeb))"
  by (simp add: sampleNet_def)

lemma sample_kjv_reference:
  "sampleNet (referenceUrl sampleReference ''kjv'') = Response 200 (Some (sampleResponse sampleKjv))"
  by (simp add: sampleNet_def chapterUrl_def referenceUrl_def)

lemma sample_empty_reference:
  "sampleNet (referenceUrl emptyReference version) = Response 200 (Some (sampleResponse []))"
  by code_simp

lemma sample_fetchChapter:
  "fetchChapter sampleNet johnTable sampleTelugu ''John'' 3 = Inr sampleMerged"
  by code_simp

lemma sample_fetchVersesByReferences:
  "fetchVersesByReferences sampleNet johnTable sampleTelugu [emptyReference, sampleReference]
     = Inr sampleMergedFull"
  by code_simp


section \<open>The ESV and NIV slots\<close>

text \<open>
  C10. Every merged verse that \<open>fetchChapter\<close> or \<open>fetchVersesByReferences\<close> returns has
  the same string in its ESV and NIV fields: the text of the first verse of the web
  response with the same verse number, line feeds replaced and trimmed, or the KJV text of
  the merged verse when the web response has no verse with that number.
\<close>

theorem esv_niv_identical:
  "(fetchChapter net table telugu b c = Inr vs \<longrightarrow>
      (\<exists>sw webData ws. net (chapterUrl b c ''web'') = Response sw (Some webData) \<and>
         verses webData = Some ws \<and>
         (\<forall>v\<in>set vs. ESV (Verse.text' v) = NIV (Verse.text' v) \<and>
            NIV (Verse.text' v) =
              (case find (\<lambda>w. BibleApiResponseVerse.verse w = Verse.verse v) ws of
                 Some w \<Rightarrow> trim (replaceNewlines (BibleApiResponseVerse.text' w))
               | None \<Rightarrow> KJV (Verse.text' v))))) \<and>
   (fetchVersesByReferences net table telugu refs = Inr fvs \<longrightarrow>
      (\<forall>v\<in>set fvs. ESV (Verse.text' v) = NIV (Verse.text' v) \<and>
         (\<exists>r\<in>set refs. \<exists>sw webData ws.
            net (referenceUrl r ''web'') = Response sw (Some webData) \<and>
            verses webData = Some ws \<and>
            NIV (Verse.text' v) =
              (case find (\<lambda>w. BibleApiResponseVerse.verse w = Verse.verse v) ws of
                 Some w \<Rightarrow> trim (replaceNewlines (BibleApiResponseVerse.text' w))
               | None \<Rightarrow> KJV (Verse.text' v)))))"
proof (intro conjI impI)
  assume "fetchChapter net table telugu b c = Inr vs"
  from fetchChapter_Inr[OF this] obtain sw webData ws ks where
    "net (chapterUrl b c ''web'') = Response sw (Some webData)" "verses webData = Some ws"
    "vs = map (mergeChapterVerse table telugu b c ws) ks"
    by blast
  then show "\<exists>sw webData ws. net (chapterUrl b c ''web'') = Response sw (Some webData) \<and>
         verses webData = Some ws \<and>
         (\<forall>v\<in>set vs. ESV (Verse.text' v) = NIV (Verse.text' v) \<and>
            NIV (Verse.text' v) =
              (case find (\<lambda>w. BibleApiResponseVerse.verse w = Verse.verse v) ws of
                 Some w \<Rightarrow> trim (replaceNewlines (BibleApiResponseVerse.text' w))
               | None \<Rightarrow> KJV (Verse.text' v)))"
    by (auto simp: mergeChapterVerse_fields mergeReferenceVerse_fields webText_find split: option.splits)
next
  assume a: "fetchVersesByReferences net table telugu refs = Inr fvs"
  show "\<forall>v\<in>set fvs. ESV (Verse.text' v) = NIV (Verse.text' v) \<and>
         (\<exists>r\<in>set refs. \<exists>sw webData ws.
            net (referenceUrl r ''web'') = Response sw (Some webData) \<and>
            verses webData = Some ws \<and>
            NIV (Verse.text' v) =
              (case find (\<lambda>w. BibleApiResponseVerse.verse w = Verse.verse v) ws of
                 Some w \<Rightarrow> trim (replaceNewlines (BibleApiResponseVerse.text' w))
               | None \<Rightarrow> KJV (Verse.text' v)))"
  proof
    fix v assume "v \<in> set fvs"
    from fetchVersesByReferences_mem[OF a this] obtain r vs where
      r: "r \<in> set refs" "fetchReference net table telugu r = Inr vs" "v \<in> set vs" by blast
    from fetchReference_Inr[OF r(2)] r(3) obtain sw webData ws ks where
      w: "net (referenceUrl r ''web'') = Response sw (Some webData)" "verses webData = Some ws"
      and vs: "vs = map (mergeReferenceVerse table telugu r ws) ks"
      by fastforce
    from r(3) vs have "ESV (Verse.text' v) = NIV (Verse.text' v) \<and> NIV (Verse.text' v) =
              (case find (\<lambda>w. BibleApiResponseVerse.verse w = Verse.verse v) ws of
                 Some w \<Rightarrow> trim (replaceNewlines (BibleApiResponseVerse.text' w))
               | None \<Rightarrow> KJV (Verse.text' v))"
      by (auto simp: mergeChapterVerse_fields mergeReferenceVerse_fields webText_find split: option.splits)
    with r(1) w show "ESV (Verse.text' v) = NIV (Verse.text' v) \<and>
         (\<exists>r\<in>set refs. \<exists>sw webData ws.
            net (referenceUrl r ''web'') = Response sw (Some webData) \<and>
            verses webData = Some ws \<and>
            NIV (Verse.text' v) =
              (case find (\<lambda>w. BibleApiResponseVerse.verse w = Verse.verse v) ws of
                 Some w \<Rightarrow> trim (replaceNewlines (BibleApiResponseVerse.text' w))
               | None \<Rightarrow> KJV (Verse.text' v)))"
      by blast
  qed
qed


theorem esv_niv_identical_witness:
  "fetchChapter sampleNet johnTable sampleTelugu ''John'' 3 = Inr sampleMerged \<and>
   fetchVersesByReferences sampleNet johnTable sampleTelugu [emptyReference, sampleReference]
     = Inr sampleMergedFull \<and>
   list_all (\<lambda>v. ESV (Verse.text' v) = NIV (Verse.text' v)) sampleMerged \<and>
   list_all (\<lambda>v. ESV (Verse.text' v) = NIV (Verse.text' v)) sampleMergedFull"
proof -
  note t = esv_niv_identical [of sampleNet johnTable sampleTelugu "''John''" 3 sampleMerged
      "[emptyReference, sampleReference]" sampleMergedFull]
  from t sample_fetchChapter
  have a: "\<forall>v\<in>set sampleMerged. ESV (Verse.text' v) = NIV (Verse.text' v)"
    by blast
  from t sample_fetchVersesByReferences
  have b: "\<forall>v\<in>set sampleMergedFull. ESV (Verse.text' v) = NIV (Verse.text' v)"
    by blast
  from a b sample_fetchChapter sample_fetchVersesByReferences show ?thesis
    by (simp add: list_all_iff)
qed



section \<open>The merge follows the primary source\<close>

lemma webText_absent:
  "BibleApiResponseVerse.verse k \<notin> BibleApiResponseVerse.verse ` set ws \<Longrightarrow> webText ws k = kjvText k"
proof -
  assume "BibleApiResponseVerse.verse k \<notin> BibleApiResponseVerse.verse ` set ws"
  then have "find (\<lambda>v. BibleApiResponseVerse.verse v = BibleApiResponseVerse.verse k) ws = None"
    unfolding find_None_iff by (metis image_eqI)
  then show ?thesis by (simp add: webText_def)
qed

lemma sample_verses: "verses (sampleResponse vs) = Some vs"
  by (simp add: sampleResponse_def)

lemma sample_kjv_text3: "kjvText (sampleKjv ! 2) = ''k three''"
  by code_simp

lemma sample_missing3:
  "BibleApiResponseVerse.verse (sampleKjv ! 2) \<notin> BibleApiResponseVerse.verse ` set sampleWeb"
  by (simp add: sampleKjv_def sampleWeb_def sampleVerse_def)

text \<open>
  C6. When both requests succeed and the KJV response has verses, \<open>fetchChapter\<close> returns
  one merged verse per verse of the KJV response, in the order of the KJV response, with
  the KJV text in the KJV slot; where the web response has no verse with the number of a
  KJV verse, the ESV and NIV slots of that merged verse hold the KJV text. The same holds
  for each reference of \<open>fetchVersesByReferences\<close>, whose result is the concatenation of
  the results of its references in the order of the references.
\<close>

theorem merge_follows_primary:
  "(net (chapterUrl b c ''web'') = Response sw (Some webData) \<and> 200 \<le> sw \<and> sw \<le> 299 \<and>
    verses webData = Some ws \<and>
    net (chapterUrl b c ''kjv'') = Response sk (Some kjvData) \<and> 200 \<le> sk \<and> sk \<le> 299 \<and>
    verses kjvData = Some ks \<and> ks \<noteq> [] \<longrightarrow>
      (\<exists>vs. fetchChapter net table telugu b c = Inr vs \<and>
         map Verse.verse vs = map BibleApiResponseVerse.verse ks \<and>
         (\<forall>i<length ks.
            KJV (Verse.text' (vs ! i)) = kjvText (ks ! i) \<and>
            (BibleApiResponseVerse.verse (ks ! i) \<notin> BibleApiResponseVerse.verse ` set ws \<longrightarrow>
               ESV (Verse.text' (vs ! i)) = kjvText (ks ! i) \<and>
               NIV (Verse.text' (vs ! i)) = kjvText (ks ! i))))) \<and>
   (net (referenceUrl r ''web'') = Response sw' (Some webData') \<and> 200 \<le> sw' \<and> sw' \<le> 299 \<and>
    verses webData' = Some ws' \<and>
    net (referenceUrl r ''kjv'') = Response sk' (Some kjvData') \<and> 200 \<le> sk' \<and> sk' \<le> 299 \<and>
    verses kjvData' = Some ks' \<longrightarrow>
      (\<exists>vs. fetchReference net table telugu r = Inr vs \<and>
         map Verse.verse vs = map BibleApiResponseVerse.verse ks' \<and>
         (\<forall>i<length ks'.
            KJV (Verse.text' (vs ! i)) = kjvText (ks' ! i) \<and>
            (BibleApiResponseVerse.verse (ks' ! i) \<notin> BibleApiResponseVerse.verse ` set ws' \<longrightarrow>
               ESV (Verse.text' (vs ! i)) = kjvText (ks' ! i) \<and>
               NIV (Verse.text' (vs ! i)) = kjvText (ks' ! i))))) \<and>
   (fetchVersesByReferences net table telugu refs = Inr fvs \<longrightarrow>
      (\<exists>results. map (fetchReference net table telugu) refs = map Inr results \<and>
         fvs = concat results))"
proof (intro conjI impI)
  assume a: "net (chapterUrl b c ''web'') = Response sw (Some webData) \<and> 200 \<le> sw \<and> sw \<le> 299 \<and>
    verses webData = Some ws \<and>
    net (chapterUrl b c ''kjv'') = Response sk (Some kjvData) \<and> 200 \<le> sk \<and> sk \<le> 299 \<and>
    verses kjvData = Some ks \<and> ks \<noteq> []"
  then have "fetchChapter net table telugu b c = Inr (map (mergeChapterVerse table telugu b c ws) ks)"
    by (intro fetchChapter_ok) auto
  then show "\<exists>vs. fetchChapter net table telugu b c = Inr vs \<and>
         map Verse.verse vs = map BibleApiResponseVerse.verse ks \<and>
         (\<forall>i<length ks.
            KJV (Verse.text' (vs ! i)) = kjvText (ks ! i) \<and>
            (BibleApiResponseVerse.verse (ks ! i) \<notin> BibleApiResponseVerse.verse ` set ws \<longrightarrow>
               ESV (Verse.text' (vs ! i)) = kjvText (ks ! i) \<and>
               NIV (Verse.text' (vs ! i)) = kjvText (ks ! i)))"
    by (simp add: mergeChapterVerse_fields webText_absent comp_def)
next
  assume a: "net (referenceUrl r ''web'') = Response sw' (Some webData') \<and> 200 \<le> sw' \<and> sw' \<le> 299 \<and>
    verses webData' = Some ws' \<and>
    net (referenceUrl r ''kjv'') = Response sk' (Some kjvData') \<and> 200 \<le> sk' \<and> sk' \<le> 299 \<and>
    verses kjvData' = Some ks'"
  then have "fetchReference net table telugu r = Inr (map (mergeReferenceVerse table telugu r ws') ks')"
    by (intro fetchReference_ok) auto
  then show "\<exists>vs. fetchReference net table telugu r = Inr vs \<and>
         map Verse.verse vs = map BibleApiResponseVerse.verse ks' \<and>
         (\<forall>i<length ks'.
            KJV (Verse.text' (vs ! i)) = kjvText (ks' ! i) \<and>
            (BibleApiResponseVerse.verse (ks' ! i) \<notin> BibleApiResponseVerse.verse ` set ws' \<longrightarrow>
               ESV (Verse.text' (vs ! i)) = kjvText (ks' ! i) \<and>
               NIV (Verse.text' (vs ! i)) = kjvText (ks' ! i)))"
    by (simp add: mergeReferenceVerse_fields webText_absent comp_def)
next
  assume "fetchVersesByReferences net table telugu refs = Inr fvs"
  then show "\<exists>results. map (fetchReference net table telugu) refs = map Inr results \<and>
         fvs = concat results"
    by (rule fetchVersesByReferences_Inr)
qed

theorem merge_follows_primary_witness:
  "fetchChapter sampleNet johnTable sampleTelugu ''John'' 3 = Inr sampleMerged \<and>
   length sampleKjv = 5 \<and> length sampleMerged = 5 \<and>
   map Verse.verse sampleMerged = map BibleApiResponseVerse.verse sampleKjv \<and>
   ESV (Verse.text' (sampleMerged ! 2)) = ''k three'' \<and>
   NIV (Verse.text' (sampleMerged ! 2)) = ''k three'' \<and>
   KJV (Verse.text' (sampleMerged ! 2)) = ''k three''"
proof -
  note t = merge_follows_primary [of sampleNet "''John''" 3 200 "sampleResponse sampleWeb"
      sampleWeb 200 "sampleResponse sampleKjv" sampleKjv johnTable sampleTelugu
      sampleReference 200 "sampleResponse sampleWeb" sampleWeb 200 "sampleResponse sampleKjv"
      sampleKjv "[emptyReference, sampleReference]" sampleMergedFull]
  have len: "length sampleKjv = 5" "sampleKjv \<noteq> []" by (simp_all add: sampleKjv_def)
  from t sample_web_chapter sample_kjv_chapter sample_verses len sample_fetchChapter
  have m: "map Verse.verse sampleMerged = map BibleApiResponseVerse.verse sampleKjv"
    and all: "\<forall>i<length sampleKjv.
            KJV (Verse.text' (sampleMerged ! i)) = kjvText (sampleKjv ! i) \<and>
            (BibleApiResponseVerse.verse (sampleKjv ! i) \<notin> BibleApiResponseVerse.verse ` set sampleWeb \<longrightarrow>
               ESV (Verse.text' (sampleMerged ! i)) = kjvText (sampleKjv ! i) \<and>
               NIV (Verse.text' (sampleMerged ! i)) = kjvText (sampleKjv ! i))"
    by auto
  from all [rule_format, of 2] len sample_missing3 sample_kjv_text3
  have "KJV (Verse.text' (sampleMerged ! 2)) = ''k three'' \<and>
        ESV (Verse.text' (sampleMerged ! 2)) = ''k three'' \<and>
        NIV (Verse.text' (sampleMerged ! 2)) = ''k three''"
    by simp
  moreover have "length sampleMerged = 5"
    by (simp add: sampleMerged_def sampleTexts_def)
  ultimately show ?thesis using m len sample_fetchChapter by simp
qed



section \<open>A primary source without verses\<close>

lemma promiseAll_skip_concat:
  "(case promiseAll (ps @ Inr [] # qs) of Inl e \<Rightarrow> Inl e | Inr xs \<Rightarrow> Inr (concat xs)) =
   (case promiseAll (ps @ qs) of Inl e \<Rightarrow> Inl e | Inr xs \<Rightarrow> Inr (concat xs))"
  by (induction ps) (auto split: sum.splits)

lemma fetchChapter_no_kjv:
  assumes "net (chapterUrl b c ''kjv'') = Response sk (Some kjvData)"
      and "verses kjvData = None \<or> verses kjvData = Some []"
  shows "\<exists>e. fetchChapter net table telugu b c = Inl e"
  using assms unfolding fetchChapter_def Let_def fetchJson_def promiseAll2_def
  by (auto split: sum.splits http.splits option.splits)

lemma fetchChapter_no_kjv_error:
  assumes "net (chapterUrl b c ''kjv'') = Response sk (Some kjvData)" "200 \<le> sk" "sk \<le> 299"
      and "verses kjvData = None \<or> verses kjvData = Some []"
      and "net (chapterUrl b c ''web'') = Response sw (Some webData)" "200 \<le> sw" "sw \<le> 299"
  shows "fetchChapter net table telugu b c =
           Inl (Error (''No KJV verses found for '' @ b @ '' '' @ numberToString c))"
  using assms unfolding fetchChapter_def Let_def fetchJson_def promiseAll2_def
  by auto

lemma fetchReference_no_kjv:
  assumes "net (referenceUrl r ''kjv'') = Response sk (Some kjvData)" "200 \<le> sk" "sk \<le> 299"
      and "verses kjvData = None \<or> verses kjvData = Some []"
      and "net (referenceUrl r ''web'') = Response sw (Some webData)" "200 \<le> sw" "sw \<le> 299"
  shows "fetchReference net table telugu r = Inr []"
  using assms unfolding fetchReference_def Let_def fetchJson_def promiseAll2_def
  by auto

lemma fetchVersesByReferences_skip:
  assumes "fetchReference net table telugu r = Inr []"
  shows "fetchVersesByReferences net table telugu (rs1 @ r # rs2) =
         fetchVersesByReferences net table telugu (rs1 @ rs2)"
  using promiseAll_skip_concat [of "map (fetchReference net table telugu) rs1"
      "map (fetchReference net table telugu) rs2"] assms
  by (simp add: fetchVersesByReferences_def)

lemma sample_other_chapter:
  "sampleNet (chapterUrl ''John'' 99 version) = Response 200 (Some (sampleResponse []))"
  by code_simp

lemma promiseAll_fail: "\<exists>e. promiseAll (ps @ Inl x # qs) = Inl e"
  by (induction ps) (auto split: sum.splits)

lemma fetchReference_web_down:
  assumes "\<not> answered (net (referenceUrl r ''web''))"
  shows "\<exists>e. fetchReference net table telugu r = Inl e"
  using assms unfolding fetchReference_def Let_def fetchJson_def promiseAll2_def answered_def
  by (auto split: http.splits option.splits)

lemma fetchVersesByReferences_fail:
  assumes "fetchReference net table telugu r = Inl x"
  shows "\<exists>e. fetchVersesByReferences net table telugu (rs1 @ r # rs2) = Inl e"
proof -
  from promiseAll_fail [of "map (fetchReference net table telugu) rs1" x
      "map (fetchReference net table telugu) rs2"]
  obtain e where "promiseAll (map (fetchReference net table telugu) (rs1 @ r # rs2)) = Inl e"
    using assms by auto
  then show ?thesis by (simp add: fetchVersesByReferences_def)
qed

lemma sample_web_down:
  "webDownNet (referenceUrl emptyReference ''kjv'') = Response 200 (Some (sampleResponse []))"
  "\<not> answered (webDownNet (referenceUrl emptyReference ''web''))"
proof -
  have "referenceUrl emptyReference ''kjv'' \<noteq> referenceUrl emptyReference ''web''"
    by (simp add: referenceUrl_def)
  then show "webDownNet (referenceUrl emptyReference ''kjv'') = Response 200 (Some (sampleResponse []))"
    by (simp add: webDownNet_def sample_empty_reference)
  show "\<not> answered (webDownNet (referenceUrl emptyReference ''web''))"
    by (simp add: webDownNet_def answered_def)
qed

text \<open>
  C4, as stated: a merge whose KJV response has no verses fails, in \<open>fetchChapter\<close> and for
  each reference of \<open>fetchVersesByReferences\<close>. The second part does not hold: for a
  reference whose KJV response has no verses the multi-reference fetch logs a warning and
  returns the empty list, without an error.
\<close>

theorem zero_kjv_verses_reference_silent:
  "sampleNet (referenceUrl emptyReference ''kjv'') = Response 200 (Some (sampleResponse [])) \<and>
   verses (sampleResponse []) = Some [] \<and>
   fetchVersesByReferences sampleNet johnTable sampleTelugu [emptyReference] = Inr []"
  by (simp add: sample_empty_reference sample_verses fetchVersesByReferences_def
      fetchReference_def fetchJson_def promiseAll2_def)


text \<open>
  C4, amended, for a chapter and references whose numbers are exact integers. When the KJV
  response has no verses (\<open>verses\<close> missing or empty), \<open>fetchChapter\<close> fails, and when both
  requests were answered with a success status the error is
  \<open>No KJV verses found for <book> <chapter>\<close>. In \<open>fetchVersesByReferences\<close> the outcome
  for such a reference depends on its web request, which is awaited before the verses are
  counted. When the web request is answered with a success status, the reference
  contributes no verses and raises nothing: the result is that of the fetch without this
  reference. When the web request is not answered so, the reference fails, and with it the
  whole fetch, whatever the other references are.
\<close>

theorem zero_kjv_verses:
  "(exactInteger c \<and> net (chapterUrl b c ''kjv'') = Response sk (Some kjvData) \<and>
    (verses kjvData = None \<or> verses kjvData = Some []) \<longrightarrow>
      (\<exists>e. fetchChapter net table telugu b c = Inl e) \<and>
      (200 \<le> sk \<and> sk \<le> 299 \<and>
       net (chapterUrl b c ''web'') = Response sw (Some webData) \<and> 200 \<le> sw \<and> sw \<le> 299 \<longrightarrow>
         fetchChapter net table telugu b c =
           Inl (Error (''No KJV verses found for '' @ b @ '' '' @ numberToString c)))) \<and>
   (exactReference r \<and>
    net (referenceUrl r ''kjv'') = Response sk' (Some kjvData') \<and> 200 \<le> sk' \<and> sk' \<le> 299 \<and>
    (verses kjvData' = None \<or> verses kjvData' = Some []) \<longrightarrow>
      (net (referenceUrl r ''web'') = Response sw' (Some webData') \<and> 200 \<le> sw' \<and> sw' \<le> 299 \<longrightarrow>
         fetchReference net table telugu r = Inr [] \<and>
         (\<forall>rs1 rs2. fetchVersesByReferences net table telugu (rs1 @ r # rs2) =
                     fetchVersesByReferences net table telugu (rs1 @ rs2))) \<and>
      (\<not> answered (net (referenceUrl r ''web'')) \<longrightarrow>
         (\<exists>e. fetchReference net table telugu r = Inl e) \<and>
         (\<forall>rs1 rs2. \<exists>e. fetchVersesByReferences net table telugu (rs1 @ r # rs2) = Inl e)))"
proof (intro conjI impI allI)
  assume "exactInteger c \<and> net (chapterUrl b c ''kjv'') = Response sk (Some kjvData) \<and>
    (verses kjvData = None \<or> verses kjvData = Some [])"
  then show "\<exists>e. fetchChapter net table telugu b c = Inl e"
    using fetchChapter_no_kjv by blast
next
  assume "exactInteger c \<and> net (chapterUrl b c ''kjv'') = Response sk (Some kjvData) \<and>
    (verses kjvData = None \<or> verses kjvData = Some [])"
    and "200 \<le> sk \<and> sk \<le> 299 \<and>
       net (chapterUrl b c ''web'') = Response sw (Some webData) \<and> 200 \<le> sw \<and> sw \<le> 299"
  then show "fetchChapter net table telugu b c =
           Inl (Error (''No KJV verses found for '' @ b @ '' '' @ numberToString c))"
    using fetchChapter_no_kjv_error by blast
next
  assume a: "exactReference r \<and>
    net (referenceUrl r ''kjv'') = Response sk' (Some kjvData') \<and> 200 \<le> sk' \<and> sk' \<le> 299 \<and>
    (verses kjvData' = None \<or> verses kjvData' = Some [])"
    and w: "net (referenceUrl r ''web'') = Response sw' (Some webData') \<and> 200 \<le> sw' \<and> sw' \<le> 299"
  then show e: "fetchReference net table telugu r = Inr []"
    using fetchReference_no_kjv by blast
  fix rs1 rs2
  from e show "fetchVersesByReferences net table telugu (rs1 @ r # rs2) =
                  fetchVersesByReferences net table telugu (rs1 @ rs2)"
    by (rule fetchVersesByReferences_skip)
next
  assume w: "\<not> answered (net (referenceUrl r ''web''))"
  then show e: "\<exists>e. fetchReference net table telugu r = Inl e"
    by (rule fetchReference_web_down)
  fix rs1 rs2
  from e show "\<exists>e. fetchVersesByReferences net table telugu (rs1 @ r # rs2) = Inl e"
    using fetchVersesByReferences_fail by blast
qed

theorem zero_kjv_verses_witness:
  "fetchChapter sampleNet johnTable sampleTelugu ''John'' 99 =
     Inl (Error ''No KJV verses found for John 99'') \<and>
   fetchReference sampleNet johnTable sampleTelugu emptyReference = Inr [] \<and>
   fetchVersesByReferences sampleNet johnTable sampleTelugu [emptyReference, sampleReference] =
     fetchVersesByReferences sampleNet johnTable sampleTelugu [sampleReference] \<and>
   (\<exists>e. fetchVersesByReferences webDownNet johnTable sampleTelugu
          [sampleReference, emptyReference] = Inl e)"
proof -
  note t = zero_kjv_verses [of 99 sampleNet "''John''" 200 "sampleResponse []" johnTable
      sampleTelugu 200 "sampleResponse []" emptyReference 200 "sampleResponse []" 200
      "sampleResponse []"]
  note u = zero_kjv_verses [of 99 webDownNet "''John''" 200 "sampleResponse []" johnTable
      sampleTelugu 200 "sampleResponse []" emptyReference 200 "sampleResponse []" 200
      "sampleResponse []"]
  have n: "numberToString 99 = ''99''" by code_simp
  have x: "exactInteger 99" "exactReference emptyReference"
    by (simp_all add: exactInteger_def exactReference_def emptyReference_def)
  from t x sample_other_chapter sample_verses
  have "fetchChapter sampleNet johnTable sampleTelugu ''John'' 99 =
           Inl (Error (''No KJV verses found for '' @ ''John'' @ '' '' @ numberToString 99))"
    by simp
  moreover from t x sample_empty_reference sample_verses
  have "fetchReference sampleNet johnTable sampleTelugu emptyReference = Inr [] \<and>
      (\<forall>rs1 rs2. fetchVersesByReferences sampleNet johnTable sampleTelugu (rs1 @ emptyReference # rs2) =
                  fetchVersesByReferences sampleNet johnTable sampleTelugu (rs1 @ rs2))"
    by simp
  then have "fetchReference sampleNet johnTable sampleTelugu emptyReference = Inr [] \<and>
     fetchVersesByReferences sampleNet johnTable sampleTelugu ([] @ emptyReference # [sampleReference]) =
     fetchVersesByReferences sampleNet johnTable sampleTelugu ([] @ [sampleReference])"
    by blast
  moreover from u x sample_web_down sample_verses
  have "\<forall>rs1 rs2. \<exists>e. fetchVersesByReferences webDownNet johnTable sampleTelugu
          (rs1 @ emptyReference # rs2) = Inl e"
    by simp
  then have "\<exists>e. fetchVersesByReferences webDownNet johnTable sampleTelugu
          ([sampleReference] @ emptyReference # []) = Inl e"
    by blast
  ultimately show ?thesis using n by simp
qed


section \<open>White space in the stored texts\<close>

lemma replaceNewlines_no_newline: "CHR 0x0A \<notin> set (replaceNewlines s)"
  by (auto simp: replaceNewlines_def)

lemma replaceNewlines_length: "length (replaceNewlines s) = length s"
  by (simp add: replaceNewlines_def)

lemma replaceNewlines_nth:
  "i < length s \<Longrightarrow> replaceNewlines s ! i = (if s ! i = CHR 0x0A then CHR '' '' else s ! i)"
  by (simp add: replaceNewlines_def)

lemma set_trim: "set (trim s) \<subseteq> set s"
  by (auto simp: trim_def dest!: set_dropWhileD)

lemma trim_ends:
  "trim s = [] \<or> (\<not> isSpace (hd (trim s)) \<and> \<not> isSpace (last (trim s)))"
proof (cases "trim s = []")
  case True
  then show ?thesis by simp
next
  case False
  define t where "t = dropWhile isSpace s"
  define u where "u = dropWhile isSpace (rev t)"
  have tr: "trim s = rev u" by (simp add: trim_def t_def u_def)
  with False have u: "u \<noteq> []" by simp
  then have hu: "\<not> isSpace (hd u)" unfolding u_def by (rule hd_dropWhile)
  from u have t: "t \<noteq> []" by (auto simp: u_def)
  then have ht: "\<not> isSpace (hd t)" unfolding t_def by (rule hd_dropWhile)
  have "rev t = takeWhile isSpace (rev t) @ u" by (simp add: u_def)
  then have "last (rev t) = last u" using u by (metis last_appendR)
  then have "last u = hd t" using t by (simp add: last_rev)
  with ht hu u tr show ?thesis by (simp add: hd_rev last_rev)
qed

lemma dropWhile_hd: "xs \<noteq> [] \<Longrightarrow> \<not> P (hd xs) \<Longrightarrow> dropWhile P xs = xs"
  by (cases xs) auto

lemma trim_idem_ends:
  "s = [] \<or> (\<not> isSpace (hd s) \<and> \<not> isSpace (last s)) \<Longrightarrow> trim s = s"
proof (cases s)
  case Nil
  then show ?thesis by (simp add: trim_def)
next
  case (Cons a list)
  assume "s = [] \<or> (\<not> isSpace (hd s) \<and> \<not> isSpace (last s))"
  with Cons have h: "\<not> isSpace (hd s)" "\<not> isSpace (last s)" "s \<noteq> []" by auto
  then have 1: "dropWhile isSpace s = s" by (simp add: dropWhile_hd)
  from h have "rev s \<noteq> []" "\<not> isSpace (hd (rev s))" by (simp_all add: hd_rev)
  then have 2: "dropWhile isSpace (rev s) = rev s" by (rule dropWhile_hd)
  from 1 2 show ?thesis by (simp add: trim_def)
qed

lemma trim_trim: "trim (trim s) = trim s"
  using trim_ends [of s] by (rule trim_idem_ends)

lemma kjvText_normalised:
  "CHR 0x0A \<notin> set (kjvText k) \<and> trim (kjvText k) = kjvText k"
  using set_trim [of "replaceNewlines (BibleApiResponseVerse.text' k)"] replaceNewlines_no_newline
  by (auto simp: kjvText_def trim_trim)

lemma webText_source:
  "\<exists>w\<in>set ws \<union> {k}. webText ws k = trim (replaceNewlines (BibleApiResponseVerse.text' w))"
  by (auto simp: webText_def kjvText_def find_Some_iff split: option.splits)


lemma mergeChapterVerse_sources:
  assumes "v \<in> set (map (mergeChapterVerse table telugu b c ws) ks)"
  shows "(\<exists>k\<in>set ks. KJV (Verse.text' v) = trim (replaceNewlines (BibleApiResponseVerse.text' k))) \<and>
         (\<exists>w\<in>set ws \<union> set ks.
            ESV (Verse.text' v) = trim (replaceNewlines (BibleApiResponseVerse.text' w)) \<and>
            NIV (Verse.text' v) = trim (replaceNewlines (BibleApiResponseVerse.text' w))) \<and>
         BSI_TELUGU (Verse.text' v) =
           (case getTeluguVerse table telugu b c (Verse.verse v) of
              None \<Rightarrow> None
            | Some t \<Rightarrow> if t = [] then None else Some t)"
proof -
  from assms obtain k where k: "k \<in> set ks" "v = mergeChapterVerse table telugu b c ws k"
    by auto
  from webText_source [of ws k] obtain w where
    w: "w \<in> set ws \<union> {k}" "webText ws k = trim (replaceNewlines (BibleApiResponseVerse.text' w))"
    by blast
  with k have "w \<in> set ws \<union> set ks" by auto
  with k w show ?thesis
    by (auto simp: mergeChapterVerse_fields kjvText_def)
qed

lemma mergeReferenceVerse_sources:
  assumes "v \<in> set (map (mergeReferenceVerse table telugu r ws) ks)"
  shows "(\<exists>k\<in>set ks. KJV (Verse.text' v) = trim (replaceNewlines (BibleApiResponseVerse.text' k))) \<and>
         (\<exists>w\<in>set ws \<union> set ks.
            ESV (Verse.text' v) = trim (replaceNewlines (BibleApiResponseVerse.text' w)) \<and>
            NIV (Verse.text' v) = trim (replaceNewlines (BibleApiResponseVerse.text' w))) \<and>
         BSI_TELUGU (Verse.text' v) =
           (case getTeluguVerse table telugu (ParsedReference.book r) (ParsedReference.chapter' r)
                   (Verse.verse v) of
              None \<Rightarrow> None
            | Some t \<Rightarrow> if t = [] then None else Some t)"
proof -
  from assms obtain k where k: "k \<in> set ks" "v = mergeReferenceVerse table telugu r ws k"
    by auto
  from webText_source [of ws k] obtain w where
    w: "w \<in> set ws \<union> {k}" "webText ws k = trim (replaceNewlines (BibleApiResponseVerse.text' w))"
    by blast
  with k have "w \<in> set ws \<union> set ks" by auto
  with k w show ?thesis
    by (auto simp: mergeReferenceVerse_fields kjvText_def)
qed

text \<open>
  C9, as stated: every text that the merge stores, the Telugu line included, has its line
  breaks replaced by spaces and is trimmed. The Telugu line is stored as the corpus has
  it: in the sample chapter it keeps its line feed and its outer spaces.
\<close>

theorem telugu_line_stored_verbatim:
  "fetchChapter sampleNet johnTable sampleTelugu ''John'' 3 = Inr sampleMerged \<and>
   BSI_TELUGU (Verse.text' (sampleMerged ! 0)) = Some ('' t'' @ [CHR 0x0A] @ ''one '') \<and>
   trim (replaceNewlines ('' t'' @ [CHR 0x0A] @ ''one '')) = ''t one''"
  using sample_fetchChapter
  by (simp add: sampleMerged_def sampleTexts_def sampleText_def replaceNewlines_def trim_def isSpace_def)

text \<open>
  C9, amended. In every merged verse of \<open>fetchChapter\<close> and of \<open>fetchVersesByReferences\<close>
  the KJV slot is \<open>trim (replaceNewlines t)\<close> for the text \<open>t\<close> of a verse of the KJV
  response, and the ESV and NIV slots are \<open>trim (replaceNewlines t)\<close> for the text \<open>t\<close> of
  a verse of the web or of the KJV response; the Telugu line is the verse of the corpus as
  it is, and absent when the corpus has none or an empty one. \<open>replaceNewlines\<close> puts one
  space in the place of each line feed and changes nothing else, and a trimmed text has no
  line feed left and neither starts nor ends with white space.
\<close>

theorem english_slots_normalised:
  "(fetchChapter net table telugu b c = Inr vs \<longrightarrow>
      (\<exists>sw webData ws sk kjvData ks.
         net (chapterUrl b c ''web'') = Response sw (Some webData) \<and> verses webData = Some ws \<and>
         net (chapterUrl b c ''kjv'') = Response sk (Some kjvData) \<and> verses kjvData = Some ks \<and>
         (\<forall>v\<in>set vs.
            (\<exists>k\<in>set ks. KJV (Verse.text' v) = trim (replaceNewlines (BibleApiResponseVerse.text' k))) \<and>
            (\<exists>w\<in>set ws \<union> set ks.
               ESV (Verse.text' v) = trim (replaceNewlines (BibleApiResponseVerse.text' w)) \<and>
               NIV (Verse.text' v) = trim (replaceNewlines (BibleApiResponseVerse.text' w))) \<and>
            BSI_TELUGU (Verse.text' v) =
              (case getTeluguVerse table telugu b c (Verse.verse v) of
                 None \<Rightarrow> None
               | Some t \<Rightarrow> if t = [] then None else Some t)))) \<and>
   (fetchVersesByReferences net table telugu refs = Inr fvs \<longrightarrow>
      (\<forall>v\<in>set fvs. \<exists>r\<in>set refs. \<exists>sw webData ws sk kjvData ks.
         net (referenceUrl r ''web'') = Response sw (Some webData) \<and> verses webData = Some ws \<and>
         net (referenceUrl r ''kjv'') = Response sk (Some kjvData) \<and> verses kjvData = Some ks \<and>
         (\<exists>k\<in>set ks. KJV (Verse.text' v) = trim (replaceNewlines (BibleApiResponseVerse.text' k))) \<and>
         (\<exists>w\<in>set ws \<union> set ks.
            ESV (Verse.text' v) = trim (replaceNewlines (BibleApiResponseVerse.text' w)) \<and>
            NIV (Verse.text' v) = trim (replaceNewlines (BibleApiResponseVerse.text' w))) \<and>
         BSI_TELUGU (Verse.text' v) =
           (case getTeluguVerse table telugu (ParsedReference.book r) (ParsedReference.chapter' r)
                   (Verse.verse v) of
              None \<Rightarrow> None
            | Some t \<Rightarrow> if t = [] then None else Some t))) \<and>
   CHR 0x0A \<notin> set (trim (replaceNewlines s)) \<and>
   (trim (replaceNewlines s) = [] \<or>
      (\<not> isSpace (hd (trim (replaceNewlines s))) \<and> \<not> isSpace (last (trim (replaceNewlines s))))) \<and>
   length (replaceNewlines s) = length s \<and>
   (\<forall>i<length s. replaceNewlines s ! i = (if s ! i = CHR 0x0A then CHR '' '' else s ! i))"
proof (intro conjI impI)
  assume "fetchChapter net table telugu b c = Inr vs"
  from fetchChapter_Inr [OF this] obtain sw webData sk kjvData ws ks where
    n: "net (chapterUrl b c ''web'') = Response sw (Some webData)"
       "net (chapterUrl b c ''kjv'') = Response sk (Some kjvData)"
       "verses webData = Some ws" "verses kjvData = Some ks"
    and vs: "vs = map (mergeChapterVerse table telugu b c ws) ks"
    by blast
  from vs mergeChapterVerse_sources [of _ table telugu b c ws ks]
  have "\<forall>v\<in>set vs.
            (\<exists>k\<in>set ks. KJV (Verse.text' v) = trim (replaceNewlines (BibleApiResponseVerse.text' k))) \<and>
            (\<exists>w\<in>set ws \<union> set ks.
               ESV (Verse.text' v) = trim (replaceNewlines (BibleApiResponseVerse.text' w)) \<and>
               NIV (Verse.text' v) = trim (replaceNewlines (BibleApiResponseVerse.text' w))) \<and>
            BSI_TELUGU (Verse.text' v) =
              (case getTeluguVerse table telugu b c (Verse.verse v) of
                 None \<Rightarrow> None
               | Some t \<Rightarrow> if t = [] then None else Some t)"
    by blast
  with n show "\<exists>sw webData ws sk kjvData ks.
         net (chapterUrl b c ''web'') = Response sw (Some webData) \<and> verses webData = Some ws \<and>
         net (chapterUrl b c ''kjv'') = Response sk (Some kjvData) \<and> verses kjvData = Some ks \<and>
         (\<forall>v\<in>set vs.
            (\<exists>k\<in>set ks. KJV (Verse.text' v) = trim (replaceNewlines (BibleApiResponseVerse.text' k))) \<and>
            (\<exists>w\<in>set ws \<union> set ks.
               ESV (Verse.text' v) = trim (replaceNewlines (BibleApiResponseVerse.text' w)) \<and>
               NIV (Verse.text' v) = trim (replaceNewlines (BibleApiResponseVerse.text' w))) \<and>
            BSI_TELUGU (Verse.text' v) =
              (case getTeluguVerse table telugu b c (Verse.verse v) of
                 None \<Rightarrow> None
               | Some t \<Rightarrow> if t = [] then None else Some t))"
    by blast
next
  assume a: "fetchVersesByReferences net table telugu refs = Inr fvs"
  show "\<forall>v\<in>set fvs. \<exists>r\<in>set refs. \<exists>sw webData ws sk kjvData ks.
         net (referenceUrl r ''web'') = Response sw (Some webData) \<and> verses webData = Some ws \<and>
         net (referenceUrl r ''kjv'') = Response sk (Some kjvData) \<and> verses kjvData = Some ks \<and>
         (\<exists>k\<in>set ks. KJV (Verse.text' v) = trim (replaceNewlines (BibleApiResponseVerse.text' k))) \<and>
         (\<exists>w\<in>set ws \<union> set ks.
            ESV (Verse.text' v) = trim (replaceNewlines (BibleApiResponseVerse.text' w)) \<and>
            NIV (Verse.text' v) = trim (replaceNewlines (BibleApiResponseVerse.text' w))) \<and>
         BSI_TELUGU (Verse.text' v) =
           (case getTeluguVerse table telugu (ParsedReference.book r) (ParsedReference.chapter' r)
                   (Verse.verse v) of
              None \<Rightarrow> None
            | Some t \<Rightarrow> if t = [] then None else Some t)"
  proof
    fix v assume "v \<in> set fvs"
    from fetchVersesByReferences_mem [OF a this] obtain r vs where
      r: "r \<in> set refs" "fetchReference net table telugu r = Inr vs" "v \<in> set vs" by blast
    from fetchReference_Inr [OF r(2)] r(3) obtain sw webData sk kjvData ws ks where
      n: "net (referenceUrl r ''web'') = Response sw (Some webData)"
         "net (referenceUrl r ''kjv'') = Response sk (Some kjvData)"
         "verses webData = Some ws" "verses kjvData = Some ks"
      and vs: "vs = map (mergeReferenceVerse table telugu r ws) ks"
      by fastforce
    from r(3) vs have "v \<in> set (map (mergeReferenceVerse table telugu r ws) ks)" by simp
    from mergeReferenceVerse_sources [OF this] r(1) n
    show "\<exists>r\<in>set refs. \<exists>sw webData ws sk kjvData ks.
         net (referenceUrl r ''web'') = Response sw (Some webData) \<and> verses webData = Some ws \<and>
         net (referenceUrl r ''kjv'') = Response sk (Some kjvData) \<and> verses kjvData = Some ks \<and>
         (\<exists>k\<in>set ks. KJV (Verse.text' v) = trim (replaceNewlines (BibleApiResponseVerse.text' k))) \<and>
         (\<exists>w\<in>set ws \<union> set ks.
            ESV (Verse.text' v) = trim (replaceNewlines (BibleApiResponseVerse.text' w)) \<and>
            NIV (Verse.text' v) = trim (replaceNewlines (BibleApiResponseVerse.text' w))) \<and>
         BSI_TELUGU (Verse.text' v) =
           (case getTeluguVerse table telugu (ParsedReference.book r) (ParsedReference.chapter' r)
                   (Verse.verse v) of
              None \<Rightarrow> None
            | Some t \<Rightarrow> if t = [] then None else Some t)"
      by blast
  qed
next
  show "CHR 0x0A \<notin> set (trim (replaceNewlines s))"
    using set_trim [of "replaceNewlines s"] replaceNewlines_no_newline [of s] by blast
next
  show "trim (replaceNewlines s) = [] \<or>
      (\<not> isSpace (hd (trim (replaceNewlines s))) \<and> \<not> isSpace (last (trim (replaceNewlines s))))"
    by (rule trim_ends)
next
  show "length (replaceNewlines s) = length s" by (rule replaceNewlines_length)
next
  show "\<forall>i<length s. replaceNewlines s ! i = (if s ! i = CHR 0x0A then CHR '' '' else s ! i)"
    by (simp add: replaceNewlines_nth)
qed

theorem english_slots_normalised_witness:
  "fetchChapter sampleNet johnTable sampleTelugu ''John'' 3 = Inr sampleMerged \<and>
   list_all (\<lambda>v. \<exists>k\<in>set sampleKjv.
       KJV (Verse.text' v) = trim (replaceNewlines (BibleApiResponseVerse.text' k))) sampleMerged \<and>
   KJV (Verse.text' (sampleMerged ! 2)) = ''k three'' \<and>
   BibleApiResponseVerse.text' (sampleKjv ! 2) = [CHR 0x0A] @ ''k'' @ [CHR 0x0A] @ ''three '' \<and>
   replaceNewlines ([CHR 0x0A] @ ''k'' @ [CHR 0x0A] @ ''three '') = '' k three '' \<and>
   CHR 0x0A \<notin> set (trim (replaceNewlines ([CHR 0x0A] @ ''k'' @ [CHR 0x0A] @ ''three '')))"
proof -
  note t = english_slots_normalised [of sampleNet johnTable sampleTelugu "''John''" 3 sampleMerged
      "[emptyReference, sampleReference]" sampleMergedFull
      "[CHR 0x0A] @ ''k'' @ [CHR 0x0A] @ ''three ''"]
  from t have "CHR 0x0A \<notin> set (trim (replaceNewlines ([CHR 0x0A] @ ''k'' @ [CHR 0x0A] @ ''three '')))"
    by blast
  moreover from t sample_fetchChapter obtain sk kjvData ks where
    k: "sampleNet (chapterUrl ''John'' 3 ''kjv'') = Response sk (Some kjvData)"
       "verses kjvData = Some ks"
       "\<forall>v\<in>set sampleMerged. \<exists>k\<in>set ks.
           KJV (Verse.text' v) = trim (replaceNewlines (BibleApiResponseVerse.text' k))"
    by blast
  from k(1,2) sample_kjv_chapter sample_verses [of sampleKjv] have "ks = sampleKjv" by auto
  with k(3) have "list_all (\<lambda>v. \<exists>k\<in>set sampleKjv.
       KJV (Verse.text' v) = trim (replaceNewlines (BibleApiResponseVerse.text' k))) sampleMerged"
    by (simp add: list_all_iff)
  moreover have "KJV (Verse.text' (sampleMerged ! 2)) = ''k three''"
    by (simp add: sampleMerged_def sampleTexts_def sampleText_def)
  moreover have "BibleApiResponseVerse.text' (sampleKjv ! 2) = [CHR 0x0A] @ ''k'' @ [CHR 0x0A] @ ''three ''"
    by (simp add: sampleKjv_def sampleVerse_def)
  moreover have "replaceNewlines ([CHR 0x0A] @ ''k'' @ [CHR 0x0A] @ ''three '') = '' k three ''"
    by (simp add: replaceNewlines_def)
  ultimately show ?thesis using sample_fetchChapter by blast
qed



section \<open>The analysis cache\<close>

lemma getVerseAnalysis_hit:
  "verseCache st (cacheKey verseRef t) = Some txt \<Longrightarrow>
   getVerseAnalysis st e verseRef t = (Inr txt, st, [])"
  by (simp add: getVerseAnalysis_def)

lemma safeGenerate_sent:
  "safeGenerate st e mdl prompt = (out, st1, sent) \<Longrightarrow>
   sent = [] \<or> sent = [GenerateContent mdl prompt
       ''You are a concise biblical expert. Provide direct answers without filler.'']"
  by (auto simp: safeGenerate_def handleQuota_def Let_def split: if_splits sum.splits reply.splits)

lemma safeGenerate_Inr:
  "safeGenerate st e mdl prompt = (Inr txt, st1, sent) \<Longrightarrow>
   sent = [GenerateContent mdl prompt
       ''You are a concise biblical expert. Provide direct answers without filler.''] \<and>
   verseCache st1 = verseCache st \<and> globalCooldownUntil st1 = globalCooldownUntil st \<and>
   chatInstances st1 = chatInstances st"
  by (auto simp: safeGenerate_def handleQuota_def getAiInstance_def Let_def
      split: if_splits sum.splits reply.splits option.splits)

lemma getVerseAnalysis_stores:
  assumes "getVerseAnalysis st e verseRef t = (Inr txt, st1, sent)"
  shows "verseCache st1 (cacheKey verseRef t) = Some txt"
  using assms
  by (auto simp: getVerseAnalysis_def split: option.splits sum.splits prod.splits)

lemma getVerseAnalysis_calls:
  assumes "getVerseAnalysis st e verseRef t = (Inr txt, st1, sent)"
  shows "verseCache st (cacheKey verseRef t) = None \<longrightarrow>
          sent = [GenerateContent ''gemini-2.5-flash-lite'' (analysisPrompt verseRef t)
            ''You are a concise biblical expert. Provide direct answers without filler.'']"
  using assms
  by (auto simp: getVerseAnalysis_def split: option.splits sum.splits prod.splits dest: safeGenerate_Inr)

lemma sample_numbers: "numberToString 3 = ''3''" "numberToString 16 = ''16''"
  by code_simp+

lemma sample_first_analysis:
  "getVerseAnalysis sampleGateway (sampleEnv 0 (Text ''context'')) sampleVerseRef HistoricalContext =
     (Inr ''context'',
      \<lparr>ai = True, chatInstances = Map.empty,
       verseCache = [cacheKey sampleVerseRef HistoricalContext \<mapsto> ''context''],
       globalCooldownUntil = 0\<rparr>,
      [GenerateContent ''gemini-2.5-flash-lite''
         ''Explain the historical and cultural context of John 3:16.''
         ''You are a concise biblical expert. Provide direct answers without filler.''])"
  by (simp add: getVerseAnalysis_def safeGenerate_def getAiInstance_def sampleGateway_def
      sampleEnv_def sampleVerseRef_def verseLabel_def sample_numbers cacheKey_def Let_def)

lemma sample_cacheKey: "cacheKey sampleVerseRef HistoricalContext = ''John-3-16-Historical Context''"
  by (simp add: cacheKey_def sampleVerseRef_def sample_numbers)

text \<open>
  C3. When a call of \<open>getVerseAnalysis\<close> has returned a text, every later call with the
  same book, chapter, verse and analysis kind, in any state whose cache still holds the
  entry, returns that text, sends nothing to the remote service and leaves the state as it
  is, whatever the clock and the cooldown timestamp are: the cache is read before the
  cooldown. A first call that missed the cache sent exactly one request.
\<close>

theorem analysis_cache_hit:
  assumes "getVerseAnalysis st e verseRef t = (Inr txt, st1, sent)"
      and "verseCache st2 (cacheKey verseRef t) = verseCache st1 (cacheKey verseRef t)"
  shows "getVerseAnalysis st2 e2 verseRef t = (Inr txt, st2, []) \<and>
         (verseCache st (cacheKey verseRef t) = None \<longrightarrow>
            sent = [GenerateContent ''gemini-2.5-flash-lite'' (analysisPrompt verseRef t)
              ''You are a concise biblical expert. Provide direct answers without filler.''])"
  using getVerseAnalysis_stores [OF assms(1)] getVerseAnalysis_calls [OF assms(1)] assms(2)
  by (simp add: getVerseAnalysis_hit)


theorem analysis_cache_hit_witness:
  "now (sampleEnv 1000 (Failure None)) < globalCooldownUntil cachedGateway \<and>
   getVerseAnalysis cachedGateway (sampleEnv 1000 (Failure None)) sampleVerseRef HistoricalContext =
     (Inr ''context'', cachedGateway, [])"
  using analysis_cache_hit [OF sample_first_analysis, of cachedGateway "sampleEnv 1000 (Failure None)"]
  by (simp add: sample_cacheKey cachedGateway_def sampleEnv_def)


section \<open>The cooldown\<close>

lemma ceilSeconds_pos: "1 \<le> ceilSeconds ms \<longleftrightarrow> 0 < ms"
  unfolding ceilSeconds_def by linarith

lemma ceilSeconds_le: "ms \<le> 1000 * k \<Longrightarrow> ceilSeconds ms \<le> k"
  unfolding ceilSeconds_def by linarith

lemma ceilSeconds_exact: "exactInteger ms \<Longrightarrow> exactInteger (ceilSeconds ms)"
  unfolding ceilSeconds_def exactInteger_def by linarith

lemma cooldownMessage_nonempty: "cooldownMessage secs \<noteq> []"
  by (simp add: cooldownMessage_def)

lemma safeGenerate_cooling:
  "now e < globalCooldownUntil st \<Longrightarrow>
   safeGenerate st e mdl prompt =
     (Inl (AiError (cooldownMessage (ceilSeconds (globalCooldownUntil st - nowAgain e)))), st, [])"
  by (simp add: safeGenerate_def)

lemma safeGenerate_quota:
  assumes "\<not> now e < globalCooldownUntil st" "getAiInstance st e = Inr st1"
      and "remote e (GenerateContent mdl prompt
             ''You are a concise biblical expert. Provide direct answers without filler.'') = Failure (Some m)"
      and "includes' m ''429'' \<or> includes' m ''RESOURCE_EXHAUSTED''"
  shows "safeGenerate st e mdl prompt =
     (Inl (AiError ''AI is busy. Please wait 60 seconds and try again.''),
      st1\<lparr>globalCooldownUntil := failedAt e + 60000\<rparr>,
      [GenerateContent mdl prompt
         ''You are a concise biblical expert. Provide direct answers without filler.''])"
  using assms by (simp add: safeGenerate_def handleQuota_def isQuotaError_def Let_def)

lemma safeGenerate_open_sent:
  assumes "globalCooldownUntil st \<le> now e" "getAiInstance st e = Inr st1"
  shows "snd (snd (safeGenerate st e mdl prompt)) =
           [GenerateContent mdl prompt
              ''You are a concise biblical expert. Provide direct answers without filler.'']"
  using assms by (auto simp: safeGenerate_def handleQuota_def Let_def split: reply.splits)

lemma safeGenerate_open_text:
  assumes "globalCooldownUntil st \<le> now e" "getAiInstance st e = Inr st1"
      and "remote e (GenerateContent mdl prompt
             ''You are a concise biblical expert. Provide direct answers without filler.'') = Text txt"
  shows "safeGenerate st e mdl prompt =
           (Inr txt, st1, [GenerateContent mdl prompt
              ''You are a concise biblical expert. Provide direct answers without filler.''])"
  using assms by (auto simp: safeGenerate_def handleQuota_def Let_def split: reply.splits)

text \<open>
  The readings of a clock that is not set before 1970, with a cooldown timestamp that is
  0 (no failure yet) or was written by an earlier failure, are computed with exactly; and
  the timestamp that a failure writes is again of this kind.
\<close>

lemma exactClock_dates:
  assumes "dateReading (now e)" "dateReading (nowAgain e)" "dateReading (failedAt e)"
      and "globalCooldownUntil st = 0 \<or> (\<exists>t. dateReading t \<and> globalCooldownUntil st = t + 60000)"
  shows "exactClock st e"
  using assms unfolding exactClock_def exactInteger_def dateReading_def by auto

lemma getAiInstance_cooldown:
  "getAiInstance st e = Inr st1 \<Longrightarrow> globalCooldownUntil st1 = globalCooldownUntil st"
  by (auto simp: getAiInstance_def split: if_splits option.splits)

lemma handleQuota_timestamp:
  "globalCooldownUntil (fst (snd (handleQuota st e err sent))) = globalCooldownUntil st \<or>
   globalCooldownUntil (fst (snd (handleQuota st e err sent))) = failedAt e + 60000"
  by (simp add: handleQuota_def)

lemma safeGenerate_timestamp_cases:
  "globalCooldownUntil (fst (snd (safeGenerate st e mdl prompt))) = globalCooldownUntil st \<or>
   globalCooldownUntil (fst (snd (safeGenerate st e mdl prompt))) = failedAt e + 60000"
proof (cases "now e < globalCooldownUntil st")
  case True
  then show ?thesis by (simp add: safeGenerate_def)
next
  case False
  show ?thesis
  proof (cases "getAiInstance st e")
    case (Inl err)
    with False handleQuota_timestamp [of st e err "[]"] show ?thesis
      by (simp add: safeGenerate_def)
  next
    case (Inr st1)
    note g = getAiInstance_cooldown [OF Inr]
    show ?thesis
    proof (cases "remote e (GenerateContent mdl prompt
        ''You are a concise biblical expert. Provide direct answers without filler.'')")
      case (Text x)
      with False Inr g show ?thesis by (simp add: safeGenerate_def)
    next
      case (Failure x)
      with False Inr g handleQuota_timestamp [of st1 e "Upstream x"
          "[GenerateContent mdl prompt
             ''You are a concise biblical expert. Provide direct answers without filler.'']"]
      show ?thesis by (simp add: safeGenerate_def)
    qed
  qed
qed

lemma safeGenerate_timestamp:
  assumes "dateReading (failedAt e)"
      and "globalCooldownUntil st = 0 \<or> (\<exists>t. dateReading t \<and> globalCooldownUntil st = t + 60000)"
  shows "globalCooldownUntil (fst (snd (safeGenerate st e mdl prompt))) = 0 \<or>
         (\<exists>t. dateReading t \<and>
              globalCooldownUntil (fst (snd (safeGenerate st e mdl prompt))) = t + 60000)"
proof -
  from safeGenerate_timestamp_cases [of st e mdl prompt]
  show ?thesis
  proof
    assume "globalCooldownUntil (fst (snd (safeGenerate st e mdl prompt))) = globalCooldownUntil st"
    with assms(2) show ?thesis by simp
  next
    assume "globalCooldownUntil (fst (snd (safeGenerate st e mdl prompt))) = failedAt e + 60000"
    with assms(1) show ?thesis by blast
  qed
qed

lemma sample_sixty: "numberToString 60 = ''60''"
  by code_simp

lemma sample_zero: "numberToString 0 = ''0''"
  by code_simp

lemma sample_getAi: "getAiInstance sampleGateway (sampleEnv t r) = Inr (sampleGateway\<lparr>ai := True\<rparr>)"
  "getAiInstance coolingGateway (sampleEnv t r) = Inr coolingGateway"
  by (simp_all add: getAiInstance_def sampleGateway_def coolingGateway_def sampleEnv_def)

lemma sample_cooling: "sampleGateway\<lparr>ai := True, globalCooldownUntil := 61000\<rparr> = coolingGateway"
  by (simp add: sampleGateway_def coolingGateway_def)

lemma sample_exactClock:
  "exactClock sampleGateway (sampleEnv 0 r)" "exactClock coolingGateway (sampleEnv 1000 r)"
  "exactClock coolingGateway (sampleEnv 61000 r)" "exactClock coolingGateway tickingEnv"
  by (simp_all add: exactClock_def exactInteger_def sampleGateway_def coolingGateway_def
      sampleEnv_def tickingEnv_def)

text \<open>
  C1, as stated: while the cooldown is active every AI request, of every operation and
  every tier, fails with a cooldown error and sends nothing. With the cooldown active, a
  chat message in a mode other than \<open>gemini-2.5-flash\<close> is sent to the remote service
  and answered, and a keyword search returns the empty string, not an error that names
  the remaining seconds.
\<close>

theorem cooldown_bypassed_by_chat_session:
  "now (sampleEnv 1000 (Text ''hello'')) < globalCooldownUntil coolingGateway \<and>
   sendMessageToBot coolingGateway (sampleEnv 1000 (Text ''hello'')) ''question'' ''gemini-2.5-pro'' =
     (\<lparr>BotReply.text' = ''hello'', sources = []\<rparr>,
      coolingGateway\<lparr>chatInstances := [''gemini-2.5-pro'' \<mapsto> proChat]\<rparr>,
      [SendMessage proChat ''question'']) \<and>
   searchBibleByKeyword coolingGateway (sampleEnv 1000 (Text ''hello'')) ''love'' =
     ([], coolingGateway, [])"
  by (simp add: sendMessageToBot_def getChat_def getAiInstance_def coolingGateway_def sampleEnv_def
      proChat_def Let_def searchBibleByKeyword_def safeGenerate_def)

text \<open>
  C1, amended to the requests that go through \<open>safeGenerate\<close>, for clock readings and a
  cooldown timestamp that the code computes with exactly (\<open>exactClock\<close>). While the
  reading \<open>now\<close> of the cooldown test is before \<open>globalCooldownUntil\<close>, \<open>safeGenerate\<close> sends
  nothing, leaves the state as it is and fails with \<open>AI cooling down. Try again in Ns.\<close>,
  where \<open>N\<close> is the time from the second reading \<open>nowAgain\<close> to \<open>globalCooldownUntil\<close> in
  seconds, rounded up. \<open>N\<close> is at least 1 exactly when the second reading is still before
  \<open>globalCooldownUntil\<close> (it is 0 or negative when the clock has reached it between the two
  readings), and at most 60 when the second reading is not before the failure that started
  the cooldown. \<open>sendMessageToBot\<close> in the mode \<open>gemini-2.5-flash\<close> returns that message as
  its reply text, \<open>getVerseAnalysis\<close> on a cache miss (for a chapter and a verse that are
  exact integers, so that the key is the one the code builds) fails with it, and
  \<open>searchBibleByKeyword\<close> returns the empty string. A request of \<open>safeGenerate\<close> that
  fails with a message containing \<open>429\<close> or \<open>RESOURCE_EXHAUSTED\<close> sets
  \<open>globalCooldownUntil\<close> to the time of the failure plus 60000 milliseconds. Once that time
  has come, a call of \<open>safeGenerate\<close> with a client handle (or a credential to create one)
  sends exactly one request and returns its text.
\<close>

theorem cooldown_of_safeGenerate:
  assumes "exactClock st e"
  shows
  "(now e < globalCooldownUntil st \<longrightarrow>
      safeGenerate st e mdl prompt =
        (Inl (AiError (cooldownMessage (ceilSeconds (globalCooldownUntil st - nowAgain e)))), st, []) \<and>
      sendMessageToBot st e msg ''gemini-2.5-flash'' =
        (\<lparr>BotReply.text' = cooldownMessage (ceilSeconds (globalCooldownUntil st - nowAgain e)),
          sources = []\<rparr>, st, []) \<and>
      (exactInteger (VerseReference.chapter' verseRef) \<and>
       exactInteger (VerseReference.verse verseRef) \<and>
       verseCache st (cacheKey verseRef t) = None \<longrightarrow>
         getVerseAnalysis st e verseRef t =
           (Inl (AiError (cooldownMessage (ceilSeconds (globalCooldownUntil st - nowAgain e)))), st, [])) \<and>
      searchBibleByKeyword st e keyword = ([], st, []) \<and>
      exactInteger (ceilSeconds (globalCooldownUntil st - nowAgain e)) \<and>
      (1 \<le> ceilSeconds (globalCooldownUntil st - nowAgain e) \<longleftrightarrow>
         nowAgain e < globalCooldownUntil st) \<and>
      (globalCooldownUntil st = failed + 60000 \<and> failed \<le> nowAgain e \<longrightarrow>
         ceilSeconds (globalCooldownUntil st - nowAgain e) \<le> 60)) \<and>
   (\<not> now e < globalCooldownUntil st \<and> getAiInstance st e = Inr st1 \<and>
    remote e (GenerateContent mdl prompt
       ''You are a concise biblical expert. Provide direct answers without filler.'') = Failure (Some m) \<and>
    (includes' m ''429'' \<or> includes' m ''RESOURCE_EXHAUSTED'') \<longrightarrow>
      safeGenerate st e mdl prompt =
        (Inl (AiError ''AI is busy. Please wait 60 seconds and try again.''),
         st1\<lparr>globalCooldownUntil := failedAt e + 60000\<rparr>,
         [GenerateContent mdl prompt
            ''You are a concise biblical expert. Provide direct answers without filler.''])) \<and>
   (globalCooldownUntil st = failed + 60000 \<and> failed + 60000 \<le> now e \<and>
    getAiInstance st e = Inr st1 \<longrightarrow>
      snd (snd (safeGenerate st e mdl prompt)) =
        [GenerateContent mdl prompt
           ''You are a concise biblical expert. Provide direct answers without filler.''] \<and>
      (remote e (GenerateContent mdl prompt
          ''You are a concise biblical expert. Provide direct answers without filler.'') = Text txt \<longrightarrow>
         safeGenerate st e mdl prompt =
           (Inr txt, st1,
            [GenerateContent mdl prompt
               ''You are a concise biblical expert. Provide direct answers without filler.''])))"
proof (intro conjI impI)
  assume c: "now e < globalCooldownUntil st"
  from c show "safeGenerate st e mdl prompt =
        (Inl (AiError (cooldownMessage (ceilSeconds (globalCooldownUntil st - nowAgain e)))), st, [])"
    by (rule safeGenerate_cooling)
  from c show "sendMessageToBot st e msg ''gemini-2.5-flash'' =
        (\<lparr>BotReply.text' = cooldownMessage (ceilSeconds (globalCooldownUntil st - nowAgain e)),
          sources = []\<rparr>, st, [])"
    by (simp add: sendMessageToBot_def safeGenerate_cooling errorReply_def cooldownMessage_nonempty)
  from c show "searchBibleByKeyword st e keyword = ([], st, [])"
    by (simp add: searchBibleByKeyword_def safeGenerate_cooling)
  from assms show "exactInteger (ceilSeconds (globalCooldownUntil st - nowAgain e))"
    by (simp add: exactClock_def ceilSeconds_exact)
  show "1 \<le> ceilSeconds (globalCooldownUntil st - nowAgain e) \<longleftrightarrow>
         nowAgain e < globalCooldownUntil st"
    by (simp add: ceilSeconds_pos)
  {
    assume "exactInteger (VerseReference.chapter' verseRef) \<and>
       exactInteger (VerseReference.verse verseRef) \<and>
       verseCache st (cacheKey verseRef t) = None"
    with c show "getVerseAnalysis st e verseRef t =
           (Inl (AiError (cooldownMessage (ceilSeconds (globalCooldownUntil st - nowAgain e)))), st, [])"
      by (simp add: getVerseAnalysis_def safeGenerate_cooling)
  }
  {
    assume "globalCooldownUntil st = failed + 60000 \<and> failed \<le> nowAgain e"
    then show "ceilSeconds (globalCooldownUntil st - nowAgain e) \<le> 60"
      by (intro ceilSeconds_le) simp
  }
next
  assume "\<not> now e < globalCooldownUntil st \<and> getAiInstance st e = Inr st1 \<and>
    remote e (GenerateContent mdl prompt
       ''You are a concise biblical expert. Provide direct answers without filler.'') = Failure (Some m) \<and>
    (includes' m ''429'' \<or> includes' m ''RESOURCE_EXHAUSTED'')"
  then show "safeGenerate st e mdl prompt =
        (Inl (AiError ''AI is busy. Please wait 60 seconds and try again.''),
         st1\<lparr>globalCooldownUntil := failedAt e + 60000\<rparr>,
         [GenerateContent mdl prompt
            ''You are a concise biblical expert. Provide direct answers without filler.''])"
    using safeGenerate_quota by blast
next
  assume a: "globalCooldownUntil st = failed + 60000 \<and> failed + 60000 \<le> now e \<and>
    getAiInstance st e = Inr st1"
  then show "snd (snd (safeGenerate st e mdl prompt)) =
        [GenerateContent mdl prompt
           ''You are a concise biblical expert. Provide direct answers without filler.'']"
    using safeGenerate_open_sent [of st e st1 mdl prompt] by simp
  assume "remote e (GenerateContent mdl prompt
          ''You are a concise biblical expert. Provide direct answers without filler.'') = Text txt"
  with a show "safeGenerate st e mdl prompt =
           (Inr txt, st1,
            [GenerateContent mdl prompt
               ''You are a concise biblical expert. Provide direct answers without filler.''])"
    using safeGenerate_open_text [of st e st1 mdl prompt "txt"] by simp
qed

theorem cooldown_of_safeGenerate_witness:
  "safeGenerate sampleGateway (sampleEnv 0 (Failure (Some ''429 Too Many Requests''))) ''m'' ''p'' =
     (Inl (AiError ''AI is busy. Please wait 60 seconds and try again.''), coolingGateway,
      [GenerateContent ''m'' ''p''
         ''You are a concise biblical expert. Provide direct answers without filler.'']) \<and>
   safeGenerate coolingGateway (sampleEnv 1000 (Text ''hello'')) ''m'' ''p'' =
     (Inl (AiError ''AI cooling down. Try again in 60s.''), coolingGateway, []) \<and>
   searchBibleByKeyword coolingGateway (sampleEnv 1000 (Text ''hello'')) ''love'' =
     ([], coolingGateway, []) \<and>
   safeGenerate coolingGateway tickingEnv ''m'' ''p'' =
     (Inl (AiError ''AI cooling down. Try again in 0s.''), coolingGateway, []) \<and>
   safeGenerate coolingGateway (sampleEnv 61000 (Text ''hello'')) ''m'' ''p'' =
     (Inr ''hello'', coolingGateway,
      [GenerateContent ''m'' ''p''
         ''You are a concise biblical expert. Provide direct answers without filler.''])"
proof -
  have "safeGenerate sampleGateway (sampleEnv 0 (Failure (Some ''429 Too Many Requests''))) ''m'' ''p'' =
     (Inl (AiError ''AI is busy. Please wait 60 seconds and try again.''), coolingGateway,
      [GenerateContent ''m'' ''p''
         ''You are a concise biblical expert. Provide direct answers without filler.''])"
    using cooldown_of_safeGenerate [OF sample_exactClock(1),
        of "Failure (Some ''429 Too Many Requests'')"
        "''m''" "''p''" "''q''" sampleVerseRef HistoricalContext "''love''" 0
        "sampleGateway\<lparr>ai := True\<rparr>" "''429 Too Many Requests''" "''hello''"]
      sample_getAi(1) [of 0 "Failure (Some ''429 Too Many Requests'')"] sample_cooling
    by (simp add: sampleEnv_def sampleGateway_def)
  moreover have "safeGenerate coolingGateway (sampleEnv 1000 (Text ''hello'')) ''m'' ''p'' =
     (Inl (AiError ''AI cooling down. Try again in 60s.''), coolingGateway, []) \<and>
     searchBibleByKeyword coolingGateway (sampleEnv 1000 (Text ''hello'')) ''love'' =
     ([], coolingGateway, [])"
    using cooldown_of_safeGenerate [OF sample_exactClock(2), of "Text ''hello''"
        "''m''" "''p''" "''q''" sampleVerseRef HistoricalContext "''love''" 1000
        coolingGateway "''x''" "''hello''"]
    by (simp add: sampleEnv_def coolingGateway_def cooldownMessage_def ceilSeconds_def sample_sixty)
  moreover have "safeGenerate coolingGateway tickingEnv ''m'' ''p'' =
     (Inl (AiError ''AI cooling down. Try again in 0s.''), coolingGateway, [])"
    using cooldown_of_safeGenerate [OF sample_exactClock(4),
        of "''m''" "''p''" "''q''" sampleVerseRef HistoricalContext "''love''" 1000
        coolingGateway "''x''" "''hello''"]
    by (simp add: tickingEnv_def coolingGateway_def cooldownMessage_def ceilSeconds_def sample_zero)
  moreover have "safeGenerate coolingGateway (sampleEnv 61000 (Text ''hello'')) ''m'' ''p'' =
     (Inr ''hello'', coolingGateway,
      [GenerateContent ''m'' ''p''
         ''You are a concise biblical expert. Provide direct answers without filler.''])"
    using cooldown_of_safeGenerate [OF sample_exactClock(3), of "Text ''hello''"
        "''m''" "''p''" "''q''" sampleVerseRef HistoricalContext "''love''" 1000
        coolingGateway "''x''" "''hello''"]
      sample_getAi(2) [of 61000 "Text ''hello''"]
    by (simp add: sampleEnv_def coolingGateway_def)
  ultimately show ?thesis by blast
qed


section \<open>Chat sessions\<close>

lemma getChat_new:
  "chatInstances st mode = None \<Longrightarrow> getAiInstance st e = Inr st1 \<Longrightarrow>
   getChat st e mode =
     Inr (\<lparr>model = mode,
           systemInstruction = ''You are an expert Bible scholar. Be precise, deep, and context-rich.'',
           config = []\<rparr>,
          st1\<lparr>chatInstances := (chatInstances st1)(mode \<mapsto>
            \<lparr>model = mode,
             systemInstruction = ''You are an expert Bible scholar. Be precise, deep, and context-rich.'',
             config = []\<rparr>)\<rparr>)"
  by (simp add: getChat_def Let_def)

lemma getChat_old:
  "chatInstances st mode = Some chat \<Longrightarrow> getChat st e mode = Inr (chat, st)"
  by (simp add: getChat_def)

lemma getAiInstance_chats:
  "getAiInstance st e = Inr st1 \<Longrightarrow> chatInstances st1 = chatInstances st"
  by (auto simp: getAiInstance_def split: if_splits option.splits)

lemma sendMessageToBot_chats:
  assumes "sendMessageToBot st e msg mode = (reply, st', sent)"
  shows "(\<forall>m'. m' \<noteq> mode \<longrightarrow> chatInstances st' m' = chatInstances st m') \<and>
         (chatInstances st mode \<noteq> None \<longrightarrow> chatInstances st' = chatInstances st)"
proof (cases "mode = ''gemini-2.5-flash''")
  case True
  with assms have "chatInstances st' = chatInstances st"
    by (auto simp: sendMessageToBot_def safeGenerate_def handleQuota_def Let_def
        split: if_splits sum.splits prod.splits reply.splits dest: getAiInstance_chats)
  then show ?thesis by simp
next
  case False
  with assms show ?thesis
    by (auto simp: sendMessageToBot_def getChat_def Let_def
        split: if_splits sum.splits prod.splits reply.splits option.splits
        dest: getAiInstance_chats)
qed


text \<open>
  C2, as stated: in every mode a chat message is a turn in the session of that mode, which
  was created with a system instruction of its own. In the mode \<open>gemini-2.5-flash\<close> the
  message is a single \<open>generateContent\<close> request and no session is created, and the
  sessions of two other modes are created with the same system instruction.
\<close>

theorem flash_tier_has_no_session:
  "sendMessageToBot sampleGateway (sampleEnv 0 (Text ''hello'')) ''question'' ''gemini-2.5-flash'' =
     (\<lparr>BotReply.text' = ''hello'', sources = []\<rparr>, sampleGateway\<lparr>ai := True\<rparr>,
      [GenerateContent ''gemini-2.5-flash'' ''question''
         ''You are a concise biblical expert. Provide direct answers without filler.'']) \<and>
   chatInstances (sampleGateway\<lparr>ai := True\<rparr>) ''gemini-2.5-flash'' = None \<and>
   map_option systemInstruction
     (chatInstances
        (fst (snd (sendMessageToBot sampleGateway (sampleEnv 0 (Text ''hello'')) ''question''
                     ''gemini-2.5-pro'')))
        ''gemini-2.5-pro'') =
   map_option systemInstruction
     (chatInstances
        (fst (snd (sendMessageToBot sampleGateway (sampleEnv 0 (Text ''hello'')) ''question''
                     ''gemini-2.5-flash-lite'')))
        ''gemini-2.5-flash-lite'')"
  by (simp add: sendMessageToBot_def safeGenerate_def getChat_def getAiInstance_def
      sampleGateway_def sampleEnv_def Let_def)

text \<open>
  C2, amended. In every mode other than \<open>gemini-2.5-flash\<close>: when the mode has no session
  yet (and a client handle exists or can be created), \<open>sendMessageToBot\<close> creates one with
  the mode as model, the system instruction \<open>You are an expert Bible scholar. Be precise,
  deep, and context-rich.\<close> (the same text for every mode) and no other configuration,
  stores it under the mode and sends the message through it; when the mode has a session,
  the message is sent through that session and the state does not change. No call changes
  the session of another mode or replaces an existing session. A call in the mode
  \<open>gemini-2.5-flash\<close> leaves the sessions as they are and sends no chat message.
\<close>

theorem chat_session_per_mode:
  "(mode \<noteq> ''gemini-2.5-flash'' \<longrightarrow>
      (chatInstances st mode = None \<and> getAiInstance st e = Inr st1 \<longrightarrow>
         sendMessageToBot st e msg mode =
           ((case remote e (SendMessage
                   \<lparr>model = mode,
                    systemInstruction =
                      ''You are an expert Bible scholar. Be precise, deep, and context-rich.'',
                    config = []\<rparr> msg) of
               Text t \<Rightarrow> \<lparr>BotReply.text' = t, sources = []\<rparr>
             | Failure m \<Rightarrow> errorReply (Upstream m)),
            st1\<lparr>chatInstances := (chatInstances st1)(mode \<mapsto>
                  \<lparr>model = mode,
                   systemInstruction =
                     ''You are an expert Bible scholar. Be precise, deep, and context-rich.'',
                   config = []\<rparr>)\<rparr>,
            [SendMessage
               \<lparr>model = mode,
                systemInstruction =
                  ''You are an expert Bible scholar. Be precise, deep, and context-rich.'',
                config = []\<rparr> msg])) \<and>
      (chatInstances st mode = Some chat \<longrightarrow>
         sendMessageToBot st e msg mode =
           ((case remote e (SendMessage chat msg) of
               Text t \<Rightarrow> \<lparr>BotReply.text' = t, sources = []\<rparr>
             | Failure m \<Rightarrow> errorReply (Upstream m)),
            st, [SendMessage chat msg]))) \<and>
   (sendMessageToBot st e msg mode = (reply, st', sent) \<longrightarrow>
      (\<forall>m'. m' \<noteq> mode \<longrightarrow> chatInstances st' m' = chatInstances st m') \<and>
      (chatInstances st mode \<noteq> None \<longrightarrow> chatInstances st' = chatInstances st)) \<and>
   (sendMessageToBot st e msg ''gemini-2.5-flash'' = (reply, st', sent) \<longrightarrow>
      chatInstances st' = chatInstances st \<and> (\<forall>c m. SendMessage c m \<notin> set sent))"
proof (intro conjI impI)
  assume m: "mode \<noteq> ''gemini-2.5-flash''"
  {
    assume "chatInstances st mode = None \<and> getAiInstance st e = Inr st1"
    then have "getChat st e mode =
      Inr (\<lparr>model = mode,
           systemInstruction = ''You are an expert Bible scholar. Be precise, deep, and context-rich.'',
           config = []\<rparr>,
          st1\<lparr>chatInstances := (chatInstances st1)(mode \<mapsto>
            \<lparr>model = mode,
             systemInstruction = ''You are an expert Bible scholar. Be precise, deep, and context-rich.'',
             config = []\<rparr>)\<rparr>)"
      by (simp add: getChat_new)
    with m show "sendMessageToBot st e msg mode =
           ((case remote e (SendMessage
                   \<lparr>model = mode,
                    systemInstruction =
                      ''You are an expert Bible scholar. Be precise, deep, and context-rich.'',
                    config = []\<rparr> msg) of
               Text t \<Rightarrow> \<lparr>BotReply.text' = t, sources = []\<rparr>
             | Failure m \<Rightarrow> errorReply (Upstream m)),
            st1\<lparr>chatInstances := (chatInstances st1)(mode \<mapsto>
                  \<lparr>model = mode,
                   systemInstruction =
                     ''You are an expert Bible scholar. Be precise, deep, and context-rich.'',
                   config = []\<rparr>)\<rparr>,
            [SendMessage
               \<lparr>model = mode,
                systemInstruction =
                  ''You are an expert Bible scholar. Be precise, deep, and context-rich.'',
                config = []\<rparr> msg])"
      by (simp add: sendMessageToBot_def split: reply.splits)
  }
  {
    assume "chatInstances st mode = Some chat"
    then have "getChat st e mode = Inr (chat, st)" by (rule getChat_old)
    with m show "sendMessageToBot st e msg mode =
           ((case remote e (SendMessage chat msg) of
               Text t \<Rightarrow> \<lparr>BotReply.text' = t, sources = []\<rparr>
             | Failure m \<Rightarrow> errorReply (Upstream m)),
            st, [SendMessage chat msg])"
      by (simp add: sendMessageToBot_def split: reply.splits)
  }
next
  assume a: "sendMessageToBot st e msg mode = (reply, st', sent)"
  from sendMessageToBot_chats [OF a]
  show "\<forall>m'. m' \<noteq> mode \<longrightarrow> chatInstances st' m' = chatInstances st m'" by blast
  assume "chatInstances st mode \<noteq> None"
  with sendMessageToBot_chats [OF a] show "chatInstances st' = chatInstances st" by blast
next
  assume a: "sendMessageToBot st e msg ''gemini-2.5-flash'' = (reply, st', sent)"
  then show "chatInstances st' = chatInstances st"
    by (auto simp: sendMessageToBot_def safeGenerate_def handleQuota_def Let_def
        split: if_splits sum.splits prod.splits reply.splits dest: getAiInstance_chats)
  from a show "\<forall>c m. SendMessage c m \<notin> set sent"
    by (auto simp: sendMessageToBot_def split: sum.splits prod.splits dest: safeGenerate_sent)
qed

theorem chat_session_per_mode_witness:
  "sendMessageToBot sampleGateway (sampleEnv 0 (Text ''hello'')) ''question'' ''gemini-2.5-pro'' =
     (\<lparr>BotReply.text' = ''hello'', sources = []\<rparr>,
      sampleGateway\<lparr>ai := True, chatInstances := [''gemini-2.5-pro'' \<mapsto> proChat]\<rparr>,
      [SendMessage proChat ''question'']) \<and>
   sendMessageToBot (sampleGateway\<lparr>ai := True, chatInstances := [''gemini-2.5-pro'' \<mapsto> proChat]\<rparr>)
       (sampleEnv 5 (Text ''again'')) ''more'' ''gemini-2.5-pro'' =
     (\<lparr>BotReply.text' = ''again'', sources = []\<rparr>,
      sampleGateway\<lparr>ai := True, chatInstances := [''gemini-2.5-pro'' \<mapsto> proChat]\<rparr>,
      [SendMessage proChat ''more''])"
proof -
  have "sendMessageToBot sampleGateway (sampleEnv 0 (Text ''hello'')) ''question'' ''gemini-2.5-pro'' =
     (\<lparr>BotReply.text' = ''hello'', sources = []\<rparr>,
      sampleGateway\<lparr>ai := True, chatInstances := [''gemini-2.5-pro'' \<mapsto> proChat]\<rparr>,
      [SendMessage proChat ''question''])"
    using chat_session_per_mode [of "''gemini-2.5-pro''" sampleGateway "sampleEnv 0 (Text ''hello'')"
        "sampleGateway\<lparr>ai := True\<rparr>" "''question''" proChat]
      sample_getAi(1) [of 0 "Text ''hello''"]
    by (simp add: sampleGateway_def sampleEnv_def proChat_def)
  moreover
  have "sendMessageToBot (sampleGateway\<lparr>ai := True, chatInstances := [''gemini-2.5-pro'' \<mapsto> proChat]\<rparr>)
       (sampleEnv 5 (Text ''again'')) ''more'' ''gemini-2.5-pro'' =
     (\<lparr>BotReply.text' = ''again'', sources = []\<rparr>,
      sampleGateway\<lparr>ai := True, chatInstances := [''gemini-2.5-pro'' \<mapsto> proChat]\<rparr>,
      [SendMessage proChat ''more''])"
    using chat_session_per_mode [of "''gemini-2.5-pro''"
        "sampleGateway\<lparr>ai := True, chatInstances := [''gemini-2.5-pro'' \<mapsto> proChat]\<rparr>"
        "sampleEnv 5 (Text ''again'')" sampleGateway "''more''" proChat]
    by (simp add: sampleGateway_def sampleEnv_def proChat_def)
  ultimately show ?thesis by blast
qed



section \<open>Character classes\<close>

lemma toLowerChar_isLetter: "isLetter (toLowerChar c) = isLetter c"
  by (auto simp: toLowerChar_def isLetter_def Let_def)

lemma toLowerChar_isDigit: "isDigit (toLowerChar c) = isDigit c"
  by (auto simp: toLowerChar_def isDigit_def Let_def)

lemma toLowerChar_isSpace: "isSpace (toLowerChar c) = isSpace c"
  by (auto simp: toLowerChar_def isSpace_def Let_def)

lemma letter_not_digit: "isLetter c \<Longrightarrow> \<not> isDigit c"
  by (auto simp: isLetter_def isDigit_def Let_def)

lemma letter_not_space: "isLetter c \<Longrightarrow> \<not> isSpace c"
  by (auto simp: isLetter_def isSpace_def Let_def)

lemma digit_not_space: "isDigit c \<Longrightarrow> \<not> isSpace c"
  by (auto simp: isDigit_def isSpace_def Let_def)

lemma punctuation_classes:
  "\<not> isDigit (CHR '':'')" "\<not> isDigit (CHR ''-'')" "isSpace (CHR '' '')" "\<not> isDigit (CHR '' '')"
  "\<not> isLetter (CHR '' '')"
  by (simp_all add: isDigit_def isSpace_def isLetter_def)


section \<open>The pattern on a reference\<close>

lemma greedy_longest:
  "list_all P xs \<Longrightarrow> rest = [] \<or> \<not> P (hd rest) \<Longrightarrow> k (acc @ xs) rest = Some r \<Longrightarrow>
   greedy P acc (xs @ rest) k = Some r"
proof (induction xs arbitrary: acc)
  case Nil
  then show ?case by (cases rest) auto
next
  case (Cons x xs)
  from Cons.prems have "greedy P (acc @ [x]) (xs @ rest) k = Some r"
    by (intro Cons.IH) auto
  with Cons.prems show ?case by simp
qed

lemma greedy_none:
  "rest = [] \<or> \<not> P (hd rest) \<Longrightarrow> k acc rest = None \<Longrightarrow> greedy P acc rest k = k acc rest"
  by (cases rest) auto

lemma greedy_back_one:
  "list_all P xs \<Longrightarrow> P x \<Longrightarrow> rest = [] \<or> \<not> P (hd rest) \<Longrightarrow>
   k (acc @ xs @ [x]) rest = None \<Longrightarrow> k (acc @ xs) (x # rest) = Some r \<Longrightarrow>
   greedy P acc (xs @ x # rest) k = Some r"
proof (induction xs arbitrary: acc)
  case Nil
  then have "greedy P (acc @ [x]) rest k = None"
    by (cases rest) auto
  with Nil show ?case by simp
next
  case (Cons y ys)
  from Cons.prems have "greedy P (acc @ [y]) (ys @ x # rest) k = Some r"
    by (intro Cons.IH) auto
  with Cons.prems show ?case by simp
qed

lemma greedy1_longest:
  "xs \<noteq> [] \<Longrightarrow> list_all P xs \<Longrightarrow> rest = [] \<or> \<not> P (hd rest) \<Longrightarrow> k xs rest = Some r \<Longrightarrow>
   greedy1 P (xs @ rest) k = Some r"
  using greedy_longest [of P "tl xs" rest k "[hd xs]" r]
  by (cases xs) (auto simp: greedy1_def)

lemma greedy1_back_one:
  "xs \<noteq> [] \<Longrightarrow> list_all P xs \<Longrightarrow> P x \<Longrightarrow> rest = [] \<or> \<not> P (hd rest) \<Longrightarrow>
   k (xs @ [x]) rest = None \<Longrightarrow> k xs (x # rest) = Some r \<Longrightarrow>
   greedy1 P (xs @ x # rest) k = Some r"
  using greedy_back_one [of P "tl xs" x rest k "[hd xs]" r]
  by (cases xs) (auto simp: greedy1_def)

lemma greedy1_fails: "s = [] \<or> \<not> P (hd s) \<Longrightarrow> greedy1 P s k = None"
  by (cases s) (auto simp: greedy1_def)

lemma rangeTail_cases:
  "rangeTail [] = None"
  "W \<noteq> [] \<Longrightarrow> list_all isDigit W \<Longrightarrow> rangeTail (CHR ''-'' # W) = Some W"
  using greedy1_longest [of W isDigit "[]" "\<lambda>w rest. Some w" W]
  by (simp_all add: rangeTail_def)

lemma afterGroup2_reference:
  assumes L: "L \<noteq> []" "list_all (\<lambda>c. isLetter c \<or> isSpace c) L"
      and C: "C \<noteq> []" "list_all isDigit C"
      and V: "V \<noteq> []" "list_all isDigit V"
      and t: "t = [] \<or> \<not> isDigit (hd t)"
  shows "afterGroup2 g2 (L @ CHR '' '' # C @ CHR '':'' # V @ t) =
           Some \<lparr>group1 = g2 @ L, group3 = C, group4 = V, group5 = rangeTail t\<rparr>"
proof -
  define m where "m = \<lparr>group1 = g2 @ L, group3 = C, group4 = V, group5 = rangeTail t\<rparr>"
  define k4 where "k4 = (\<lambda>l c3 c4 s6. Some \<lparr>group1 = g2 @ l, group3 = c3, group4 = c4,
      group5 = rangeTail s6\<rparr>)"
  define k3 where "k3 = (\<lambda>l c3 s4. (case s4 of [] \<Rightarrow> None
            | x # s5 \<Rightarrow> if x = CHR '':'' then greedy1 isDigit s5 (k4 l c3) else None))"
  define k2 where "k2 = (\<lambda>l. \<lambda>spaces :: string. \<lambda>s3. greedy1 isDigit s3 (k3 l))"
  define k1 where "k1 = (\<lambda>l s2. greedy1 isSpace s2 (k2 l))"
  define D where "D = C @ CHR '':'' # V @ t"
  have ag: "afterGroup2 g2 s = greedy1 (\<lambda>c. isLetter c \<or> isSpace c) s k1" for s
    unfolding afterGroup2_def k1_def k2_def k3_def k4_def by (rule refl)
  have hdD: "D \<noteq> []" "isDigit (hd D)"
    using C by (cases C; simp add: D_def)+
  have "k4 L C V t = Some m" by (simp add: k4_def m_def)
  with V t have v: "greedy1 isDigit (V @ t) (k4 L C) = Some m"
    by (rule greedy1_longest [of V isDigit t "k4 L C" m])
  then have "k3 L C (CHR '':'' # V @ t) = Some m" by (simp add: k3_def)
  with C have c: "greedy1 isDigit (C @ CHR '':'' # V @ t) (k3 L) = Some m"
    by (intro greedy1_longest [of C isDigit "CHR '':'' # V @ t" "k3 L" m])
      (simp_all add: punctuation_classes)
  then have "k2 L [CHR '' ''] D = Some m" by (simp add: k2_def D_def)
  with hdD have "greedy1 isSpace ([CHR '' ''] @ D) (k2 L) = Some m"
    by (intro greedy1_longest [of "[CHR '' '']" isSpace D "k2 L" m])
      (simp_all add: punctuation_classes digit_not_space)
  then have one: "k1 L (CHR '' '' # D) = Some m" by (simp add: k1_def)
  from hdD have "greedy1 isSpace D (k2 (L @ [CHR '' ''])) = None"
    by (intro greedy1_fails) (simp add: digit_not_space)
  then have two: "k1 (L @ [CHR '' '']) D = None" by (simp add: k1_def)
  from hdD have three: "D = [] \<or> \<not> (isLetter (hd D) \<or> isSpace (hd D))"
    using letter_not_digit digit_not_space by blast
  from L three two one
  have "greedy1 (\<lambda>c. isLetter c \<or> isSpace c) (L @ CHR '' '' # D) k1 = Some m"
    by (intro greedy1_back_one [of L "\<lambda>c. isLetter c \<or> isSpace c" "CHR '' ''" D k1 m])
      (simp_all add: punctuation_classes)
  then show ?thesis by (simp add: ag D_def m_def)
qed


lemma referenceRegexAt_reference:
  assumes B: "bookShape B" "B \<noteq> []" "\<not> isSpace (hd B)" "\<exists>c\<in>set B. isLetter c"
      and C: "C \<noteq> []" "list_all isDigit C"
      and V: "V \<noteq> []" "list_all isDigit V"
      and t: "t = [] \<or> \<not> isDigit (hd t)"
  shows "referenceRegexAt (B @ CHR '' '' # C @ CHR '':'' # V @ t) =
           Some \<lparr>group1 = B, group3 = C, group4 = V, group5 = rangeTail t\<rparr>"
proof -
  define m where "m = \<lparr>group1 = B, group3 = C, group4 = V, group5 = rangeTail t\<rparr>"
  define rest where "rest = CHR '' '' # C @ CHR '':'' # V @ t"
  from B obtain c cs where Bc: "B = c # cs" by (cases B) auto
  with B have c: "isDigit c \<or> isLetter c" and cs: "list_all (\<lambda>x. isLetter x \<or> isSpace x) cs"
    by (auto simp: bookShape_def)
  show ?thesis
  proof (cases "isDigit c")
    case False
    with c have "isLetter c" by simp
    with cs Bc have "list_all (\<lambda>x. isLetter x \<or> isSpace x) B" by simp
    with B C V t have "afterGroup2 [] (B @ CHR '' '' # C @ CHR '':'' # V @ t) =
        Some \<lparr>group1 = [] @ B, group3 = C, group4 = V, group5 = rangeTail t\<rparr>"
      by (intro afterGroup2_reference) auto
    with False Bc show ?thesis by (simp add: referenceRegexAt_def)
  next
    case True
    then have "\<not> isLetter c" using letter_not_digit by blast
    with B Bc obtain x where x: "x \<in> set cs" "isLetter x" by auto
    define w0 where "w0 = takeWhile isSpace cs"
    define L where "L = dropWhile isSpace cs"
    have split: "cs = w0 @ L" by (simp add: w0_def L_def)
    from x have "\<not> isSpace x" using letter_not_space by blast
    with x have L: "L \<noteq> []" by (auto simp: L_def dropWhile_eq_Nil_conv)
    from cs have "list_all (\<lambda>x. isLetter x \<or> isSpace x) L"
      unfolding L_def list_all_iff using set_dropWhileD by fast
    with L C V t have "afterGroup2 ([c] @ w0) (L @ CHR '' '' # C @ CHR '':'' # V @ t) =
        Some \<lparr>group1 = ([c] @ w0) @ L, group3 = C, group4 = V, group5 = rangeTail t\<rparr>"
      by (intro afterGroup2_reference) auto
    then have k: "afterGroup2 ([c] @ w0) (L @ rest) = Some m"
      by (simp add: m_def Bc split rest_def)
    have w0: "list_all isSpace w0" by (simp add: w0_def list_all_iff) (meson set_takeWhileD)
    from L have "\<not> isSpace (hd (L @ rest))" unfolding L_def
      by (simp add: hd_dropWhile)
    with w0 k have "greedy isSpace [c] (w0 @ (L @ rest)) afterGroup2 = Some m"
      by (intro greedy_longest [of isSpace w0 "L @ rest" afterGroup2 "[c]" m]) auto
    with True show ?thesis
      by (simp add: referenceRegexAt_def Bc split rest_def m_def)
  qed
qed

lemma referenceRegex_reference:
  assumes "bookShape B" "B \<noteq> []" "\<not> isSpace (hd B)" "\<exists>c\<in>set B. isLetter c"
      and "C \<noteq> []" "list_all isDigit C" "V \<noteq> []" "list_all isDigit V"
      and "t = [] \<or> \<not> isDigit (hd t)"
  shows "referenceRegex (B @ CHR '' '' # C @ CHR '':'' # V @ t) =
           Some \<lparr>group1 = B, group3 = C, group4 = V, group5 = rangeTail t\<rparr>"
  using referenceRegexAt_reference [OF assms] assms(2)
  by (cases B) auto


section \<open>Segments\<close>

lemma splitSeparators_nonempty: "splitSeparators s \<noteq> []"
  by (induction s) (auto split: list.splits)

lemma splitSeparators_single:
  "\<forall>c\<in>set s. c \<noteq> CHR '','' \<and> c \<noteq> CHR '';'' \<Longrightarrow> splitSeparators s = [s]"
  by (induction s) auto

lemma splitSeparators_append:
  "sep = CHR '','' \<or> sep = CHR '';'' \<Longrightarrow>
   splitSeparators (a @ sep # b) = splitSeparators a @ splitSeparators b"
proof (induction a)
  case Nil
  then show ?case by auto
next
  case (Cons c a)
  then show ?case
    using splitSeparators_nonempty [of a]
    by (cases "splitSeparators a") auto
qed

lemma parsePart_acc: "parsePart table acc part = acc @ parsePart table [] part"
  by (simp add: parsePart_def Let_def split: option.splits)

lemma foldl_parsePart:
  "foldl (parsePart table) acc parts = acc @ concat (map (parsePart table []) parts)"
proof (induction parts arbitrary: acc)
  case Nil
  then show ?case by simp
next
  case (Cons p ps)
  show ?case
    using Cons.IH [of "parsePart table acc p"] parsePart_acc [of table acc p] by simp
qed

lemma parse_concat:
  "parseReferencesFromString table s = concat (map (parsePart table []) (splitSeparators s))"
  by (simp add: parseReferencesFromString_def foldl_parsePart)

lemma parse_append:
  "sep = CHR '','' \<or> sep = CHR '';'' \<Longrightarrow>
   parseReferencesFromString table (a @ sep # b) =
     parseReferencesFromString table a @ parseReferencesFromString table b"
  by (simp add: parse_concat splitSeparators_append)

lemma parsePart_length: "length (parsePart table [] part) \<le> 1"
  by (simp add: parsePart_def Let_def split: option.splits)

section \<open>The tables, evaluated\<close>

text \<open>
  The lower-cased names and keys as literal lists, computed once, and the facts about
  them that the resolution lemmas use.
\<close>

lemma char_of_eq: "char_of (n::nat) = c \<longleftrightarrow> n mod 256 = of_char c"
  by (auto simp: char_of_eq_iff take_bit_eq_mod)

lemma char_eq_of: "c = char_of (n::nat) \<longleftrightarrow> n mod 256 = of_char c"
  using char_of_eq [of n c] by auto

lemmas string_eval = toLowerCase_def toLowerChar_def char_of_eq char_eq_of removeWhitespace_def
  isSpace_def isDigit_def isLetter_def Let_def

lemma bookNames_eval:
  "bookNames =
     [''Genesis'', ''Exodus'', ''Leviticus'', ''Numbers'', ''Deuteronomy'', ''Joshua'',
     ''Judges'', ''Ruth'', ''1 Samuel'', ''2 Samuel'', ''1 Kings'', ''2 Kings'',
     ''1 Chronicles'', ''2 Chronicles'', ''Ezra'', ''Nehemiah'', ''Esther'', ''Job'',
     ''Psalms'', ''Proverbs'', ''Ecclesiastes'', ''Song of Solomon'', ''Isaiah'',
     ''Jeremiah'', ''Lamentations'', ''Ezekiel'', ''Daniel'', ''Hosea'', ''Joel'',
     ''Amos'', ''Obadiah'', ''Jonah'', ''Micah'', ''Nahum'', ''Habakkuk'', ''Zephaniah'',
     ''Haggai'', ''Zechariah'', ''Malachi'', ''Matthew'', ''Mark'', ''Luke'', ''John'',
     ''Acts'', ''Romans'', ''1 Corinthians'', ''2 Corinthians'', ''Galatians'',
     ''Ephesians'', ''Philippians'', ''Colossians'', ''1 Thessalonians'',
     ''2 Thessalonians'', ''1 Timothy'', ''2 Timothy'', ''Titus'', ''Philemon'',
     ''Hebrews'', ''James'', ''1 Peter'', ''2 Peter'', ''1 John'', ''2 John'', ''3 John'',
     ''Jude'', ''Revelation'']"
  by (simp add: bookNames_def bookNameToAbbreviation_def)

lemma lowerNames_eval:
  "map toLowerCase bookNames =
     [''genesis'', ''exodus'', ''leviticus'', ''numbers'', ''deuteronomy'', ''joshua'',
     ''judges'', ''ruth'', ''1 samuel'', ''2 samuel'', ''1 kings'', ''2 kings'',
     ''1 chronicles'', ''2 chronicles'', ''ezra'', ''nehemiah'', ''esther'', ''job'',
     ''psalms'', ''proverbs'', ''ecclesiastes'', ''song of solomon'', ''isaiah'',
     ''jeremiah'', ''lamentations'', ''ezekiel'', ''daniel'', ''hosea'', ''joel'',
     ''amos'', ''obadiah'', ''jonah'', ''micah'', ''nahum'', ''habakkuk'', ''zephaniah'',
     ''haggai'', ''zechariah'', ''malachi'', ''matthew'', ''mark'', ''luke'', ''john'',
     ''acts'', ''romans'', ''1 corinthians'', ''2 corinthians'', ''galatians'',
     ''ephesians'', ''philippians'', ''colossians'', ''1 thessalonians'',
     ''2 thessalonians'', ''1 timothy'', ''2 timothy'', ''titus'', ''philemon'',
     ''hebrews'', ''james'', ''1 peter'', ''2 peter'', ''1 john'', ''2 john'', ''3 john'',
     ''jude'', ''revelation'']"
  by (simp add: bookNames_def bookNameToAbbreviation_def string_eval)

lemma nameKeys_eval:
  "map (\<lambda>f. (removeWhitespace (toLowerCase f), f)) bookNames =
     [(''genesis'', ''Genesis''), (''exodus'', ''Exodus''), (''leviticus'', ''Leviticus''),
     (''numbers'', ''Numbers''), (''deuteronomy'', ''Deuteronomy''),
     (''joshua'', ''Joshua''), (''judges'', ''Judges''), (''ruth'', ''Ruth''),
     (''1samuel'', ''1 Samuel''), (''2samuel'', ''2 Samuel''), (''1kings'', ''1 Kings''),
     (''2kings'', ''2 Kings''), (''1chronicles'', ''1 Chronicles''),
     (''2chronicles'', ''2 Chronicles''), (''ezra'', ''Ezra''),
     (''nehemiah'', ''Nehemiah''), (''esther'', ''Esther''), (''job'', ''Job''),
     (''psalms'', ''Psalms''), (''proverbs'', ''Proverbs''),
     (''ecclesiastes'', ''Ecclesiastes''), (''songofsolomon'', ''Song of Solomon''),
     (''isaiah'', ''Isaiah''), (''jeremiah'', ''Jeremiah''),
     (''lamentations'', ''Lamentations''), (''ezekiel'', ''Ezekiel''),
     (''daniel'', ''Daniel''), (''hosea'', ''Hosea''), (''joel'', ''Joel''),
     (''amos'', ''Amos''), (''obadiah'', ''Obadiah''), (''jonah'', ''Jonah''),
     (''micah'', ''Micah''), (''nahum'', ''Nahum''), (''habakkuk'', ''Habakkuk''),
     (''zephaniah'', ''Zephaniah''), (''haggai'', ''Haggai''),
     (''zechariah'', ''Zechariah''), (''malachi'', ''Malachi''),
     (''matthew'', ''Matthew''), (''mark'', ''Mark''), (''luke'', ''Luke''),
     (''john'', ''John''), (''acts'', ''Acts''), (''romans'', ''Romans''),
     (''1corinthians'', ''1 Corinthians''), (''2corinthians'', ''2 Corinthians''),
     (''galatians'', ''Galatians''), (''ephesians'', ''Ephesians''),
     (''philippians'', ''Philippians''), (''colossians'', ''Colossians''),
     (''1thessalonians'', ''1 Thessalonians''), (''2thessalonians'', ''2 Thessalonians''),
     (''1timothy'', ''1 Timothy''), (''2timothy'', ''2 Timothy''), (''titus'', ''Titus''),
     (''philemon'', ''Philemon''), (''hebrews'', ''Hebrews''), (''james'', ''James''),
     (''1peter'', ''1 Peter''), (''2peter'', ''2 Peter''), (''1john'', ''1 John''),
     (''2john'', ''2 John''), (''3john'', ''3 John''), (''jude'', ''Jude''),
     (''revelation'', ''Revelation'')]"
  by (simp add: bookNames_def bookNameToAbbreviation_def string_eval)

lemma compactKeys_eval:
  "map (\<lambda>(n, a). (removeWhitespace (toLowerCase a), n)) bookNameToAbbreviation =
     [(''gen'', ''Genesis''), (''exod'', ''Exodus''), (''lev'', ''Leviticus''),
     (''num'', ''Numbers''), (''deut'', ''Deuteronomy''), (''josh'', ''Joshua''),
     (''judg'', ''Judges''), (''ruth'', ''Ruth''), (''1sam'', ''1 Samuel''),
     (''2sam'', ''2 Samuel''), (''1kgs'', ''1 Kings''), (''2kgs'', ''2 Kings''),
     (''1chr'', ''1 Chronicles''), (''2chr'', ''2 Chronicles''), (''ezra'', ''Ezra''),
     (''neh'', ''Nehemiah''), (''esth'', ''Esther''), (''job'', ''Job''),
     (''ps'', ''Psalms''), (''prov'', ''Proverbs''), (''eccl'', ''Ecclesiastes''),
     (''song'', ''Song of Solomon''), (''isa'', ''Isaiah''), (''jer'', ''Jeremiah''),
     (''lam'', ''Lamentations''), (''ezek'', ''Ezekiel''), (''dan'', ''Daniel''),
     (''hos'', ''Hosea''), (''joel'', ''Joel''), (''amos'', ''Amos''),
     (''obad'', ''Obadiah''), (''jonah'', ''Jonah''), (''mic'', ''Micah''),
     (''nah'', ''Nahum''), (''hab'', ''Habakkuk''), (''zeph'', ''Zephaniah''),
     (''hag'', ''Haggai''), (''zech'', ''Zechariah''), (''mal'', ''Malachi''),
     (''matt'', ''Matthew''), (''mark'', ''Mark''), (''luke'', ''Luke''),
     (''john'', ''John''), (''acts'', ''Acts''), (''rom'', ''Romans''),
     (''1cor'', ''1 Corinthians''), (''2cor'', ''2 Corinthians''),
     (''gal'', ''Galatians''), (''eph'', ''Ephesians''), (''phil'', ''Philippians''),
     (''col'', ''Colossians''), (''1thess'', ''1 Thessalonians''),
     (''2thess'', ''2 Thessalonians''), (''1tim'', ''1 Timothy''),
     (''2tim'', ''2 Timothy''), (''titus'', ''Titus''), (''phlm'', ''Philemon''),
     (''heb'', ''Hebrews''), (''jas'', ''James''), (''1pet'', ''1 Peter''),
     (''2pet'', ''2 Peter''), (''1john'', ''1 John''), (''2john'', ''2 John''),
     (''3john'', ''3 John''), (''jude'', ''Jude''), (''rev'', ''Revelation'')]"
  by (simp add: bookNameToAbbreviation_def string_eval)

lemma spacedKeys_eval:
  "map (\<lambda>(n, a). toLowerCase a) bookNameToAbbreviation =
     [''gen'', ''exod'', ''lev'', ''num'', ''deut'', ''josh'', ''judg'', ''ruth'',
     ''1 sam'', ''2 sam'', ''1 kgs'', ''2 kgs'', ''1 chr'', ''2 chr'', ''ezra'', ''neh'',
     ''esth'', ''job'', ''ps'', ''prov'', ''eccl'', ''song'', ''isa'', ''jer'', ''lam'',
     ''ezek'', ''dan'', ''hos'', ''joel'', ''amos'', ''obad'', ''jonah'', ''mic'',
     ''nah'', ''hab'', ''zeph'', ''hag'', ''zech'', ''mal'', ''matt'', ''mark'', ''luke'',
     ''john'', ''acts'', ''rom'', ''1 cor'', ''2 cor'', ''gal'', ''eph'', ''phil'',
     ''col'', ''1 thess'', ''2 thess'', ''1 tim'', ''2 tim'', ''titus'', ''phlm'',
     ''heb'', ''jas'', ''1 pet'', ''2 pet'', ''1 john'', ''2 john'', ''3 john'', ''jude'',
     ''rev'']"
  by (simp add: bookNameToAbbreviation_def string_eval)

lemma names_shape: "list_all bookShape (map toLowerCase bookNames)"
  unfolding lowerNames_eval by (simp add: bookShape_def isSpace_def isDigit_def isLetter_def)

lemma compactKeys_shape:
  "list_all (\<lambda>(k, n). bookShape k)
     (map (\<lambda>(n, a). (removeWhitespace (toLowerCase a), n)) bookNameToAbbreviation)"
  unfolding compactKeys_eval by (simp add: bookShape_def isSpace_def isDigit_def isLetter_def)

lemma spacedKeys_shape:
  "list_all bookShape (map (\<lambda>(n, a). toLowerCase a) bookNameToAbbreviation)"
  unfolding spacedKeys_eval by (simp add: bookShape_def isSpace_def isDigit_def isLetter_def)

lemma names_lower_distinct: "distinct (map toLowerCase bookNames)"
  unfolding lowerNames_eval by simp

lemma names_trimmed:
  "list_all (\<lambda>n. n \<noteq> [] \<and> \<not> isSpace (hd n) \<and> \<not> isSpace (last n)) bookNames"
  unfolding bookNames_eval by (simp add: isSpace_def)

lemma compactKeys_distinct:
  "distinct (map fst (map (\<lambda>(n, a). (removeWhitespace (toLowerCase a), n)) bookNameToAbbreviation))"
  unfolding compactKeys_eval by simp

lemma names_against_keys:
  "list_all (\<lambda>(fk, f). list_all (\<lambda>(k, n). fk = k \<longrightarrow> f = n)
       (map (\<lambda>(n, a). (removeWhitespace (toLowerCase a), n)) bookNameToAbbreviation))
     (map (\<lambda>f. (removeWhitespace (toLowerCase f), f)) bookNames)"
  unfolding compactKeys_eval nameKeys_eval by simp

section \<open>Resolution of names and abbreviations\<close>

lemma foldl_updates:
  "foldl (\<lambda>acc (n, a). (acc(f a \<mapsto> n))(g a \<mapsto> n)) m xs =
     m ++ map_of (rev (concat (map (\<lambda>(n, a). [(f a, n), (g a, n)]) xs)))"
proof (induction xs arbitrary: m)
  case Nil
  then show ?case by simp
next
  case (Cons x xs)
  obtain n a where x: "x = (n, a)" by (cases x)
  have "(m(f a \<mapsto> n))(g a \<mapsto> n) = m ++ map_of [(g a, n), (f a, n)]"
    by (rule ext) (simp add: map_add_def)
  then show ?case
    by (simp add: Cons.IH x map_add_assoc [symmetric] del: fun_upd_apply)
qed

lemma abbreviationToBookName_map_of: "abbreviationToBookName = map_of (rev abbreviationKeys)"
  unfolding abbreviationToBookName_def abbreviationKeys_def
  using foldl_updates [of "\<lambda>a. removeWhitespace (toLowerCase a)" toLowerCase Map.empty
      bookNameToAbbreviation]
  by simp

lemma abbreviation_lookup_entry:
  assumes "abbreviationToBookName k = Some n"
  shows "\<exists>a. (n, a) \<in> set bookNameToAbbreviation \<and>
              (k = removeWhitespace (toLowerCase a) \<or> k = toLowerCase a)"
proof -
  from assms have "(k, n) \<in> set abbreviationKeys"
    by (auto simp: abbreviationToBookName_map_of dest: map_of_SomeD)
  then show ?thesis by (auto simp: abbreviationKeys_def)
qed

lemma abbreviation_lookup_defined:
  assumes "(n, a) \<in> set bookNameToAbbreviation"
  shows "abbreviationToBookName (removeWhitespace (toLowerCase a)) \<noteq> None"
    and "abbreviationToBookName (toLowerCase a) \<noteq> None"
proof -
  from assms have "(removeWhitespace (toLowerCase a), n) \<in> set abbreviationKeys"
    "(toLowerCase a, n) \<in> set abbreviationKeys"
    by (auto simp: abbreviationKeys_def)
  then have "removeWhitespace (toLowerCase a) \<in> fst ` set (rev abbreviationKeys)"
    "toLowerCase a \<in> fst ` set (rev abbreviationKeys)"
    by force+
  then show "abbreviationToBookName (removeWhitespace (toLowerCase a)) \<noteq> None"
    and "abbreviationToBookName (toLowerCase a) \<noteq> None"
    unfolding abbreviationToBookName_map_of by (simp_all add: map_of_eq_None_iff)
qed

lemma removeWhitespace_idem: "removeWhitespace (removeWhitespace s) = removeWhitespace s"
  by (simp add: removeWhitespace_def)

lemma compactKey_entry:
  assumes "(n, a) \<in> set bookNameToAbbreviation" "(n', a') \<in> set bookNameToAbbreviation"
      and "removeWhitespace (toLowerCase a) = removeWhitespace (toLowerCase a')"
  shows "n = n'"
proof -
  let ?h = "\<lambda>(n, a). (removeWhitespace (toLowerCase a), n)"
  have d: "distinct (map (fst \<circ> ?h) bookNameToAbbreviation)"
    using compactKeys_distinct by simp
  then have "inj_on (fst \<circ> ?h) (set bookNameToAbbreviation)"
    by (simp add: distinct_map)
  moreover from assms(3) have "(fst \<circ> ?h) (n, a) = (fst \<circ> ?h) (n', a')" by simp
  ultimately have "(n, a) = (n', a')" using assms(1,2) by (meson inj_onD)
  then show ?thesis by simp
qed

lemma abbreviation_lookup:
  assumes "(n, a) \<in> set bookNameToAbbreviation"
  shows "abbreviationToBookName (removeWhitespace (toLowerCase a)) = Some n"
    and "abbreviationToBookName (toLowerCase a) = Some n"
proof -
  from abbreviation_lookup_defined(1) [OF assms] obtain n1 where
    n1: "abbreviationToBookName (removeWhitespace (toLowerCase a)) = Some n1" by auto
  from abbreviation_lookup_entry [OF n1] obtain a1 where
    a1: "(n1, a1) \<in> set bookNameToAbbreviation"
      "removeWhitespace (toLowerCase a) = removeWhitespace (toLowerCase a1) \<or>
       removeWhitespace (toLowerCase a) = toLowerCase a1" by blast
  then have "removeWhitespace (toLowerCase a) = removeWhitespace (toLowerCase a1)"
    by (metis removeWhitespace_idem)
  with assms a1(1) have "n = n1" by (rule compactKey_entry)
  with n1 show "abbreviationToBookName (removeWhitespace (toLowerCase a)) = Some n" by simp
  from abbreviation_lookup_defined(2) [OF assms] obtain n2 where
    n2: "abbreviationToBookName (toLowerCase a) = Some n2" by auto
  from abbreviation_lookup_entry [OF n2] obtain a2 where
    a2: "(n2, a2) \<in> set bookNameToAbbreviation"
      "toLowerCase a = removeWhitespace (toLowerCase a2) \<or> toLowerCase a = toLowerCase a2" by blast
  then have "removeWhitespace (toLowerCase a) = removeWhitespace (toLowerCase a2)"
    by (metis removeWhitespace_idem)
  with assms a2(1) have "n = n2" by (rule compactKey_entry)
  with n2 show "abbreviationToBookName (toLowerCase a) = Some n" by simp
qed

lemma find_BIBLE_META:
  "map_option BookMeta.name (find (\<lambda>b. P (BookMeta.name b)) (BIBLE_META table)) =
     find P (map BookVerseCounts.name table)"
  by (induction table) (auto simp: BIBLE_META_def)

lemma BIBLE_META_names: "map BookMeta.name (BIBLE_META table) = map BookVerseCounts.name table"
  by (simp add: BIBLE_META_def comp_def)

lemma findBookMetadata_justified:
  assumes "findBookMetadata table q = Some b"
  shows "b \<in> set (BIBLE_META table) \<and>
         (toLowerCase (BookMeta.name b) = toLowerCase (trim q) \<or>
          abbreviationToBookName (removeWhitespace (toLowerCase (trim q))) = Some (BookMeta.name b) \<or>
          abbreviationToBookName (toLowerCase (trim q)) = Some (BookMeta.name b) \<or>
          (toLowerCase (trim q) = ''song of songs'' \<and> BookMeta.name b = ''Song of Solomon'') \<or>
          startsWith (toLowerCase (BookMeta.name b)) (toLowerCase (trim q)))"
  using assms unfolding findBookMetadata_def Let_def
  by (auto split: option.splits if_splits simp: find_Some_iff)


lemma find_by_name:
  assumes "canonicalNames table" "n \<in> set bookNames"
  shows "\<exists>b. find (\<lambda>b. BookMeta.name b = n) (BIBLE_META table) = Some b \<and> BookMeta.name b = n"
proof -
  from assms have "n \<in> set (map BookMeta.name (BIBLE_META table))"
    by (simp add: BIBLE_META_names canonicalNames_def)
  then have "find (\<lambda>b. BookMeta.name b = n) (BIBLE_META table) \<noteq> None"
    by (auto simp: find_None_iff)
  then show ?thesis by (auto dest: find_Some_iff [THEN iffD1])
qed

lemma lower_name_inj:
  assumes "f \<in> set bookNames" "n \<in> set bookNames" "toLowerCase f = toLowerCase n"
  shows "f = n"
  using names_lower_distinct assms by (auto simp: distinct_map dest: inj_onD)

lemma find_lower_name:
  assumes "canonicalNames table" "n \<in> set bookNames"
  shows "find (\<lambda>b. toLowerCase (BookMeta.name b) = toLowerCase n) (BIBLE_META table) =
         find (\<lambda>b. BookMeta.name b = n) (BIBLE_META table)"
proof (rule find_cong [OF refl])
  fix b assume "b \<in> set (BIBLE_META table)"
  then have "BookMeta.name b \<in> set bookNames"
    using assms(1) BIBLE_META_names [of table]
    by (metis canonicalNames_def image_eqI set_map)
  with assms(2) show "(toLowerCase (BookMeta.name b) = toLowerCase n) = (BookMeta.name b = n)"
    using lower_name_inj by blast
qed

lemma name_trimmed: "n \<in> set bookNames \<Longrightarrow> trim n = n"
  using names_trimmed by (auto simp: list_all_iff intro: trim_idem_ends)

lemma findBookMetadata_name:
  assumes "canonicalNames table" "n \<in> set bookNames"
  shows "findBookMetadata table n = find (\<lambda>b. BookMeta.name b = n) (BIBLE_META table)"
proof -
  from find_by_name [OF assms] obtain b where
    b: "find (\<lambda>b. BookMeta.name b = n) (BIBLE_META table) = Some b" by blast
  with find_lower_name [OF assms] name_trimmed [OF assms(2)] show ?thesis
    by (simp add: findBookMetadata_def Let_def)
qed

lemma name_against_keys:
  assumes "f \<in> set bookNames" "(n, a) \<in> set bookNameToAbbreviation"
      and "removeWhitespace (toLowerCase f) = removeWhitespace (toLowerCase a)"
  shows "f = n"
proof -
  from assms(1) have "(removeWhitespace (toLowerCase f), f) \<in>
      set (map (\<lambda>f. (removeWhitespace (toLowerCase f), f)) bookNames)" by auto
  moreover from assms(2) have "(removeWhitespace (toLowerCase a), n) \<in>
      set (map (\<lambda>(n, a). (removeWhitespace (toLowerCase a), n)) bookNameToAbbreviation)" by force
  ultimately show ?thesis
    using names_against_keys assms(3) unfolding list_all_iff by fastforce
qed

lemma findBookMetadata_abbreviation:
  assumes c: "canonicalNames table" and e: "(n, a) \<in> set bookNameToAbbreviation"
      and q: "removeWhitespace (toLowerCase (trim q)) = removeWhitespace (toLowerCase a)"
  shows "findBookMetadata table q = find (\<lambda>b. BookMeta.name b = n) (BIBLE_META table)"
proof -
  from e have n: "n \<in> set bookNames" by (force simp: bookNames_def)
  from find_by_name [OF c n] obtain b where
    b: "find (\<lambda>b. BookMeta.name b = n) (BIBLE_META table) = Some b" by blast
  show ?thesis
  proof (cases "find (\<lambda>b. toLowerCase (BookMeta.name b) = toLowerCase (trim q)) (BIBLE_META table)")
    case None
    with abbreviation_lookup(1) [OF e] q b show ?thesis
      by (simp add: findBookMetadata_def Let_def)
  next
    case (Some b1)
    then have b1: "b1 \<in> set (BIBLE_META table)"
      "toLowerCase (BookMeta.name b1) = toLowerCase (trim q)"
      by (auto simp: find_Some_iff)
    then have f: "BookMeta.name b1 \<in> set bookNames"
      using c BIBLE_META_names [of table] by (metis canonicalNames_def image_eqI set_map)
    from b1(2) q have "removeWhitespace (toLowerCase (BookMeta.name b1)) =
        removeWhitespace (toLowerCase a)" by simp
    with f e have "BookMeta.name b1 = n" by (rule name_against_keys)
    with b1(2) have "toLowerCase (trim q) = toLowerCase n" by simp
    with Some find_lower_name [OF c n] have
      "find (\<lambda>b. BookMeta.name b = n) (BIBLE_META table) = Some b1" by simp
    with Some show ?thesis by (simp add: findBookMetadata_def Let_def)
  qed
qed

lemma lower_names_of_table:
  assumes "canonicalNames table" "b \<in> set (BIBLE_META table)"
  shows "toLowerCase (BookMeta.name b) \<in> set (map toLowerCase bookNames)"
proof -
  from assms have "BookMeta.name b \<in> set bookNames"
    using BIBLE_META_names [of table] by (metis canonicalNames_def image_eqI set_map)
  then show ?thesis by simp
qed

lemma abbreviation_lookup_none:
  assumes "k \<notin> fst ` set (map (\<lambda>(n, a). (removeWhitespace (toLowerCase a), n)) bookNameToAbbreviation)"
      and "k \<notin> set (map (\<lambda>(n, a). toLowerCase a) bookNameToAbbreviation)"
  shows "abbreviationToBookName k = None"
proof (rule ccontr)
  assume "abbreviationToBookName k \<noteq> None"
  then obtain n where "abbreviationToBookName k = Some n" by auto
  from abbreviation_lookup_entry [OF this] assms show False by force
qed

lemma amoz_unresolved:
  assumes "canonicalNames table"
  shows "findBookMetadata table ''amoz'' = None"
proof (rule ccontr)
  assume "findBookMetadata table ''amoz'' \<noteq> None"
  then obtain b where b: "findBookMetadata table ''amoz'' = Some b" by auto
  have t: "toLowerCase (trim ''amoz'') = ''amoz''"
    "removeWhitespace ''amoz'' = ''amoz''"
    by (simp_all add: string_eval trim_def)
  have n: "''amoz'' \<notin> set (map toLowerCase bookNames)"
    unfolding lowerNames_eval by simp
  have p: "\<forall>l\<in>set (map toLowerCase bookNames). \<not> startsWith l ''amoz''"
    unfolding lowerNames_eval by simp
  have a: "abbreviationToBookName ''amoz'' = None"
    by (rule abbreviation_lookup_none; unfold compactKeys_eval spacedKeys_eval; simp)
  from findBookMetadata_justified [OF b]
  have m: "b \<in> set (BIBLE_META table)"
    and j: "toLowerCase (BookMeta.name b) = ''amoz'' \<or>
          abbreviationToBookName ''amoz'' = Some (BookMeta.name b) \<or>
          (''amoz'' = ''song of songs'' \<and> BookMeta.name b = ''Song of Solomon'') \<or>
          startsWith (toLowerCase (BookMeta.name b)) ''amoz''"
    unfolding t by auto
  from lower_names_of_table [OF assms m] n p
  have "toLowerCase (BookMeta.name b) \<noteq> ''amoz''"
    "\<not> startsWith (toLowerCase (BookMeta.name b)) ''amoz''"
    by auto
  with j a show False by simp
qed

lemma levenshtein_amoz: "levenshtein ''amoz'' ''amos'' = 1"
  by code_simp


lemma sample_canonical: "canonicalNames sampleTable"
  by (simp add: canonicalNames_def sampleTable_def bookNames_def comp_def case_prod_beta)

lemma samuel_entry: "(''1 Samuel'', ''1 Sam'') \<in> set bookNameToAbbreviation"
  by (simp add: bookNameToAbbreviation_def)

lemma samuel_queries:
  "removeWhitespace (toLowerCase (trim ''1Sam'')) = removeWhitespace (toLowerCase ''1 Sam'')"
  "removeWhitespace (toLowerCase (trim ''1 sam'')) = removeWhitespace (toLowerCase ''1 Sam'')"
  by (simp_all add: string_eval trim_def)


text \<open>
  C7. For a table with the book names of \<open>bookNameToAbbreviation\<close>: \<open>1Sam\<close>, \<open>1 sam\<close>
  and \<open>1 Samuel\<close> resolve to the same entry, named \<open>1 Samuel\<close>; more generally a query
  that equals an abbreviation of the table up to case, outer white space and any white
  space inside resolves to the entry of that abbreviation's book. Every entry that
  \<open>findBookMetadata\<close> returns is justified by one of its four rules (equal name,
  abbreviation key, the alias \<open>song of songs\<close>, prefix of a name), so closeness in edit
  distance resolves nothing: \<open>amoz\<close> is at distance 1 from \<open>amos\<close> and is not resolved.
\<close>

theorem resolve_abbreviations:
  assumes "canonicalNames table"
  shows "(\<exists>b. findBookMetadata table ''1Sam'' = Some b \<and> findBookMetadata table ''1 sam'' = Some b \<and>
             findBookMetadata table ''1 Samuel'' = Some b \<and> BookMeta.name b = ''1 Samuel'') \<and>
         (\<forall>n a q. (n, a) \<in> set bookNameToAbbreviation \<and>
             removeWhitespace (toLowerCase (trim q)) = removeWhitespace (toLowerCase a) \<longrightarrow>
             findBookMetadata table q = findBookMetadata table n \<and>
             (\<exists>b. findBookMetadata table n = Some b \<and> BookMeta.name b = n)) \<and>
         (\<forall>q b. findBookMetadata table q = Some b \<longrightarrow>
             b \<in> set (BIBLE_META table) \<and>
             (toLowerCase (BookMeta.name b) = toLowerCase (trim q) \<or>
              abbreviationToBookName (removeWhitespace (toLowerCase (trim q))) = Some (BookMeta.name b) \<or>
              abbreviationToBookName (toLowerCase (trim q)) = Some (BookMeta.name b) \<or>
              (toLowerCase (trim q) = ''song of songs'' \<and> BookMeta.name b = ''Song of Solomon'') \<or>
              startsWith (toLowerCase (BookMeta.name b)) (toLowerCase (trim q)))) \<and>
         levenshtein ''amoz'' ''amos'' = 1 \<and> findBookMetadata table ''amoz'' = None"
proof (intro conjI allI impI)
  have general: "findBookMetadata table q = findBookMetadata table n \<and>
             (\<exists>b. findBookMetadata table n = Some b \<and> BookMeta.name b = n)"
    if "(n, a) \<in> set bookNameToAbbreviation \<and>
        removeWhitespace (toLowerCase (trim q)) = removeWhitespace (toLowerCase a)" for n a q
  proof -
    from that have n: "n \<in> set bookNames" by (force simp: bookNames_def)
    from that assms have "findBookMetadata table q =
        find (\<lambda>b. BookMeta.name b = n) (BIBLE_META table)"
      by (intro findBookMetadata_abbreviation) auto
    with findBookMetadata_name [OF assms n] find_by_name [OF assms n] show ?thesis by simp
  qed
  from general [of "''1 Samuel''" "''1 Sam''" "''1Sam''"] general [of "''1 Samuel''" "''1 Sam''" "''1 sam''"]
    samuel_entry samuel_queries
  show "\<exists>b. findBookMetadata table ''1Sam'' = Some b \<and> findBookMetadata table ''1 sam'' = Some b \<and>
             findBookMetadata table ''1 Samuel'' = Some b \<and> BookMeta.name b = ''1 Samuel''"
    by auto
  fix n a q
  assume "(n, a) \<in> set bookNameToAbbreviation \<and>
      removeWhitespace (toLowerCase (trim q)) = removeWhitespace (toLowerCase a)"
  from general [OF this]
  show "findBookMetadata table q = findBookMetadata table n"
    and "\<exists>b. findBookMetadata table n = Some b \<and> BookMeta.name b = n"
    by blast+
next
  fix q b
  assume "findBookMetadata table q = Some b"
  from findBookMetadata_justified [OF this]
  show "b \<in> set (BIBLE_META table)"
    and "toLowerCase (BookMeta.name b) = toLowerCase (trim q) \<or>
              abbreviationToBookName (removeWhitespace (toLowerCase (trim q))) = Some (BookMeta.name b) \<or>
              abbreviationToBookName (toLowerCase (trim q)) = Some (BookMeta.name b) \<or>
              (toLowerCase (trim q) = ''song of songs'' \<and> BookMeta.name b = ''Song of Solomon'') \<or>
              startsWith (toLowerCase (BookMeta.name b)) (toLowerCase (trim q))"
    by blast+
next
  show "levenshtein ''amoz'' ''amos'' = 1" by (rule levenshtein_amoz)
  show "findBookMetadata table ''amoz'' = None" using assms by (rule amoz_unresolved)
qed

theorem resolve_abbreviations_witness:
  "canonicalNames sampleTable \<and>
   map_option BookMeta.name (findBookMetadata sampleTable ''1Sam'') = Some ''1 Samuel'' \<and>
   findBookMetadata sampleTable ''1Sam'' = findBookMetadata sampleTable ''1 Samuel'' \<and>
   findBookMetadata sampleTable ''1 sam'' = findBookMetadata sampleTable ''1 Samuel'' \<and>
   findBookMetadata sampleTable ''amoz'' = None"
  using resolve_abbreviations [OF sample_canonical] sample_canonical
  by auto

section \<open>The shape of a query that resolves\<close>

lemma bookShape_lower: "bookShape (toLowerCase s) = bookShape s"
  by (cases s)
    (simp_all add: bookShape_def toLowerCase_def toLowerChar_isLetter toLowerChar_isDigit
      toLowerChar_isSpace list_all_iff)

lemma bookShape_prefix: "startsWith s p \<Longrightarrow> bookShape s \<Longrightarrow> bookShape p"
proof -
  have all: "startsWith s p \<Longrightarrow> list_all Q s \<Longrightarrow> list_all Q p" for Q s p
    by (induction s p rule: startsWith.induct) auto
  assume a: "startsWith s p" "bookShape s"
  show ?thesis
  proof (cases p)
    case Nil
    then show ?thesis by (simp add: bookShape_def)
  next
    case (Cons x xs)
    with a(1) obtain ys where s: "s = x # ys" "startsWith ys xs" by (cases s) auto
    with a(2) all [of ys xs] Cons show ?thesis by (simp add: bookShape_def)
  qed
qed

lemma bookShape_spaces:
  assumes "bookShape (removeWhitespace s)" "s = [] \<or> \<not> isSpace (hd s)"
  shows "bookShape s"
proof (cases s)
  case Nil
  then show ?thesis by (simp add: bookShape_def)
next
  case (Cons c cs)
  have "list_all (\<lambda>x. isLetter x \<or> isSpace x) (removeWhitespace cs) \<Longrightarrow>
      list_all (\<lambda>x. isLetter x \<or> isSpace x) cs"
    by (auto simp: list_all_iff removeWhitespace_def)
  with assms Cons show ?thesis
    by (simp add: bookShape_def removeWhitespace_def)
qed

lemma trim_lower_head:
  "toLowerCase (trim q) = [] \<or> \<not> isSpace (hd (toLowerCase (trim q)))"
  using trim_ends [of q]
  by (cases "trim q") (auto simp: toLowerCase_def toLowerChar_isSpace)

lemma resolvable_shape:
  assumes c: "canonicalNames table" and r: "findBookMetadata table q = Some b"
  shows "bookShape (trim q)"
proof -
  define cq where "cq = toLowerCase (trim q)"
  from findBookMetadata_justified [OF r]
  have m: "b \<in> set (BIBLE_META table)"
    and j: "toLowerCase (BookMeta.name b) = cq \<or>
          abbreviationToBookName (removeWhitespace cq) = Some (BookMeta.name b) \<or>
          abbreviationToBookName cq = Some (BookMeta.name b) \<or>
          (cq = ''song of songs'' \<and> BookMeta.name b = ''Song of Solomon'') \<or>
          startsWith (toLowerCase (BookMeta.name b)) cq"
    unfolding cq_def by auto
  from lower_names_of_table [OF c m] names_shape
  have n: "bookShape (toLowerCase (BookMeta.name b))" by (auto simp: list_all_iff)
  have key: "bookShape k" if "abbreviationToBookName k = Some v" for k v
  proof -
    from abbreviation_lookup_entry [OF that] obtain a where
      a: "(v, a) \<in> set bookNameToAbbreviation"
         "k = removeWhitespace (toLowerCase a) \<or> k = toLowerCase a" by blast
    from a(1) compactKeys_shape have "bookShape (removeWhitespace (toLowerCase a))"
      by (force simp: list_all_iff)
    moreover from a(1) spacedKeys_shape have "bookShape (toLowerCase a)"
      by (force simp: list_all_iff)
    ultimately show ?thesis using a(2) by auto
  qed
  have song: "bookShape ''song of songs''"
    by (simp add: bookShape_def isSpace_def isDigit_def isLetter_def)
  from j have "bookShape cq"
  proof (elim disjE)
    assume "toLowerCase (BookMeta.name b) = cq"
    with n show ?thesis by simp
  next
    assume "abbreviationToBookName (removeWhitespace cq) = Some (BookMeta.name b)"
    from key [OF this] trim_lower_head [of q] show ?thesis
      unfolding cq_def by (rule bookShape_spaces)
  next
    assume "abbreviationToBookName cq = Some (BookMeta.name b)"
    then show ?thesis by (rule key)
  next
    assume "cq = ''song of songs'' \<and> BookMeta.name b = ''Song of Solomon''"
    with song show ?thesis by simp
  next
    assume "startsWith (toLowerCase (BookMeta.name b)) cq"
    then show ?thesis using n by (rule bookShape_prefix)
  qed
  then show ?thesis by (simp add: cq_def bookShape_lower)
qed

lemma dropWhile_trim:
  "dropWhile isSpace s = trim s @ rev (takeWhile isSpace (rev (dropWhile isSpace s)))"
proof -
  have "rev (dropWhile isSpace s) =
      takeWhile isSpace (rev (dropWhile isSpace s)) @ dropWhile isSpace (rev (dropWhile isSpace s))"
    by simp
  then have "dropWhile isSpace s =
      rev (dropWhile isSpace (rev (dropWhile isSpace s))) @
      rev (takeWhile isSpace (rev (dropWhile isSpace s)))"
    by (metis rev_append rev_rev_ident)
  then show ?thesis by (simp add: trim_def)
qed

lemma bookShape_trailing:
  assumes "bookShape s" "list_all isSpace w"
  shows "bookShape (s @ w)"
  using assms by (cases s; cases w) (auto simp: bookShape_def list_all_iff)

lemma bookShape_dropWhile:
  assumes "bookShape (trim q)"
  shows "bookShape (dropWhile isSpace q)"
proof -
  have "list_all isSpace (rev (takeWhile isSpace (rev (dropWhile isSpace q))))"
    by (simp add: list_all_iff) (meson set_takeWhileD)
  with assms have "bookShape (trim q @ rev (takeWhile isSpace (rev (dropWhile isSpace q))))"
    by (rule bookShape_trailing)
  then show ?thesis using dropWhile_trim [of q] by simp
qed

lemma trim_dropWhile: "trim (dropWhile isSpace s) = trim s"
  by (simp add: trim_def)

lemma findBookMetadata_trim: "findBookMetadata table (trim q) = findBookMetadata table q"
  by (simp add: findBookMetadata_def trim_trim)

lemma trim_no_trailing:
  assumes "s \<noteq> []" "\<not> isSpace (last s)"
  shows "trim s = dropWhile isSpace s"
proof -
  from assms have "dropWhile isSpace s \<noteq> []"
    by (metis dropWhile_eq_Nil_conv last_in_set)
  moreover from this assms have "last (dropWhile isSpace s) = last s"
    by (metis append_Nil2 last_appendR takeWhile_dropWhile_id)
  ultimately have "rev (dropWhile isSpace s) \<noteq> []" "\<not> isSpace (hd (rev (dropWhile isSpace s)))"
    using assms by (simp_all add: hd_rev)
  then have "dropWhile isSpace (rev (dropWhile isSpace s)) = rev (dropWhile isSpace s)"
    by (rule dropWhile_hd)
  then show ?thesis by (simp add: trim_def)
qed

lemma separator_classes:
  "\<not> isDigit (CHR '','')" "\<not> isLetter (CHR '','')" "\<not> isSpace (CHR '','')"
  "\<not> isDigit (CHR '';'')" "\<not> isLetter (CHR '';'')" "\<not> isSpace (CHR '';'')"
  by (simp_all add: isDigit_def isLetter_def isSpace_def)

lemma bookShape_no_separator:
  assumes "bookShape s"
  shows "\<forall>c\<in>set s. c \<noteq> CHR '','' \<and> c \<noteq> CHR '';''"
proof -
  from assms have "\<forall>c\<in>set s. isDigit c \<or> isLetter c \<or> isSpace c"
    by (cases s) (auto simp: bookShape_def list_all_iff)
  then show ?thesis using separator_classes by blast
qed


lemma parse_reference:
  assumes c: "canonicalNames table" and r: "findBookMetadata table token = Some bookMeta"
      and l: "\<exists>c\<in>set token. isLetter c"
      and C: "C \<noteq> []" "list_all isDigit C" and V: "V \<noteq> []" "list_all isDigit V"
      and t: "t = [] \<or> (\<exists>W. t = CHR ''-'' # W \<and> W \<noteq> [] \<and> list_all isDigit W)"
  shows "parseReferencesFromString table (token @ CHR '' '' # C @ CHR '':'' # V @ t) =
     [\<lparr>ParsedReference.book = BookMeta.name bookMeta,
       ParsedReference.chapter' = parseInt10 C,
       startVerse = parseInt10 V,
       endVerse = (case rangeTail t of None \<Rightarrow> None | Some w \<Rightarrow> Some (parseInt10 w))\<rparr>]"
proof -
  define B where "B = dropWhile isSpace token"
  define rest where "rest = CHR '' '' # C @ CHR '':'' # V @ t"
  define s where "s = token @ rest"
  from l obtain x where x: "x \<in> set token" "isLetter x" by blast
  then have xs: "\<not> isSpace x" using letter_not_space by blast
  from resolvable_shape [OF c r] have shape: "bookShape B"
    unfolding B_def by (rule bookShape_dropWhile)
  from x xs have B: "B \<noteq> []" by (auto simp: B_def dropWhile_eq_Nil_conv)
  then have hdB: "\<not> isSpace (hd B)" unfolding B_def by (simp add: hd_dropWhile)
  from x xs have "x \<in> set B" unfolding B_def
    by (metis (full_types) UnE set_append set_takeWhileD takeWhile_dropWhile_id)
  with x have letter: "\<exists>c\<in>set B. isLetter c" by blast
  have t': "t = [] \<or> \<not> isDigit (hd t)"
    using t by (auto simp: punctuation_classes)
  have drop: "dropWhile isSpace s = B @ rest"
    unfolding s_def B_def using x(1) xs by (rule dropWhile_append1)
  have digits: "\<forall>c\<in>set (C @ V @ t). isDigit c \<or> c = CHR ''-''"
    using C V t by (auto simp: list_all_iff)
  have lastd: "isDigit (last s)"
  proof (cases "t = []")
    case True
    with V show ?thesis by (simp add: s_def rest_def list_all_iff)
  next
    case False
    with t obtain W where W: "t = CHR ''-'' # W" "W \<noteq> []" "list_all isDigit W" by blast
    then show ?thesis by (simp add: s_def rest_def list_all_iff)
  qed
  have "s \<noteq> []" by (simp add: s_def rest_def)
  with lastd have trim: "trim s = B @ rest"
    using drop trim_no_trailing [of s] digit_not_space by auto
  have regex: "referenceRegex (B @ rest) =
      Some \<lparr>group1 = B, group3 = C, group4 = V, group5 = rangeTail t\<rparr>"
    unfolding rest_def using shape B hdB letter C V t' by (rule referenceRegex_reference)
  have book: "findBookMetadata table (trim B) = Some bookMeta"
    using r findBookMetadata_trim [of table token] by (simp add: B_def trim_dropWhile)
  have seps: "\<forall>c\<in>set s. c \<noteq> CHR '','' \<and> c \<noteq> CHR '';''"
  proof
    fix c assume "c \<in> set s"
    then have "c \<in> set (takeWhile isSpace token) \<or> c \<in> set B \<or> c = CHR '' '' \<or> c = CHR '':''
        \<or> c \<in> set (C @ V @ t)"
      unfolding s_def rest_def B_def
      using set_append [of "takeWhile isSpace token" "dropWhile isSpace token"]
      by auto
    moreover have "c \<in> set (takeWhile isSpace token) \<Longrightarrow> isSpace c"
      by (meson set_takeWhileD)
    moreover note bookShape_no_separator [OF shape] digits separator_classes
    ultimately show "c \<noteq> CHR '','' \<and> c \<noteq> CHR '';''" by auto
  qed
  have "parseReferencesFromString table s = parsePart table [] s"
    by (simp add: parse_concat splitSeparators_single [OF seps])
  also have "\<dots> = [\<lparr>ParsedReference.book = BookMeta.name bookMeta,
       ParsedReference.chapter' = parseInt10 C,
       startVerse = parseInt10 V,
       endVerse = (case rangeTail t of None \<Rightarrow> None | Some w \<Rightarrow> Some (parseInt10 w))\<rparr>]"
    using B by (simp add: parsePart_def trim regex book)
  finally show ?thesis by (simp add: s_def rest_def)
qed

section \<open>Parsing one reference\<close>

declare decimal.simps [simp del]

lemma digit_char: "d < 10 \<Longrightarrow> isDigit (char_of (48 + d)) \<and> digitValue (char_of (48 + d :: nat)) = d"
  by (simp add: isDigit_def digitValue_def)

lemma decimal_digits: "decimal n \<noteq> [] \<and> list_all isDigit (decimal n)"
proof (induction n rule: decimal.induct)
  case (1 n)
  show ?case
  proof (cases "n < 10")
    case True
    then show ?thesis using digit_char [of n] by (simp add: decimal.simps [of n])
  next
    case False
    with 1 digit_char [of "n mod 10"] show ?thesis by (simp add: decimal.simps [of n])
  qed
qed

lemma parseInt10_decimal: "parseInt10 (decimal n) = int n"
proof -
  have "foldl (\<lambda>a c. 10 * a + digitValue c) 0 (decimal n) = n"
  proof (induction n rule: decimal.induct)
    case (1 n)
    show ?case
    proof (cases "n < 10")
      case True
      then show ?thesis using digit_char [of n] by (simp add: decimal.simps [of n])
    next
      case False
      with 1 digit_char [of "n mod 10"] show ?thesis by (simp add: decimal.simps [of n])
    qed
  qed
  then show ?thesis by (simp add: parseInt10_def)
qed

lemma john_entry: "''John'' \<in> set bookNames" "''Romans'' \<in> set bookNames"
  unfolding bookNames_eval by simp_all

lemma john_resolves:
  assumes "canonicalNames table"
  shows "\<exists>b. findBookMetadata table ''John'' = Some b \<and> BookMeta.name b = ''John''"
    and "\<exists>b. findBookMetadata table ''Romans'' = Some b \<and> BookMeta.name b = ''Romans''"
  using findBookMetadata_name [OF assms john_entry(1)] find_by_name [OF assms john_entry(1)]
    findBookMetadata_name [OF assms john_entry(2)] find_by_name [OF assms john_entry(2)]
  by auto

lemma sample_digits:
  "list_all isDigit ''3''" "list_all isDigit ''16''" "list_all isDigit ''18''"
  "list_all isDigit ''8''" "list_all isDigit ''28''"
  "parseInt10 ''3'' = 3" "parseInt10 ''16'' = 16" "parseInt10 ''18'' = 18"
  "parseInt10 ''8'' = 8" "parseInt10 ''28'' = 28"
  by (simp_all add: isDigit_def parseInt10_def digitValue_def)

lemma john_letter: "\<exists>c\<in>set ''John''. isLetter c" "\<exists>c\<in>set ''Romans''. isLetter c"
  by (simp_all add: isLetter_def)

text \<open>
  C5, as stated: every string \<open>Book C:V\<close> whose book token resolves yields one reference.
  The token \<open>1\<close> resolves, as a prefix, to \<open>1 Samuel\<close>, but the pattern needs a letter
  before the chapter, and \<open>1 3:16\<close> yields nothing.
\<close>

theorem digit_token_not_parsed:
  "map_option BookMeta.name (findBookMetadata sampleTable ''1'') = Some ''1 Samuel'' \<and>
   parseReferencesFromString sampleTable (''1'' @ '' '' @ ''3'' @ '':'' @ ''16'') = []"
proof -
  have t: "toLowerCase (trim ''1'') = ''1''" "removeWhitespace ''1'' = ''1''"
    by (simp_all add: string_eval trim_def)
  have n: "''1'' \<notin> set (map toLowerCase bookNames)"
    unfolding lowerNames_eval by simp
  have "\<forall>b\<in>set (BIBLE_META sampleTable). toLowerCase (BookMeta.name b) \<noteq> ''1''"
    using lower_names_of_table [OF sample_canonical] n by metis
  then have full: "find (\<lambda>b. toLowerCase (BookMeta.name b) = ''1'') (BIBLE_META sampleTable) = None"
    by (simp add: find_None_iff)
  have a: "abbreviationToBookName ''1'' = None"
    by (rule abbreviation_lookup_none; unfold compactKeys_eval spacedKeys_eval; simp)
  have "map_option BookMeta.name
      (find (\<lambda>b. startsWith (toLowerCase (BookMeta.name b)) ''1'') (BIBLE_META sampleTable)) =
      find (\<lambda>n. startsWith (toLowerCase n) ''1'') (map BookVerseCounts.name sampleTable)"
    by (rule find_BIBLE_META)
  also have "\<dots> = find (\<lambda>n. startsWith (toLowerCase n) ''1'') bookNames"
    using sample_canonical by (simp add: canonicalNames_def)
  also have "\<dots> = Some ''1 Samuel''"
    unfolding bookNames_eval by (simp add: toLowerCase_def toLowerChar_def char_of_eq char_eq_of)
  finally have "map_option BookMeta.name (findBookMetadata sampleTable ''1'') = Some ''1 Samuel''"
    using full a t by (simp add: findBookMetadata_def)
  moreover have "parseReferencesFromString sampleTable (''1'' @ '' '' @ ''3'' @ '':'' @ ''16'') = []"
    by (simp add: parseReferencesFromString_def parsePart_def trim_def referenceRegexAt_def
        afterGroup2_def greedy1_def isSpace_def isDigit_def isLetter_def)
  ultimately show ?thesis by simp
qed

text \<open>
  C5, amended by three conditions: the input is a string of code units below 256 (the
  strings of the model), the book token contains a letter \<open>A\<close> to \<open>Z\<close> or \<open>a\<close> to \<open>z\<close>, and
  the numerals denote numbers of at most \<open>2^53\<close>, which \<open>parseInt\<close> returns exactly. For a
  table with the book names of \<open>bookNameToAbbreviation\<close>, a token that resolves and
  contains a letter, and non-empty strings of digits \<open>C\<close>, \<open>V\<close> and \<open>W\<close> with values in that
  range: the string \<open>token C:V\<close> yields exactly one reference, with the name of the
  resolved book, the chapter \<open>C\<close>, the start verse \<open>V\<close> and no end verse, and
  \<open>token C:V-W\<close> yields the same with the end verse \<open>W\<close>. The numbers are the values of the
  digit strings: the decimal digits of a number \<open>n\<close> in that range are read back as \<open>n\<close>.
\<close>

theorem parse_single_reference:
  assumes "canonicalNames table" and "findBookMetadata table token = Some bookMeta"
      and "\<exists>c\<in>set token. isLetter c"
      and "C \<noteq> []" "list_all isDigit C" "V \<noteq> []" "list_all isDigit V"
      and "W \<noteq> []" "list_all isDigit W"
      and "exactInteger (parseInt10 C)" "exactInteger (parseInt10 V)" "exactInteger (parseInt10 W)"
  shows "parseReferencesFromString table (token @ '' '' @ C @ '':'' @ V) =
           [\<lparr>ParsedReference.book = BookMeta.name bookMeta,
             ParsedReference.chapter' = parseInt10 C,
             startVerse = parseInt10 V, endVerse = None\<rparr>] \<and>
         parseReferencesFromString table (token @ '' '' @ C @ '':'' @ V @ ''-'' @ W) =
           [\<lparr>ParsedReference.book = BookMeta.name bookMeta,
             ParsedReference.chapter' = parseInt10 C,
             startVerse = parseInt10 V, endVerse = Some (parseInt10 W)\<rparr>] \<and>
         (\<forall>n. exactInteger (int n) \<longrightarrow>
              decimal n \<noteq> [] \<and> list_all isDigit (decimal n) \<and> parseInt10 (decimal n) = int n)"
proof (intro conjI allI impI)
  show "parseReferencesFromString table (token @ '' '' @ C @ '':'' @ V) =
           [\<lparr>ParsedReference.book = BookMeta.name bookMeta,
             ParsedReference.chapter' = parseInt10 C,
             startVerse = parseInt10 V, endVerse = None\<rparr>]"
    using parse_reference [OF assms(1-7), of "[]"] by (simp add: rangeTail_cases)
  show "parseReferencesFromString table (token @ '' '' @ C @ '':'' @ V @ ''-'' @ W) =
           [\<lparr>ParsedReference.book = BookMeta.name bookMeta,
             ParsedReference.chapter' = parseInt10 C,
             startVerse = parseInt10 V, endVerse = Some (parseInt10 W)\<rparr>]"
    using parse_reference [OF assms(1-7), of "CHR ''-'' # W"] assms(8,9)
    by (simp add: rangeTail_cases)
next
  fix n
  show "decimal n \<noteq> []" "list_all isDigit (decimal n)" "parseInt10 (decimal n) = int n"
    by (simp_all add: decimal_digits parseInt10_decimal)
qed

theorem parse_single_reference_witness:
  "parseReferencesFromString sampleTable ''John 3:16'' =
     [\<lparr>ParsedReference.book = ''John'', ParsedReference.chapter' = 3, startVerse = 16,
       endVerse = None\<rparr>] \<and>
   parseReferencesFromString sampleTable ''John 3:16-18'' =
     [\<lparr>ParsedReference.book = ''John'', ParsedReference.chapter' = 3, startVerse = 16,
       endVerse = Some 18\<rparr>]"
proof -
  from john_resolves(1) [OF sample_canonical] obtain b where
    b: "findBookMetadata sampleTable ''John'' = Some b" "BookMeta.name b = ''John''" by blast
  from parse_single_reference [OF sample_canonical b(1) john_letter(1), of "''3''" "''16''" "''18''"]
    b(2) sample_digits
  show ?thesis by (simp add: exactInteger_def)
qed


section \<open>Parsing a list of references\<close>

lemma parsePart_segment:
  "parsePart table [] s =
     (case referenceRegex (trim s) of
        None \<Rightarrow> []
      | Some m \<Rightarrow>
          (case findBookMetadata table (trim (group1 m)) of
             None \<Rightarrow> []
           | Some bookMeta \<Rightarrow>
               [\<lparr>ParsedReference.book = BookMeta.name bookMeta,
                 ParsedReference.chapter' = parseInt10 (group3 m),
                 startVerse = parseInt10 (group4 m),
                 endVerse = (case group5 m of None \<Rightarrow> None | Some w \<Rightarrow> Some (parseInt10 w))\<rparr>]))"
proof (cases "trim s = []")
  case True
  have "referenceRegex [] = None"
    by (simp add: referenceRegexAt_def afterGroup2_def greedy1_def)
  with True show ?thesis by (simp add: parsePart_def)
next
  case False
  then show ?thesis by (simp add: parsePart_def Let_def split: option.splits)
qed

lemma parse_length:
  "length (parseReferencesFromString table s) \<le> length (splitSeparators s)"
proof -
  have "length (concat (map (parsePart table []) ps)) \<le> length ps" for ps
  proof (induction ps)
    case Nil
    then show ?case by simp
  next
    case (Cons p ps)
    with parsePart_length [of table p] show ?case by simp
  qed
  then show ?thesis by (simp add: parse_concat)
qed

lemma not_a_ref: "parseReferencesFromString table ''not a ref'' = []"
  by (simp add: parseReferencesFromString_def parsePart_def trim_def referenceRegexAt_def
      afterGroup2_def greedy1_def isSpace_def isDigit_def isLetter_def)

lemma john_romans:
  assumes c: "canonicalNames table"
  shows "parseReferencesFromString table ''John 3:16, Romans 8:28'' =
     [\<lparr>ParsedReference.book = ''John'', ParsedReference.chapter' = 3, startVerse = 16,
       endVerse = None\<rparr>,
      \<lparr>ParsedReference.book = ''Romans'', ParsedReference.chapter' = 8, startVerse = 28,
       endVerse = None\<rparr>]"
proof -
  from john_resolves [OF c] obtain b1 b2 where
    b1: "findBookMetadata table ''John'' = Some b1" "BookMeta.name b1 = ''John''" and
    b2: "findBookMetadata table ''Romans'' = Some b2" "BookMeta.name b2 = ''Romans''" by blast
  have "trim '' Romans'' = ''Romans''" by (simp add: trim_def isSpace_def)
  with b2(1) findBookMetadata_trim [of table "'' Romans''"]
  have b2': "findBookMetadata table '' Romans'' = Some b2" by simp
  have l: "\<exists>c\<in>set '' Romans''. isLetter c" by (simp add: isLetter_def)
  have one: "parseReferencesFromString table ''John 3:16'' =
     [\<lparr>ParsedReference.book = ''John'', ParsedReference.chapter' = 3, startVerse = 16,
       endVerse = None\<rparr>]"
    using parse_reference [OF c b1(1) john_letter(1), of "''3''" "''16''" "[]"] b1(2) sample_digits
    by (simp add: rangeTail_cases)
  have two: "parseReferencesFromString table '' Romans 8:28'' =
     [\<lparr>ParsedReference.book = ''Romans'', ParsedReference.chapter' = 8, startVerse = 28,
       endVerse = None\<rparr>]"
    using parse_reference [OF c b2' l, of "''8''" "''28''" "[]"] b2(2) sample_digits
    by (simp add: rangeTail_cases)
  from parse_append [of "CHR '',''" table "''John 3:16''" "'' Romans 8:28''"] one two
  show ?thesis by simp
qed

text \<open>
  C8. \<open>parseReferencesFromString\<close> is a function of its input with no failing branch: the
  model has none because no step of the source can throw on a string. The references of
  \<open>a,b\<close> and of \<open>a;b\<close> are those of \<open>a\<close> followed by those of \<open>b\<close>, so the output follows
  the order of the segments and keeps repetitions; a segment without separator yields
  nothing when its trimmed text has no match of the pattern or when the matched book token
  does not resolve, and one reference otherwise; there are never more references than
  segments. \<open>not a ref\<close> yields nothing, and with the book names of
  \<open>bookNameToAbbreviation\<close> in the table \<open>John 3:16, Romans 8:28\<close> yields these two
  references in this order.
\<close>

theorem parse_total_ordered:
  "parseReferencesFromString table (a @ CHR '','' # b) =
     parseReferencesFromString table a @ parseReferencesFromString table b \<and>
   parseReferencesFromString table (a @ CHR '';'' # b) =
     parseReferencesFromString table a @ parseReferencesFromString table b \<and>
   ((\<forall>c\<in>set s. c \<noteq> CHR '','' \<and> c \<noteq> CHR '';'') \<longrightarrow>
      parseReferencesFromString table s =
        (case referenceRegex (trim s) of
           None \<Rightarrow> []
         | Some m \<Rightarrow>
             (case findBookMetadata table (trim (group1 m)) of
                None \<Rightarrow> []
              | Some bookMeta \<Rightarrow>
                  [\<lparr>ParsedReference.book = BookMeta.name bookMeta,
                    ParsedReference.chapter' = parseInt10 (group3 m),
                    startVerse = parseInt10 (group4 m),
                    endVerse = (case group5 m of
                                  None \<Rightarrow> None
                                | Some w \<Rightarrow> Some (parseInt10 w))\<rparr>]))) \<and>
   length (parseReferencesFromString table s) \<le> length (splitSeparators s) \<and>
   parseReferencesFromString table ''not a ref'' = [] \<and>
   (canonicalNames table \<longrightarrow>
      parseReferencesFromString table ''John 3:16, Romans 8:28'' =
        [\<lparr>ParsedReference.book = ''John'', ParsedReference.chapter' = 3, startVerse = 16,
          endVerse = None\<rparr>,
         \<lparr>ParsedReference.book = ''Romans'', ParsedReference.chapter' = 8, startVerse = 28,
          endVerse = None\<rparr>])"
proof (intro conjI impI)
  show "parseReferencesFromString table (a @ CHR '','' # b) =
     parseReferencesFromString table a @ parseReferencesFromString table b"
    by (simp add: parse_append)
  show "parseReferencesFromString table (a @ CHR '';'' # b) =
     parseReferencesFromString table a @ parseReferencesFromString table b"
    by (simp add: parse_append)
  show "length (parseReferencesFromString table s) \<le> length (splitSeparators s)"
    by (rule parse_length)
  show "parseReferencesFromString table ''not a ref'' = []" by (rule not_a_ref)
next
  assume "\<forall>c\<in>set s. c \<noteq> CHR '','' \<and> c \<noteq> CHR '';''"
  then have "parseReferencesFromString table s = parsePart table [] s"
    by (simp add: parse_concat splitSeparators_single)
  then show "parseReferencesFromString table s =
        (case referenceRegex (trim s) of
           None \<Rightarrow> []
         | Some m \<Rightarrow>
             (case findBookMetadata table (trim (group1 m)) of
                None \<Rightarrow> []
              | Some bookMeta \<Rightarrow>
                  [\<lparr>ParsedReference.book = BookMeta.name bookMeta,
                    ParsedReference.chapter' = parseInt10 (group3 m),
                    startVerse = parseInt10 (group4 m),
                    endVerse = (case group5 m of
                                  None \<Rightarrow> None
                                | Some w \<Rightarrow> Some (parseInt10 w))\<rparr>]))"
    by (simp only: parsePart_segment)
next
  assume "canonicalNames table"
  then show "parseReferencesFromString table ''John 3:16, Romans 8:28'' =
        [\<lparr>ParsedReference.book = ''John'', ParsedReference.chapter' = 3, startVerse = 16,
          endVerse = None\<rparr>,
         \<lparr>ParsedReference.book = ''Romans'', ParsedReference.chapter' = 8, startVerse = 28,
          endVerse = None\<rparr>]"
    by (rule john_romans)
qed

theorem parse_total_ordered_witness:
  "parseReferencesFromString sampleTable ''John 3:16, Romans 8:28'' =
     [\<lparr>ParsedReference.book = ''John'', ParsedReference.chapter' = 3, startVerse = 16,
       endVerse = None\<rparr>,
      \<lparr>ParsedReference.book = ''Romans'', ParsedReference.chapter' = 8, startVerse = 28,
       endVerse = None\<rparr>] \<and>
   parseReferencesFromString sampleTable ''not a ref; John 3:16, Romans 8:28'' =
     parseReferencesFromString sampleTable ''not a ref'' @
     parseReferencesFromString sampleTable '' John 3:16, Romans 8:28'' \<and>
   parseReferencesFromString sampleTable ''not a ref'' = [] \<and>
   referenceRegex (trim ''not a ref'') = None"
proof -
  note t = parse_total_ordered [of sampleTable "''not a ref''" "'' John 3:16, Romans 8:28''"
      "''not a ref''"]
  have seps: "\<forall>c\<in>set ''not a ref''. c \<noteq> CHR '','' \<and> c \<noteq> CHR '';''" by simp
  have r: "referenceRegex (trim ''not a ref'') = None"
    by (simp add: trim_def referenceRegexAt_def afterGroup2_def greedy1_def isSpace_def
        isDigit_def isLetter_def)
  from t sample_canonical seps r show ?thesis by simp
qed

end
